(* ===== verification/Prelude.thy ===== *)
theory Prelude
  imports Main
begin

text \<open>
  The shared base of the development: the effect monad in which every stateful function of the
  program is written, the predicates that speak about what such a function emits and leaves
  behind, and the generic search-and-replace lemmas for Go slices of keyed conditions.

  A Go function with effects is a function from a state to a result and a new state.  The state
  holds the history of the calls made so far to the outside world (\<open>hist\<close>), the process-wide
  mutable variables (\<open>glob\<close>) and the one object the function mutates through its pointer
  argument (\<open>obj\<close>).  A result is \<open>Inl\<close> of a run-time panic or \<open>Inr\<close> of the returned value.
\<close>

section \<open>Proof collections\<close>

named_theorems go_defs \<open>definitions of the monad operations, for evaluation\<close>
named_theorems emits_intros \<open>introduction rules for the emits predicate\<close>
named_theorems frame_intros \<open>introduction rules for the keeps predicate\<close>

section \<open>The effect monad\<close>

text \<open>
  The run-time panics that the modelled code can raise; \<open>StillRunning\<close> is no panic but the mark of a
  loop that has used up the fuel of its model.
\<close>

datatype panic = NilDereference | IndexOutOfRange | NilMapWrite | PanicValue string | StillRunning

record ('e, 'g, 'o) gostate =
  hist :: "'e list"
  glob :: 'g
  obj :: 'o

type_synonym ('e, 'g, 'o, 'a) go =
  "('e, 'g, 'o) gostate \<Rightarrow> (panic + 'a) \<times> ('e, 'g, 'o) gostate"

definition go_return :: "'a \<Rightarrow> ('e, 'g, 'o, 'a) go" where
  "go_return a = (\<lambda>s. (Inr a, s))"

definition go_panic :: "panic \<Rightarrow> ('e, 'g, 'o, 'a) go" where
  "go_panic p = (\<lambda>s. (Inl p, s))"

definition go_bind ::
  "('e, 'g, 'o, 'a) go \<Rightarrow> ('a \<Rightarrow> ('e, 'g, 'o, 'b) go) \<Rightarrow> ('e, 'g, 'o, 'b) go" where
  "go_bind m f = (\<lambda>s. case m s of (Inl p, s') \<Rightarrow> (Inl p, s') | (Inr a, s') \<Rightarrow> f a s')"

text \<open>
  A call to the outside world: the event is appended to the history, and the answer is a
  function of the history before it.  Since the answer function is arbitrary, the environment
  may depend on everything that happened so far.
\<close>

definition go_call :: "'e \<Rightarrow> ('e list \<Rightarrow> 'a) \<Rightarrow> ('e, 'g, 'o, 'a) go" where
  "go_call e answer = (\<lambda>s. (Inr (answer (hist s)), s\<lparr>hist := hist s @ [e]\<rparr>))"

text \<open>Reading and writing the object behind the pointer argument, and the process globals.\<close>

definition go_obj :: "('e, 'g, 'o, 'o) go" where
  "go_obj = (\<lambda>s. (Inr (obj s), s))"

definition go_set :: "'o \<Rightarrow> ('e, 'g, 'o, unit) go" where
  "go_set v = (\<lambda>s. (Inr (), s\<lparr>obj := v\<rparr>))"

definition go_modify :: "('o \<Rightarrow> 'o) \<Rightarrow> ('e, 'g, 'o, unit) go" where
  "go_modify f = (\<lambda>s. (Inr (), s\<lparr>obj := f (obj s)\<rparr>))"

definition go_glob :: "('e, 'g, 'o, 'g) go" where
  "go_glob = (\<lambda>s. (Inr (glob s), s))"

definition go_set_glob :: "'g \<Rightarrow> ('e, 'g, 'o, unit) go" where
  "go_set_glob v = (\<lambda>s. (Inr (), s\<lparr>glob := v\<rparr>))"

text \<open>A \<open>for\<close> loop over a slice whose body has effects only, and a deferred function.\<close>

fun go_for :: "'x list \<Rightarrow> ('x \<Rightarrow> ('e, 'g, 'o, unit) go) \<Rightarrow> ('e, 'g, 'o, unit) go" where
  "go_for [] body = go_return ()"
| "go_for (x # xs) body = go_bind (body x) (\<lambda>_. go_for xs body)"

text \<open>
  \<open>go_defer m fin\<close> runs \<open>m\<close> and then \<open>fin\<close> on the value \<open>m\<close> returned, whose result replaces it
  (a deferred closure that assigns a named result); when \<open>m\<close> panics, \<open>fin\<close> runs on \<open>dflt\<close>, the
  zero value of the named result, and the panic goes on.
\<close>

definition go_defer ::
  "'a \<Rightarrow> ('e, 'g, 'o, 'a) go \<Rightarrow> ('a \<Rightarrow> ('e, 'g, 'o, 'a) go) \<Rightarrow> ('e, 'g, 'o, 'a) go" where
  "go_defer dflt m fin =
     (\<lambda>s. case m s of
        (Inl p, s') \<Rightarrow> (Inl p, snd (fin dflt s'))
      | (Inr a, s') \<Rightarrow> fin a s')"

lemmas go_eval = go_return_def go_panic_def go_bind_def go_call_def go_obj_def go_set_def
  go_modify_def go_glob_def go_set_glob_def go_defer_def

declare go_eval [go_defs]

lemma go_bind_return [simp]: "go_bind (go_return a) f = f a"
  by (simp add: go_eval)

lemma go_bind_return2 [simp]: "go_bind m go_return = m"
  by (auto simp: go_eval fun_eq_iff split: prod.splits sum.splits)

lemma go_bind_assoc: "go_bind (go_bind m f) g = go_bind m (\<lambda>a. go_bind (f a) g)"
  by (auto simp: go_eval fun_eq_iff split: prod.splits sum.splits)

lemma go_for_append:
  "go_for (xs @ ys) body = go_bind (go_for xs body) (\<lambda>_. go_for ys body)"
  by (induction xs) (simp_all add: go_bind_assoc)

section \<open>What a computation emits\<close>

text \<open>\<open>emits P m\<close>: \<open>m\<close> only extends the history, and only by events that satisfy \<open>P\<close>.\<close>

definition emits :: "('e \<Rightarrow> bool) \<Rightarrow> ('e, 'g, 'o, 'a) go \<Rightarrow> bool" where
  "emits P m \<longleftrightarrow> (\<forall>s. \<exists>es. hist (snd (m s)) = hist s @ es \<and> list_all P es)"

lemma emitsI: "(\<And>s. \<exists>es. hist (snd (m s)) = hist s @ es \<and> list_all P es) \<Longrightarrow> emits P m"
  by (simp add: emits_def)

lemma emitsD:
  assumes "emits P m" and "m s = (r, s')"
  shows "\<exists>es. hist s' = hist s @ es \<and> list_all P es"
  using assms unfolding emits_def by (metis snd_conv)

lemma emits_mono: "emits P m \<Longrightarrow> (\<And>e. P e \<Longrightarrow> Q e) \<Longrightarrow> emits Q m"
  unfolding emits_def by (meson list.pred_mono_strong)

lemma emits_return [emits_intros, simp]: "emits P (go_return a)"
  by (simp add: emits_def go_eval)

lemma emits_panic [emits_intros, simp]: "emits P (go_panic p)"
  by (simp add: emits_def go_eval)

lemma emits_obj [emits_intros, simp]: "emits P go_obj"
  by (simp add: emits_def go_eval)

lemma emits_set [emits_intros, simp]: "emits P (go_set v)"
  by (simp add: emits_def go_eval)

lemma emits_modify [emits_intros, simp]: "emits P (go_modify f)"
  by (simp add: emits_def go_eval)

lemma emits_glob [emits_intros, simp]: "emits P go_glob"
  by (simp add: emits_def go_eval)

lemma emits_set_glob [emits_intros, simp]: "emits P (go_set_glob v)"
  by (simp add: emits_def go_eval)

lemma emits_call [emits_intros]: "P e \<Longrightarrow> emits P (go_call e answer)"
  by (simp add: emits_def go_eval)

lemma emits_bind [emits_intros]:
  assumes m: "emits P m" and f: "\<And>a. emits P (f a)"
  shows "emits P (go_bind m f)"
proof (rule emitsI)
  fix s
  obtain r s' where ms: "m s = (r, s')" by fastforce
  from emitsD [OF m ms] obtain es where es: "hist s' = hist s @ es" "list_all P es" by blast
  show "\<exists>es. hist (snd (go_bind m f s)) = hist s @ es \<and> list_all P es"
  proof (cases r)
    case (Inl p)
    with ms es show ?thesis by (auto simp: go_eval)
  next
    case (Inr a)
    obtain r2 s2 where fs: "f a s' = (r2, s2)" by fastforce
    from emitsD [OF f fs] obtain es2 where "hist s2 = hist s' @ es2" "list_all P es2" by blast
    with ms es fs Inr show ?thesis by (auto simp: go_eval)
  qed
qed

lemma emits_for [emits_intros]: "(\<And>x. emits P (body x)) \<Longrightarrow> emits P (go_for xs body)"
  by (induction xs) (auto intro!: emits_intros)

lemma emits_defer [emits_intros]:
  assumes m: "emits P m" and f: "\<And>a. emits P (fin a)"
  shows "emits P (go_defer d m fin)"
proof (rule emitsI)
  fix s
  obtain r s' where ms: "m s = (r, s')" by fastforce
  from emitsD [OF m ms] obtain es where es: "hist s' = hist s @ es" "list_all P es" by blast
  define a where "a = (case r of Inl _ \<Rightarrow> d | Inr a \<Rightarrow> a)"
  obtain r2 s2 where fs: "fin a s' = (r2, s2)" by fastforce
  from emitsD [OF f fs] obtain es2 where "hist s2 = hist s' @ es2" "list_all P es2" by blast
  then show "\<exists>es. hist (snd (go_defer d m fin s)) = hist s @ es \<and> list_all P es"
    using ms es fs by (cases r) (auto simp: go_eval a_def)
qed

lemma emits_if [emits_intros]:
  "(b \<Longrightarrow> emits P m) \<Longrightarrow> (\<not> b \<Longrightarrow> emits P n) \<Longrightarrow> emits P (if b then m else n)"
  by simp

lemma emits_case_option [emits_intros]:
  "(x = None \<Longrightarrow> emits P m) \<Longrightarrow> (\<And>a. x = Some a \<Longrightarrow> emits P (f a)) \<Longrightarrow>
     emits P (case x of None \<Rightarrow> m | Some a \<Rightarrow> f a)"
  by (cases x) auto

lemma emits_case_sum [emits_intros]:
  "(\<And>a. x = Inl a \<Longrightarrow> emits P (f a)) \<Longrightarrow> (\<And>a. x = Inr a \<Longrightarrow> emits P (g a)) \<Longrightarrow>
     emits P (case x of Inl a \<Rightarrow> f a | Inr b \<Rightarrow> g b)"
  by (cases x) auto

lemma emits_case_prod [emits_intros]:
  "(\<And>a b. x = (a, b) \<Longrightarrow> emits P (f a b)) \<Longrightarrow> emits P (case x of (a, b) \<Rightarrow> f a b)"
  by (cases x) auto

lemma emits_let [emits_intros]: "emits P (f x) \<Longrightarrow> emits P (let y = x in f y)"
  by simp

section \<open>What a computation leaves unchanged\<close>

text \<open>\<open>keeps f m\<close>: the observation \<open>f\<close> of the state is the same after \<open>m\<close>, panic or not.\<close>

definition keeps :: "(('e, 'g, 'o) gostate \<Rightarrow> 'v) \<Rightarrow> ('e, 'g, 'o, 'a) go \<Rightarrow> bool" where
  "keeps f m \<longleftrightarrow> (\<forall>s. f (snd (m s)) = f s)"

lemma keepsD: "keeps f m \<Longrightarrow> m s = (r, s') \<Longrightarrow> f s' = f s"
  unfolding keeps_def by (metis snd_conv)

lemma keeps_return [frame_intros, simp]: "keeps f (go_return a)"
  by (simp add: keeps_def go_eval)

lemma keeps_panic [frame_intros, simp]: "keeps f (go_panic p)"
  by (simp add: keeps_def go_eval)

lemma keeps_obj [frame_intros, simp]: "keeps f go_obj"
  by (simp add: keeps_def go_eval)

lemma keeps_glob [frame_intros, simp]: "keeps f go_glob"
  by (simp add: keeps_def go_eval)

lemma keeps_call [frame_intros]: "(\<And>s h. f (s\<lparr>hist := h\<rparr>) = f s) \<Longrightarrow> keeps f (go_call e answer)"
  by (simp add: keeps_def go_eval)

lemma keeps_bind [frame_intros]:
  "keeps f m \<Longrightarrow> (\<And>a. keeps f (g a)) \<Longrightarrow> keeps f (go_bind m g)"
  unfolding keeps_def go_bind_def
  by (auto split: prod.splits sum.splits) (metis snd_conv)+

lemma keeps_for [frame_intros]: "(\<And>x. keeps f (body x)) \<Longrightarrow> keeps f (go_for xs body)"
  by (induction xs) (auto intro!: frame_intros)

lemma keeps_if [frame_intros]:
  "(b \<Longrightarrow> keeps f m) \<Longrightarrow> (\<not> b \<Longrightarrow> keeps f n) \<Longrightarrow> keeps f (if b then m else n)"
  by simp

lemma keeps_case_option [frame_intros]:
  "(x = None \<Longrightarrow> keeps f m) \<Longrightarrow> (\<And>a. x = Some a \<Longrightarrow> keeps f (g a)) \<Longrightarrow>
     keeps f (case x of None \<Rightarrow> m | Some a \<Rightarrow> g a)"
  by (cases x) auto

lemma keeps_case_sum [frame_intros]:
  "(\<And>a. x = Inl a \<Longrightarrow> keeps f (g a)) \<Longrightarrow> (\<And>a. x = Inr a \<Longrightarrow> keeps f (h a)) \<Longrightarrow>
     keeps f (case x of Inl a \<Rightarrow> g a | Inr b \<Rightarrow> h b)"
  by (cases x) auto

lemma keeps_case_prod [frame_intros]:
  "(\<And>a b. x = (a, b) \<Longrightarrow> keeps f (g a b)) \<Longrightarrow> keeps f (case x of (a, b) \<Rightarrow> g a b)"
  by (cases x) auto

lemma keeps_defer [frame_intros]:
  assumes m: "keeps f m" and fin: "\<And>a. keeps f (fin a)"
  shows "keeps f (go_defer d m fin)"
  unfolding keeps_def
proof
  fix s
  obtain r s' where ms: "m s = (r, s')" by fastforce
  with keepsD [OF m] have "f s' = f s" by blast
  then show "f (snd (go_defer d m fin s)) = f s"
    using ms fin [unfolded keeps_def] by (cases r) (simp_all add: go_eval)
qed

lemma keeps_obj_set_glob [frame_intros, simp]: "keeps obj (go_set_glob v)"
  by (simp add: keeps_def go_eval)

lemma keeps_glob_set [frame_intros, simp]: "keeps glob (go_set v)" "keeps glob (go_modify f)"
  by (simp_all add: keeps_def go_eval)

section \<open>Invariants of the object\<close>

text \<open>\<open>maintains I m\<close>: if \<open>I\<close> holds of the object before \<open>m\<close>, it holds after, panic or not.\<close>

definition maintains :: "('o \<Rightarrow> bool) \<Rightarrow> ('e, 'g, 'o, 'a) go \<Rightarrow> bool" where
  "maintains I m \<longleftrightarrow> (\<forall>s. I (obj s) \<longrightarrow> I (obj (snd (m s))))"

named_theorems maintains_intros \<open>introduction rules for the maintains predicate\<close>

lemma maintainsD: "maintains I m \<Longrightarrow> I (obj s) \<Longrightarrow> m s = (r, s') \<Longrightarrow> I (obj s')"
  unfolding maintains_def by (metis snd_conv)

lemma maintains_return [maintains_intros, simp]: "maintains I (go_return a)"
  by (simp add: maintains_def go_eval)

lemma maintains_panic [maintains_intros, simp]: "maintains I (go_panic p)"
  by (simp add: maintains_def go_eval)

lemma maintains_obj [maintains_intros, simp]: "maintains I go_obj"
  by (simp add: maintains_def go_eval)

lemma maintains_call [maintains_intros, simp]: "maintains I (go_call e answer)"
  by (simp add: maintains_def go_eval)

lemma maintains_modify [maintains_intros]: "(\<And>v. I v \<Longrightarrow> I (f v)) \<Longrightarrow> maintains I (go_modify f)"
  by (simp add: maintains_def go_eval)

lemma maintains_bind [maintains_intros]:
  "maintains I m \<Longrightarrow> (\<And>a. maintains I (g a)) \<Longrightarrow> maintains I (go_bind m g)"
  unfolding maintains_def go_bind_def
  by (auto split: prod.splits sum.splits)

lemma maintains_if [maintains_intros]:
  "(b \<Longrightarrow> maintains I m) \<Longrightarrow> (\<not> b \<Longrightarrow> maintains I n) \<Longrightarrow> maintains I (if b then m else n)"
  by simp

lemma maintains_case_option [maintains_intros]:
  "(x = None \<Longrightarrow> maintains I m) \<Longrightarrow> (\<And>a. x = Some a \<Longrightarrow> maintains I (g a)) \<Longrightarrow>
     maintains I (case x of None \<Rightarrow> m | Some a \<Rightarrow> g a)"
  by (cases x) auto

lemma maintains_case_sum [maintains_intros]:
  "(\<And>a. x = Inl a \<Longrightarrow> maintains I (g a)) \<Longrightarrow> (\<And>a. x = Inr a \<Longrightarrow> maintains I (h a)) \<Longrightarrow>
     maintains I (case x of Inl a \<Rightarrow> g a | Inr b \<Rightarrow> h b)"
  by (cases x) auto

lemma maintains_case_prod [maintains_intros]:
  "(\<And>a b. x = (a, b) \<Longrightarrow> maintains I (g a b)) \<Longrightarrow> maintains I (case x of (a, b) \<Rightarrow> g a b)"
  by (cases x) auto

lemma maintains_glob [maintains_intros, simp]: "maintains I go_glob"
  by (simp add: maintains_def go_eval)

section \<open>Total correctness\<close>

text \<open>\<open>wp m Q s\<close>: from \<open>s\<close>, \<open>m\<close> returns (it does not panic) and \<open>Q\<close> holds of value and new state.\<close>

definition wp ::
  "('e, 'g, 'o, 'a) go \<Rightarrow> ('a \<Rightarrow> ('e, 'g, 'o) gostate \<Rightarrow> bool) \<Rightarrow> ('e, 'g, 'o) gostate \<Rightarrow> bool" where
  "wp m Q s = (case m s of (Inl p, s') \<Rightarrow> False | (Inr a, s') \<Rightarrow> Q a s')"

named_theorems wp_rules \<open>rewrite rules for wp\<close>

lemma wp_return [wp_rules]: "wp (go_return a) Q s = Q a s"
  by (simp add: wp_def go_eval)

lemma wp_bind [wp_rules]: "wp (go_bind m f) Q s = wp m (\<lambda>a. wp (f a) Q) s"
  by (simp add: wp_def go_eval split: prod.splits sum.splits)

lemma wp_call [wp_rules]:
  "wp (go_call e answer) Q s = Q (answer (hist s)) (s\<lparr>hist := hist s @ [e]\<rparr>)"
  by (simp add: wp_def go_eval)

lemma wp_obj [wp_rules]: "wp go_obj Q s = Q (obj s) s"
  by (simp add: wp_def go_eval)

lemma wp_set [wp_rules]: "wp (go_set v) Q s = Q () (s\<lparr>obj := v\<rparr>)"
  by (simp add: wp_def go_eval)

lemma wp_modify [wp_rules]: "wp (go_modify f) Q s = Q () (s\<lparr>obj := f (obj s)\<rparr>)"
  by (simp add: wp_def go_eval)

lemma wp_glob [wp_rules]: "wp go_glob Q s = Q (glob s) s"
  by (simp add: wp_def go_eval)

lemma wp_set_glob [wp_rules]: "wp (go_set_glob v) Q s = Q () (s\<lparr>glob := v\<rparr>)"
  by (simp add: wp_def go_eval)

lemma wp_defer [wp_rules]: "wp (go_defer d m fin) Q s = wp m (\<lambda>a. wp (fin a) Q) s"
  by (simp add: wp_def go_eval split: prod.splits sum.splits)

lemma wp_if [wp_rules]: "wp (if b then m else n) Q s = (if b then wp m Q s else wp n Q s)"
  by simp

lemma wp_case_option [wp_rules]:
  "wp (case x of None \<Rightarrow> m | Some a \<Rightarrow> f a) Q s = (case x of None \<Rightarrow> wp m Q s | Some a \<Rightarrow> wp (f a) Q s)"
  by (cases x) auto

lemma wp_case_sum [wp_rules]:
  "wp (case x of Inl a \<Rightarrow> f a | Inr b \<Rightarrow> g b) Q s =
     (case x of Inl a \<Rightarrow> wp (f a) Q s | Inr b \<Rightarrow> wp (g b) Q s)"
  by (cases x) auto

lemma wp_case_prod [wp_rules]:
  "wp (case x of (a, b) \<Rightarrow> f a b) Q s = (case x of (a, b) \<Rightarrow> wp (f a b) Q s)"
  by (cases x) auto

lemma wp_mono: "wp m P s \<Longrightarrow> (\<And>a s'. P a s' \<Longrightarrow> Q a s') \<Longrightarrow> wp m Q s"
  by (auto simp: wp_def split: prod.splits sum.splits)

lemma wp_conj: "wp m P s \<Longrightarrow> wp m Q s \<Longrightarrow> wp m (\<lambda>a s'. P a s' \<and> Q a s') s"
  by (auto simp: wp_def split: prod.splits sum.splits)

lemma wp_returns: "wp m Q s \<Longrightarrow> \<exists>a s'. m s = (Inr a, s') \<and> Q a s'"
  by (auto simp: wp_def split: prod.splits sum.splits)

lemma wp_keeps: "keeps f m \<Longrightarrow> wp m Q s \<Longrightarrow> wp m (\<lambda>a s'. Q a s' \<and> f s' = f s) s"
  by (auto simp: wp_def dest: keepsD split: prod.splits sum.splits)

lemma wp_emits:
  assumes "emits P m" and "wp m Q s"
  shows "wp m (\<lambda>a s'. Q a s' \<and> (\<exists>es. hist s' = hist s @ es \<and> list_all P es)) s"
proof -
  obtain r s' where m: "m s = (r, s')" by fastforce
  then show ?thesis using emitsD [OF assms(1) m] assms(2) by (auto simp: wp_def split: sum.splits)
qed

text \<open>\<open>saw P h h'\<close>: after the history \<open>h\<close> there was an event that satisfies \<open>P\<close>.\<close>

definition saw :: "('e \<Rightarrow> bool) \<Rightarrow> 'e list \<Rightarrow> 'e list \<Rightarrow> bool" where
  "saw P h h' \<longleftrightarrow> (\<exists>es. h' = h @ es \<and> list_ex P es)"

lemma saw_after: "saw P h h' \<Longrightarrow> saw P h (h' @ es)"
  by (auto simp: saw_def)

lemma saw_before: "saw P (h @ es) h' \<Longrightarrow> saw P h h'"
  by (auto simp: saw_def)

lemma wp_grow: "emits P m \<Longrightarrow> wp m Q s \<Longrightarrow> wp m (\<lambda>a s'. Q a s' \<and> (\<exists>es. hist s' = hist s @ es)) s"
  by (drule (1) wp_emits, erule wp_mono) blast

lemma wp_saw_first:
  assumes "wp m (\<lambda>a s'. R a s' \<and> saw P (hist s) (hist s')) s"
    and "\<And>a. emits T (f a)" and "\<And>a s'. R a s' \<Longrightarrow> wp (f a) Q s'"
  shows "wp (go_bind m f) (\<lambda>b s'. Q b s' \<and> saw P (hist s) (hist s')) s"
  unfolding wp_bind
  by (rule wp_mono [OF assms(1)], clarify, rule wp_mono [OF wp_grow [OF assms(2,3)]])
    (auto dest: saw_after)

lemma wp_saw_then:
  assumes "emits T m" and "wp m R s"
    and "\<And>a s'. R a s' \<Longrightarrow> wp (f a) (\<lambda>b s''. Q b s'' \<and> saw P (hist s') (hist s'')) s'"
  shows "wp (go_bind m f) (\<lambda>b s'. Q b s' \<and> saw P (hist s) (hist s')) s"
  unfolding wp_bind
  by (rule wp_mono [OF wp_grow [OF assms(1,2)]], clarify, rule wp_mono [OF assms(3)])
    (auto dest: saw_before)

lemma wp_for:
  assumes I: "\<And>x s. x \<in> set xs \<Longrightarrow> I s \<Longrightarrow> wp (body x) (\<lambda>_. I) s"
  shows "I s \<Longrightarrow> wp (go_for xs body) (\<lambda>_. I) s"
  using I
proof (induction xs arbitrary: s)
  case (Cons x xs)
  then have "wp (body x) (\<lambda>_. I) s" by simp
  then show ?case using Cons by (auto simp: wp_rules intro: wp_mono)
qed (simp add: wp_rules)

end
