(* ===== verification/GoLib.thy ===== *)
theory GoLib
  imports Prelude
begin

text \<open>
  What the program uses of the Go standard library on strings and integers.  A Go string is its
  sequence of bytes, modelled as \<open>string\<close> (a list of 8-bit characters); \<open>utf8_runes\<close> is the
  decoding that \<^theory_text>\<open>for _, r := range s\<close> and the rune-wise functions of package strings perform.
  Errors are values of \<open>goerror\<close>: their text, and whether \<^theory_text>\<open>apierrs.IsNotFound\<close> holds of them.
\<close>

section \<open>Errors\<close>

datatype goerror = GoError (err_text: string) (is_not_found: bool)

text \<open>\<^theory_text>\<open>errors.New\<close> and \<^theory_text>\<open>fmt.Errorf\<close> without \<^theory_text>\<open>%w\<close>; \<^theory_text>\<open>errors.Wrap(err, msg)\<close> keeps the cause.\<close>

definition errors_New :: "string \<Rightarrow> goerror" where
  "errors_New t = GoError t False"

definition errors_Wrap :: "goerror \<Rightarrow> string \<Rightarrow> goerror" where
  "errors_Wrap e t = GoError (t @ '': '' @ err_text e) (is_not_found e)"

text \<open>\<^theory_text>\<open>client.IgnoreNotFound\<close>\<close>

definition ignore_not_found :: "goerror \<Rightarrow> goerror option" where
  "ignore_not_found e = (if is_not_found e then None else Some e)"

section \<open>Bytes and runes\<close>

type_synonym rune = nat

definition bytes_of :: "string \<Rightarrow> nat list" where
  "bytes_of s = map of_char s"

definition string_of_bytes :: "nat list \<Rightarrow> string" where
  "string_of_bytes bs = map char_of bs"

lemma string_of_bytes_of [simp]: "string_of_bytes (bytes_of s) = s"
  by (simp add: string_of_bytes_def bytes_of_def comp_def)

lemma bytes_of_lt: "b \<in> set (bytes_of s) \<Longrightarrow> b < 256"
  by (auto simp: bytes_of_def)

text \<open>
  \<^theory_text>\<open>utf8.DecodeRuneInString\<close>: the rune and its width; an invalid or truncated sequence is
  \<open>RuneError\<close> of width 1.  \<open>cont_in lo hi\<close> is the range of the second byte.
\<close>

definition rune_error :: rune where
  "rune_error = 65533"

definition cont_in :: "nat \<Rightarrow> nat \<Rightarrow> nat \<Rightarrow> bool" where
  "cont_in lo hi b \<longleftrightarrow> lo \<le> b \<and> b \<le> hi"

fun decode_rune :: "nat \<Rightarrow> nat list \<Rightarrow> rune \<times> nat" where
  "decode_rune b0 rest =
     (if b0 < 128 then (b0, 1)
      else if 194 \<le> b0 \<and> b0 \<le> 223 then
        (case rest of
           b1 # _ \<Rightarrow> if cont_in 128 191 b1 then ((b0 mod 32) * 64 + b1 mod 64, 2)
                     else (rune_error, 1)
         | [] \<Rightarrow> (rune_error, 1))
      else if 224 \<le> b0 \<and> b0 \<le> 239 then
        (case rest of
           b1 # b2 # _ \<Rightarrow>
             if cont_in (if b0 = 224 then 160 else 128) (if b0 = 237 then 159 else 191) b1
                \<and> cont_in 128 191 b2
             then ((b0 mod 16) * 4096 + (b1 mod 64) * 64 + b2 mod 64, 3)
             else (rune_error, 1)
         | _ \<Rightarrow> (rune_error, 1))
      else if 240 \<le> b0 \<and> b0 \<le> 244 then
        (case rest of
           b1 # b2 # b3 # _ \<Rightarrow>
             if cont_in (if b0 = 240 then 144 else 128) (if b0 = 244 then 143 else 191) b1
                \<and> cont_in 128 191 b2 \<and> cont_in 128 191 b3
             then ((b0 mod 8) * 262144 + (b1 mod 64) * 4096 + (b2 mod 64) * 64 + b3 mod 64, 4)
             else (rune_error, 1)
         | _ \<Rightarrow> (rune_error, 1))
      else (rune_error, 1))"

declare decode_rune.simps [simp del]

fun utf8_runes :: "nat list \<Rightarrow> rune list" where
  "utf8_runes [] = []"
| "utf8_runes (b0 # rest) =
     (let (r, w) = decode_rune b0 rest in r # utf8_runes (drop (w - 1) rest))"

definition runes_of :: "string \<Rightarrow> rune list" where
  "runes_of s = utf8_runes (bytes_of s)"

lemma utf8_runes_ascii: "list_all (\<lambda>b. b < 128) bs \<Longrightarrow> utf8_runes bs = bs"
  by (induction bs) (simp_all add: decode_rune.simps)

definition ascii_string :: "string \<Rightarrow> bool" where
  "ascii_string s \<longleftrightarrow> list_all (\<lambda>b. b < 128) (bytes_of s)"

lemma runes_of_ascii: "ascii_string s \<Longrightarrow> runes_of s = bytes_of s"
  by (simp add: ascii_string_def runes_of_def utf8_runes_ascii)

section \<open>Functions of package strings\<close>

definition has_prefix :: "string \<Rightarrow> string \<Rightarrow> bool" where
  "has_prefix s p \<longleftrightarrow> take (length p) s = p"

definition trim_prefix :: "string \<Rightarrow> string \<Rightarrow> string" where
  "trim_prefix s p = (if has_prefix s p then drop (length p) s else s)"

fun contains :: "string \<Rightarrow> string \<Rightarrow> bool" where
  "contains [] sub = (sub = [])"
| "contains (c # cs) sub = (has_prefix (c # cs) sub \<or> contains cs sub)"

fun join :: "string list \<Rightarrow> string \<Rightarrow> string" where
  "join [] sep = []"
| "join [s] sep = s"
| "join (s # t # ss) sep = s @ sep @ join (t # ss) sep"

text \<open>\<^theory_text>\<open>strings.ReplaceAll\<close> of a one-byte pattern.\<close>

definition replace_all :: "string \<Rightarrow> char \<Rightarrow> string \<Rightarrow> string" where
  "replace_all s old new = concat (map (\<lambda>c. if c = old then new else [c]) s)"

text \<open>Trimming at both ends: the space-like runes, or a given byte.\<close>

definition trim_both :: "('a \<Rightarrow> bool) \<Rightarrow> 'a list \<Rightarrow> 'a list" where
  "trim_both P xs = rev (dropWhile P (rev (dropWhile P xs)))"

lemma contains_iff: "contains s sub \<longleftrightarrow> (\<exists>pre post. s = pre @ sub @ post)"
proof (induction s)
  case (Cons c cs)
  have "has_prefix (c # cs) sub \<longleftrightarrow> (\<exists>post. c # cs = sub @ post)"
    unfolding has_prefix_def by (metis append_eq_conv_conj append_take_drop_id)
  then show ?case using Cons
    by (auto simp: Cons_eq_append_conv)
qed simp

lemma replace_all_Nil [simp]: "replace_all [] old new = []"
  by (simp add: replace_all_def)

lemma replace_all_Cons [simp]:
  "replace_all (c # cs) old new = (if c = old then new else [c]) @ replace_all cs old new"
  by (simp add: replace_all_def)

lemma replace_all_append:
  "replace_all (s @ t) old new = replace_all s old new @ replace_all t old new"
  by (simp add: replace_all_def)

lemma set_dropWhile_subset: "set (dropWhile P xs) \<subseteq> set xs"
  by (auto dest: set_dropWhileD)

lemma set_trim_both: "set (trim_both P xs) \<subseteq> set xs"
  using set_dropWhile_subset [of P "rev (dropWhile P xs)"] set_dropWhile_subset [of P xs]
  by (auto simp: trim_both_def)

lemma trim_both_ends:
  "trim_both P xs \<noteq> [] \<Longrightarrow> \<not> P (hd (trim_both P xs)) \<and> \<not> P (last (trim_both P xs))"
proof -
  let ?d = "dropWhile P (rev (dropWhile P xs))"
  assume "trim_both P xs \<noteq> []"
  then have ne: "?d \<noteq> []" by (simp add: trim_both_def)
  then have l: "\<not> P (last (trim_both P xs))"
    by (simp add: trim_both_def last_rev hd_dropWhile)
  have "dropWhile P xs \<noteq> []"
  proof
    assume "dropWhile P xs = []"
    then have "?d = []" by (simp only: rev.simps dropWhile.simps)
    with ne show False by contradiction
  qed
  moreover have "last ?d = last (rev (dropWhile P xs))"
    using ne by (metis dropWhile_eq_Nil_conv last_appendR takeWhile_dropWhile_id)
  ultimately have "\<not> P (last ?d)" by (simp add: last_rev hd_dropWhile)
  then show ?thesis using l ne by (simp add: trim_both_def hd_rev)
qed

lemma trim_both_id:
  "xs = [] \<or> (\<not> P (hd xs) \<and> \<not> P (last xs)) \<Longrightarrow> trim_both P xs = xs"
proof -
  assume a: "xs = [] \<or> (\<not> P (hd xs) \<and> \<not> P (last xs))"
  then have "dropWhile P xs = xs" by (cases xs) auto
  moreover have "dropWhile P (rev xs) = rev xs" using a
    by (cases "rev xs") (auto simp: last_rev)
  ultimately show ?thesis by (simp add: trim_both_def)
qed

section \<open>Decimal numbers\<close>

definition digit_char :: "nat \<Rightarrow> char" where
  "digit_char d = char_of (48 + d)"

fun dec_nat :: "nat \<Rightarrow> string" where
  "dec_nat n = (if n < 10 then [digit_char n] else dec_nat (n div 10) @ [digit_char (n mod 10)])"

declare dec_nat.simps [simp del]

text \<open>\<^theory_text>\<open>strconv.Itoa\<close> and the \<^theory_text>\<open>%d\<close> verb.\<close>

definition itoa :: "int \<Rightarrow> string" where
  "itoa i = (if i < 0 then CHR ''-'' # dec_nat (nat (- i)) else dec_nat (nat i))"

definition is_digit :: "char \<Rightarrow> bool" where
  "is_digit c \<longleftrightarrow> 48 \<le> (of_char c :: nat) \<and> (of_char c :: nat) \<le> 57"

definition digits_value :: "string \<Rightarrow> nat" where
  "digits_value s = foldl (\<lambda>n c. 10 * n + (of_char c - 48)) 0 s"

text \<open>
  \<^theory_text>\<open>strconv.Atoi\<close> on a 64-bit platform: an optional sign, at least one digit, and the value in the
  range of \<^theory_text>\<open>int64\<close>; the two errors are syntax and range.
\<close>

datatype atoi_error = ErrSyntax | ErrRange

definition parse_uint :: "string \<Rightarrow> nat option" where
  "parse_uint s = (if s \<noteq> [] \<and> list_all is_digit s then Some (digits_value s) else None)"

definition atoi :: "string \<Rightarrow> atoi_error + int" where
  "atoi s =
     (let neg = (has_prefix s ''-'');
          body = (if neg \<or> has_prefix s ''+'' then tl s else s)
      in case parse_uint body of
           None \<Rightarrow> Inl ErrSyntax
         | Some n \<Rightarrow>
             if neg then (if n \<le> 2 ^ 63 then Inr (- int n) else Inl ErrRange)
             else (if n < 2 ^ 63 then Inr (int n) else Inl ErrRange))"

lemma is_digit_digit_char: "d < 10 \<Longrightarrow> is_digit (digit_char d)"
  by (simp add: is_digit_def digit_char_def)

lemma dec_nat_digits: "dec_nat n \<noteq> [] \<and> list_all is_digit (dec_nat n)"
proof (induction n rule: dec_nat.induct)
  case (1 n)
  then show ?case by (subst (1 2) dec_nat.simps) (auto simp: is_digit_digit_char)
qed

lemma digits_value_snoc:
  "digits_value (s @ [c]) = 10 * digits_value s + (of_char c - 48)"
  by (simp add: digits_value_def)

lemma digits_value_dec_nat [simp]: "digits_value (dec_nat n) = n"
proof (induction n rule: dec_nat.induct)
  case (1 n)
  show ?case
  proof (cases "n < 10")
    case True
    then show ?thesis by (subst dec_nat.simps) (simp add: digits_value_def digit_char_def)
  next
    case False
    then have "digits_value (dec_nat n) = 10 * (n div 10) + (48 + n mod 10) mod 256 - 48"
      using 1 by (subst dec_nat.simps) (simp add: digits_value_snoc digit_char_def)
    moreover have "(48 + n mod 10) mod 256 = 48 + n mod 10" by simp
    ultimately show ?thesis by simp
  qed
qed

lemma dec_nat_no_sign:
  "\<not> has_prefix (dec_nat n) ''-''" "\<not> has_prefix (dec_nat n) ''+''"
  using dec_nat_digits [of n]
  by (cases "dec_nat n"; auto simp: has_prefix_def is_digit_def)+

lemma atoi_itoa: "- (2 ^ 63) \<le> i \<Longrightarrow> i < 2 ^ 63 \<Longrightarrow> atoi (itoa i) = Inr i"
  using dec_nat_digits [of "nat i"] dec_nat_digits [of "nat (- i)"]
    dec_nat_no_sign [of "nat i"]
  by (cases "i < 0")
     (auto simp: atoi_def itoa_def parse_uint_def has_prefix_def Let_def nat_le_iff nat_less_iff)

lemma dec_nat_inj: "dec_nat m = dec_nat n \<longleftrightarrow> m = n"
  by (metis digits_value_dec_nat)

section \<open>Booleans\<close>

text \<open>The strings that \<^theory_text>\<open>strconv.ParseBool\<close> accepts.\<close>

definition parse_bool :: "string \<Rightarrow> bool option" where
  "parse_bool s =
     (if s \<in> {''1'', ''t'', ''T'', ''true'', ''TRUE'', ''True''} then Some True
      else if s \<in> {''0'', ''f'', ''F'', ''false'', ''FALSE'', ''False''} then Some False
      else None)"

section \<open>Base64, standard alphabet with padding\<close>

definition b64_alphabet :: string where
  "b64_alphabet = ''ABCDEFGHIJKLMNOPQRSTUVWXYZabcdefghijklmnopqrstuvwxyz0123456789+/''"

definition b64_char :: "nat \<Rightarrow> char" where
  "b64_char i = b64_alphabet ! i"

fun b64_encode :: "nat list \<Rightarrow> string" where
  "b64_encode [] = []"
| "b64_encode [a] = [b64_char (a div 4), b64_char ((a mod 4) * 16), CHR ''='', CHR ''='']"
| "b64_encode [a, b] =
     [b64_char (a div 4), b64_char ((a mod 4) * 16 + b div 16), b64_char ((b mod 16) * 4), CHR ''='']"
| "b64_encode (a # b # c # rest) =
     b64_char (a div 4) # b64_char ((a mod 4) * 16 + b div 16)
       # b64_char ((b mod 16) * 4 + c div 64) # b64_char (c mod 64) # b64_encode rest"

text \<open>
  \<^theory_text>\<open>base64.StdEncoding.DecodeString\<close>: carriage returns and newlines are skipped, padding is required
  and may only end the input.
\<close>

fun index_in :: "char \<Rightarrow> string \<Rightarrow> nat option" where
  "index_in c [] = None"
| "index_in c (x # xs) = (if x = c then Some 0 else map_option Suc (index_in c xs))"

definition b64_value :: "char \<Rightarrow> nat option" where
  "b64_value c = index_in c b64_alphabet"

definition b64_first :: "nat \<Rightarrow> nat \<Rightarrow> nat" where
  "b64_first a b = a * 4 + b div 16"
definition b64_second :: "nat \<Rightarrow> nat \<Rightarrow> nat" where
  "b64_second b c = (b mod 16) * 16 + c div 4"
definition b64_third :: "nat \<Rightarrow> nat \<Rightarrow> nat" where
  "b64_third c d = (c mod 4) * 64 + d"

fun b64_quads :: "string \<Rightarrow> nat list option" where
  "b64_quads [] = Some []"
| "b64_quads (a # b # c # d # rest) =
     (case (b64_value a, b64_value b) of
        (Some va, Some vb) \<Rightarrow>
          (if d = CHR ''='' \<and> rest = [] then
             (if c = CHR ''='' then Some [b64_first va vb]
              else map_option (\<lambda>vc. [b64_first va vb, b64_second vb vc]) (b64_value c))
           else
             (case (b64_value c, b64_value d) of
                (Some vc, Some vd) \<Rightarrow>
                  map_option (\<lambda>bs. b64_first va vb # b64_second vb vc # b64_third vc vd # bs)
                    (b64_quads rest)
              | _ \<Rightarrow> None))
      | _ \<Rightarrow> None)"
| "b64_quads _ = None"

definition b64_decode :: "string \<Rightarrow> nat list option" where
  "b64_decode s = b64_quads (filter (\<lambda>c. c \<noteq> CHR 0x0A \<and> c \<noteq> CHR 0x0D) s)"

lemma index_in_nth: "distinct xs \<Longrightarrow> i < length xs \<Longrightarrow> index_in (xs ! i) xs = Some i"
  by (induction xs arbitrary: i) (auto simp: nth_Cons split: nat.split)

lemma b64_alphabet_facts:
  "length b64_alphabet = 64" "distinct b64_alphabet"
  "CHR ''='' \<notin> set b64_alphabet" "CHR 0x0A \<notin> set b64_alphabet" "CHR 0x0D \<notin> set b64_alphabet"
  by (simp_all add: b64_alphabet_def)

lemma b64_value_char [simp]: "i < 64 \<Longrightarrow> b64_value (b64_char i) = Some i"
  by (simp add: b64_value_def b64_char_def index_in_nth b64_alphabet_facts)

lemma b64_char_plain:
  assumes "i < 64"
  shows "b64_char i \<noteq> CHR ''=''" "b64_char i \<noteq> CHR 0x0A" "b64_char i \<noteq> CHR 0x0D"
proof -
  have "b64_char i \<in> set b64_alphabet"
    using assms by (simp add: b64_char_def b64_alphabet_facts(1))
  then show "b64_char i \<noteq> CHR ''=''" "b64_char i \<noteq> CHR 0x0A" "b64_char i \<noteq> CHR 0x0D"
    using b64_alphabet_facts(3-5) by metis+
qed

lemma quot_rem:
  fixes x y n :: nat
  shows "y < n \<Longrightarrow> (x * n + y) div n = x" "y < n \<Longrightarrow> (x * n + y) mod n = y"
  by simp_all

lemma byte_parts:
  fixes b :: nat
  shows "b < 256 \<Longrightarrow> b div 16 < 16" "b < 256 \<Longrightarrow> b div 64 < 4" "b < 256 \<Longrightarrow> b div 4 < 64"
    "b mod 4 < 4" "b mod 16 < 16" "b mod 64 < 64"
  by (simp_all add: less_mult_imp_div_less)

lemma digit_bounds_nat:
  fixes x y :: nat
  shows "x < 4 \<Longrightarrow> y < 16 \<Longrightarrow> x * 16 + y < 64" "x < 16 \<Longrightarrow> y < 4 \<Longrightarrow> x * 4 + y < 64"
    "x < 4 \<Longrightarrow> x * 16 < 64" "x < 16 \<Longrightarrow> x * 4 < 64"
  by simp_all

lemma b64_digit_bounds:
  fixes a b c :: nat
  shows "a < 256 \<Longrightarrow> a div 4 < 64" "b < 256 \<Longrightarrow> (a mod 4) * 16 + b div 16 < 64"
    "(a mod 4) * 16 < 64" "(b mod 16) * 4 < 64"
    "c < 256 \<Longrightarrow> (b mod 16) * 4 + c div 64 < 64" "c mod 64 < 64"
  by (intro digit_bounds_nat byte_parts; assumption)+

lemma b64_bytes:
  fixes a b c :: nat
  shows "b < 256 \<Longrightarrow> b64_first (a div 4) ((a mod 4) * 16 + b div 16) = a"
    "b64_first (a div 4) ((a mod 4) * 16) = a"
    "b < 256 \<Longrightarrow> c < 256 \<Longrightarrow> b64_second ((a mod 4) * 16 + b div 16) ((b mod 16) * 4 + c div 64) = b"
    "b < 256 \<Longrightarrow> b64_second ((a mod 4) * 16 + b div 16) ((b mod 16) * 4) = b"
    "c < 256 \<Longrightarrow> b64_third ((b mod 16) * 4 + c div 64) (c mod 64) = c"
proof -
  show "b64_first (a div 4) ((a mod 4) * 16 + b div 16) = a" if "b < 256"
    unfolding b64_first_def quot_rem(1) [OF byte_parts(1) [OF that]] by (rule div_mult_mod_eq)
  show "b64_first (a div 4) ((a mod 4) * 16) = a"
    unfolding b64_first_def by simp
  show "b64_second ((a mod 4) * 16 + b div 16) ((b mod 16) * 4 + c div 64) = b" if "b < 256" "c < 256"
    unfolding b64_second_def quot_rem(2) [OF byte_parts(1) [OF that(1)]]
      quot_rem(1) [OF byte_parts(2) [OF that(2)]] by (rule div_mult_mod_eq)
  show "b64_second ((a mod 4) * 16 + b div 16) ((b mod 16) * 4) = b" if "b < 256"
    unfolding b64_second_def quot_rem(2) [OF byte_parts(1) [OF that]] by simp
  show "b64_third ((b mod 16) * 4 + c div 64) (c mod 64) = c" if "c < 256"
    unfolding b64_third_def quot_rem(2) [OF byte_parts(2) [OF that]] by (rule div_mult_mod_eq)
qed

lemma b64_decode_encode:
  "list_all (\<lambda>b. b < 256) bs \<Longrightarrow> b64_decode (b64_encode bs) = Some bs"
  unfolding b64_decode_def
  by (induction bs rule: b64_encode.induct)
     (simp_all add: b64_char_plain b64_digit_bounds b64_bytes)

end
