(* ===== verification/Digest.thy ===== *)
theory Digest
  imports GoLib
begin

text \<open>
  The two digests of the Go standard library that the program computes: \<^theory_text>\<open>crypto/md5\<close> for the
  hash of a ValidationResult and \<^theory_text>\<open>crypto/sha256\<close> for the hash of a plugin's Helm values (RFC 1321
  and FIPS 180-4), and their base64 text.  A 32-bit word is an \<open>int\<close> in the range below \<open>2 ^ 32\<close>,
  with the wrap-around written out by \<open>m32\<close>.
\<close>

unbundle bit_operations_syntax

type_synonym u32 = int

definition m32 :: "int \<Rightarrow> u32" where
  "m32 x = x mod 4294967296"

definition rotl32 :: "nat \<Rightarrow> u32 \<Rightarrow> u32" where
  "rotl32 n x = m32 (push_bit n x) OR drop_bit (32 - n) x"

definition rotr32 :: "nat \<Rightarrow> u32 \<Rightarrow> u32" where
  "rotr32 n x = drop_bit n x OR m32 (push_bit (32 - n) x)"

text \<open>The message, a one bit, zeros to 56 bytes modulo 64, and the bit length in eight bytes.\<close>

definition pad_zeros :: "nat \<Rightarrow> nat" where
  "pad_zeros len = (if len mod 64 < 56 then 55 - len mod 64 else 119 - len mod 64)"

definition le_bytes4 :: "int \<Rightarrow> nat list" where
  "le_bytes4 n = map nat [n mod 256, n div 256 mod 256, n div 65536 mod 256, n div 16777216 mod 256]"

definition le_bytes8 :: "int \<Rightarrow> nat list" where
  "le_bytes8 n = le_bytes4 n @ le_bytes4 (n div 4294967296)"

definition pad_message :: "bool \<Rightarrow> nat list \<Rightarrow> nat list" where
  "pad_message big bs =
     bs @ [128] @ replicate (pad_zeros (length bs)) 0
       @ (if big then rev (le_bytes8 (8 * int (length bs))) else le_bytes8 (8 * int (length bs)))"

fun words_of :: "bool \<Rightarrow> nat list \<Rightarrow> u32 list" where
  "words_of big (a # b # c # d # rest) =
     (if big then int a * 16777216 + int b * 65536 + int c * 256 + int d
      else int d * 16777216 + int c * 65536 + int b * 256 + int a) # words_of big rest"
| "words_of big _ = []"

fun blocks_of :: "u32 list \<Rightarrow> u32 list list" where
  "blocks_of [] = []"
| "blocks_of (w # ws) = take 16 (w # ws) # blocks_of (drop 15 ws)"

section \<open>MD5\<close>

text \<open>Round constants, shift amounts and message-word indices of the 64 steps.\<close>

definition md5_K :: "u32 list" where
  "md5_K = [
    3614090360, 3905402710, 606105819, 3250441966, 4118548399, 1200080426, 2821735955,
    4249261313, 1770035416, 2336552879, 4294925233, 2304563134, 1804603682, 4254626195,
    2792965006, 1236535329, 4129170786, 3225465664, 643717713, 3921069994, 3593408605,
    38016083, 3634488961, 3889429448, 568446438, 3275163606, 4107603335, 1163531501,
    2850285829, 4243563512, 1735328473, 2368359562, 4294588738, 2272392833, 1839030562,
    4259657740, 2763975236, 1272893353, 4139469664, 3200236656, 681279174, 3936430074,
    3572445317, 76029189, 3654602809, 3873151461, 530742520, 3299628645, 4096336452,
    1126891415, 2878612391, 4237533241, 1700485571, 2399980690, 4293915773, 2240044497,
    1873313359, 4264355552, 2734768916, 1309151649, 4149444226, 3174756917, 718787259,
    3951481745  ]"

definition md5_S :: "nat list" where
  "md5_S = [
    7, 12, 17, 22, 7, 12, 17, 22, 7, 12, 17, 22, 7, 12, 17, 22, 5, 9, 14, 20, 5, 9, 14, 20, 5,
    9, 14, 20, 5, 9, 14, 20, 4, 11, 16, 23, 4, 11, 16, 23, 4, 11, 16, 23, 4, 11, 16, 23, 6, 10,
    15, 21, 6, 10, 15, 21, 6, 10, 15, 21, 6, 10, 15, 21]"

definition md5_G :: "nat list" where
  "md5_G = [
    0, 1, 2, 3, 4, 5, 6, 7, 8, 9, 10, 11, 12, 13, 14, 15, 1, 6, 11, 0, 5, 10, 15, 4, 9, 14, 3,
    8, 13, 2, 7, 12, 5, 8, 11, 14, 1, 4, 7, 10, 13, 0, 3, 6, 9, 12, 15, 2, 0, 7, 14, 5, 12, 3,
    10, 1, 8, 15, 6, 13, 4, 11, 2, 9]"

fun md5_mix :: "nat \<Rightarrow> u32 \<Rightarrow> u32 \<Rightarrow> u32 \<Rightarrow> u32" where
  "md5_mix i b c d =
     (if i < 16 then (b AND c) OR (NOT b AND d)
      else if i < 32 then (d AND b) OR (NOT d AND c)
      else if i < 48 then b XOR c XOR d
      else c XOR (b OR NOT d))"

type_synonym md5_state = "u32 \<times> u32 \<times> u32 \<times> u32"

fun md5_step :: "u32 list \<Rightarrow> nat \<times> u32 \<times> nat \<times> nat \<Rightarrow> md5_state \<Rightarrow> md5_state" where
  "md5_step m (i, k, sh, g) (a, b, c, d) =
     (let f = m32 (md5_mix i b c d + a + k + m ! g)
      in (d, m32 (b + rotl32 sh f), b, c))"

definition md5_schedule :: "(nat \<times> u32 \<times> nat \<times> nat) list" where
  "md5_schedule = zip [0..<64] (zip md5_K (zip md5_S md5_G))"

fun md5_block :: "md5_state \<Rightarrow> u32 list \<Rightarrow> md5_state" where
  "md5_block (a, b, c, d) m =
     (case fold (md5_step m) md5_schedule (a, b, c, d) of
        (a', b', c', d') \<Rightarrow> (m32 (a + a'), m32 (b + b'), m32 (c + c'), m32 (d + d')))"

definition md5_sum :: "nat list \<Rightarrow> nat list" where
  "md5_sum bs =
     (case foldl md5_block (1732584193, 4023233417, 2562383102, 271733878)
             (blocks_of (words_of False (pad_message False bs))) of
        (a, b, c, d) \<Rightarrow> concat (map (\<lambda>w. le_bytes4 w) [a, b, c, d]))"

section \<open>SHA-256\<close>

definition sha256_K :: "u32 list" where
  "sha256_K = [
    1116352408, 1899447441, 3049323471, 3921009573, 961987163, 1508970993, 2453635748,
    2870763221, 3624381080, 310598401, 607225278, 1426881987, 1925078388, 2162078206,
    2614888103, 3248222580, 3835390401, 4022224774, 264347078, 604807628, 770255983,
    1249150122, 1555081692, 1996064986, 2554220882, 2821834349, 2952996808, 3210313671,
    3336571891, 3584528711, 113926993, 338241895, 666307205, 773529912, 1294757372, 1396182291,
    1695183700, 1986661051, 2177026350, 2456956037, 2730485921, 2820302411, 3259730800,
    3345764771, 3516065817, 3600352804, 4094571909, 275423344, 430227734, 506948616, 659060556,
    883997877, 958139571, 1322822218, 1537002063, 1747873779, 1955562222, 2024104815,
    2227730452, 2361852424, 2428436474, 2756734187, 3204031479, 3329325298]"

definition sha256_H :: "u32 \<times> u32 \<times> u32 \<times> u32 \<times> u32 \<times> u32 \<times> u32 \<times> u32" where
  "sha256_H = (1779033703, 3144134277, 1013904242, 2773480762, 1359893119, 2600822924, 528734635,
    1541459225)"

text \<open>The message schedule: the last sixteen words are the window.\<close>

definition sha256_next :: "u32 list \<Rightarrow> u32" where
  "sha256_next win =
     (let w15 = win ! 1; w2 = win ! 14;
          s0 = rotr32 7 w15 XOR rotr32 18 w15 XOR drop_bit 3 w15;
          s1 = rotr32 17 w2 XOR rotr32 19 w2 XOR drop_bit 10 w2
      in m32 (win ! 0 + s0 + win ! 9 + s1))"

definition sha256_schedule :: "u32 list \<Rightarrow> u32 list" where
  "sha256_schedule m =
     foldl (\<lambda>ws _. ws @ [sha256_next (drop (length ws - 16) ws)]) m (replicate 48 ())"

type_synonym sha_state = "u32 \<times> u32 \<times> u32 \<times> u32 \<times> u32 \<times> u32 \<times> u32 \<times> u32"

fun sha256_round :: "u32 \<times> u32 \<Rightarrow> sha_state \<Rightarrow> sha_state" where
  "sha256_round (k, w) (a, b, c, d, e, f, g, h) =
     (let S1 = rotr32 6 e XOR rotr32 11 e XOR rotr32 25 e;
          ch = (e AND f) XOR (NOT e AND g);
          t1 = m32 (h + S1 + ch + k + w);
          S0 = rotr32 2 a XOR rotr32 13 a XOR rotr32 22 a;
          maj = (a AND b) XOR (a AND c) XOR (b AND c)
      in (m32 (t1 + (S0 + maj)), a, b, c, m32 (d + t1), e, f, g))"

fun sha256_block :: "sha_state \<Rightarrow> u32 list \<Rightarrow> sha_state" where
  "sha256_block (a, b, c, d, e, f, g, h) m =
     (case fold sha256_round (zip sha256_K (sha256_schedule m)) (a, b, c, d, e, f, g, h) of
        (a', b', c', d', e', f', g', h') \<Rightarrow>
          (m32 (a + a'), m32 (b + b'), m32 (c + c'), m32 (d + d'),
           m32 (e + e'), m32 (f + f'), m32 (g + g'), m32 (h + h')))"

definition sha256_sum :: "nat list \<Rightarrow> nat list" where
  "sha256_sum bs =
     (case foldl sha256_block sha256_H (blocks_of (words_of True (pad_message True bs))) of
        (a, b, c, d, e, f, g, h) \<Rightarrow>
          concat (map (\<lambda>w. rev (le_bytes4 w)) [a, b, c, d, e, f, g, h]))"

section \<open>The digests as base64 text\<close>

definition md5_b64 :: "string \<Rightarrow> string" where
  "md5_b64 s = b64_encode (md5_sum (bytes_of s))"

definition sha256_b64 :: "string \<Rightarrow> string" where
  "sha256_b64 s = b64_encode (sha256_sum (bytes_of s))"

lemma b64_encode_Nil_iff: "b64_encode bs = [] \<longleftrightarrow> bs = []"
  by (induction bs rule: b64_encode.induct) auto

lemma md5_b64_nonempty: "md5_b64 s \<noteq> []"
  by (simp add: md5_b64_def b64_encode_Nil_iff md5_sum_def le_bytes4_def split: prod.split)

end
