(* ===== verification/Api_Types.thy ===== *)
theory Api_Types
  imports Digest
begin

text \<open>
  The API objects of \<^theory_text>\<open>api/v1alpha1\<close> (validationresult_types.go, validatorconfig_types.go,
  groupversion_info.go), the Kubernetes metadata they embed, and \<^theory_text>\<open>ValidationResult.Hash\<close>.
  Enumerations are Go string types and stay strings here; a pointer is an option; a nil map is
  \<open>None\<close>; slices are lists (the code never tells a nil slice from an empty one).  A time is the
  number of nanoseconds since the zero time.
\<close>

section \<open>Metadata\<close>

type_synonym gotime = int
type_synonym annotations = "(string \<rightharpoonup> string) option"

definition zero_time :: gotime where
  "zero_time = 0"

record owner_reference =
  or_APIVersion :: string
  or_Kind :: string
  or_Name :: string
  or_UID :: string
  or_Controller :: "bool option"

record object_meta =
  om_Name :: string
  om_Namespace :: string
  om_UID :: string
  om_Annotations :: annotations
  om_Finalizers :: "string list"
  om_DeletionTimestamp :: "gotime option"
  om_OwnerReferences :: "owner_reference list"

definition empty_meta :: object_meta where
  "empty_meta = \<lparr>om_Name = [], om_Namespace = [], om_UID = [], om_Annotations = None,
     om_Finalizers = [], om_DeletionTimestamp = None, om_OwnerReferences = []\<rparr>"

record type_meta =
  tm_APIVersion :: string
  tm_Kind :: string

text \<open>Reading a possibly nil map, and deleting from one.\<close>

definition amap_get :: "annotations \<Rightarrow> string \<Rightarrow> string option" where
  "amap_get m k = (case m of None \<Rightarrow> None | Some f \<Rightarrow> f k)"

definition amap_delete :: "annotations \<Rightarrow> string \<Rightarrow> annotations" where
  "amap_delete m k = map_option (\<lambda>f. f(k := None)) m"

section \<open>Condition status values of \<^theory_text>\<open>corev1.ConditionStatus\<close>\<close>

definition ConditionTrue :: string where "ConditionTrue = ''True''"
definition ConditionFalse :: string where "ConditionFalse = ''False''"

lemma condition_status_distinct [simp]:
  "ConditionTrue \<noteq> ConditionFalse" "ConditionFalse \<noteq> ConditionTrue"
  by (simp_all add: ConditionTrue_def ConditionFalse_def)

section \<open>ValidationResult\<close>

record validation_result_spec =
  vrs_Plugin :: string
  vrs_ExpectedResults :: int

definition ValidationFailed :: string where "ValidationFailed = ''Failed''"
definition ValidationInProgress :: string where "ValidationInProgress = ''InProgress''"
definition ValidationSucceeded :: string where "ValidationSucceeded = ''Succeeded''"

lemma validation_state_distinct [simp]:
  "ValidationFailed \<noteq> ValidationInProgress" "ValidationInProgress \<noteq> ValidationFailed"
  "ValidationFailed \<noteq> ValidationSucceeded" "ValidationSucceeded \<noteq> ValidationFailed"
  "ValidationInProgress \<noteq> ValidationSucceeded" "ValidationSucceeded \<noteq> ValidationInProgress"
  by (simp_all add: ValidationFailed_def ValidationInProgress_def ValidationSucceeded_def)

definition SinkEmission :: string where "SinkEmission = ''SinkEmission''"
definition SinkEmitNA :: string where "SinkEmitNA = ''SinkEmitNA''"
definition SinkEmitFailed :: string where "SinkEmitFailed = ''SinkEmitFailed''"
definition SinkEmitSucceeded :: string where "SinkEmitSucceeded = ''SinkEmitSucceeded''"

lemma sink_emit_distinct [simp]:
  "SinkEmitNA \<noteq> SinkEmitFailed" "SinkEmitFailed \<noteq> SinkEmitNA"
  "SinkEmitNA \<noteq> SinkEmitSucceeded" "SinkEmitSucceeded \<noteq> SinkEmitNA"
  "SinkEmitFailed \<noteq> SinkEmitSucceeded" "SinkEmitSucceeded \<noteq> SinkEmitFailed"
  by (simp_all add: SinkEmitNA_def SinkEmitFailed_def SinkEmitSucceeded_def)

record validation_condition =
  c_ValidationType :: string
  c_ValidationRule :: string
  c_Message :: string
  c_Details :: "string list"
  c_Failures :: "string list"
  c_Status :: string
  c_LastValidationTime :: gotime

text \<open>The zero value of the struct, and \<^theory_text>\<open>DefaultValidationCondition\<close> (the clock is an argument).\<close>

definition zero_condition :: validation_condition where
  "zero_condition = \<lparr>c_ValidationType = [], c_ValidationRule = [], c_Message = [], c_Details = [],
     c_Failures = [], c_Status = [], c_LastValidationTime = zero_time\<rparr>"

definition DefaultValidationCondition :: "gotime \<Rightarrow> validation_condition" where
  "DefaultValidationCondition now =
     zero_condition\<lparr>c_Details := [], c_Status := ConditionTrue, c_LastValidationTime := now\<rparr>"

text \<open>\<^theory_text>\<open>clusterv1beta1.Condition\<close>, of which the controller keeps the SinkEmission entry.\<close>

record cluster_condition =
  cc_Type :: string
  cc_Status :: string
  cc_Severity :: string
  cc_LastTransitionTime :: gotime
  cc_Reason :: string
  cc_Message :: string

definition zero_cluster_condition :: cluster_condition where
  "zero_cluster_condition = \<lparr>cc_Type = [], cc_Status = [], cc_Severity = [],
     cc_LastTransitionTime = zero_time, cc_Reason = [], cc_Message = []\<rparr>"

record validation_result_status =
  st_State :: string
  st_Conditions :: "cluster_condition list"
  st_ValidationConditions :: "validation_condition list"

record validation_result =
  vr_TypeMeta :: type_meta
  vr_ObjectMeta :: object_meta
  vr_Spec :: validation_result_spec
  vr_Status :: validation_result_status

text \<open>Short names for the fields the controllers read and write.\<close>

abbreviation vr_conds :: "validation_result \<Rightarrow> validation_condition list" where
  "vr_conds vr \<equiv> st_ValidationConditions (vr_Status vr)"

abbreviation vr_state :: "validation_result \<Rightarrow> string" where
  "vr_state vr \<equiv> st_State (vr_Status vr)"

definition vr_set_conds :: "validation_condition list \<Rightarrow> validation_result \<Rightarrow> validation_result" where
  "vr_set_conds cs vr = vr\<lparr>vr_Status := (vr_Status vr)\<lparr>st_ValidationConditions := cs\<rparr>\<rparr>"

definition vr_set_state :: "string \<Rightarrow> validation_result \<Rightarrow> validation_result" where
  "vr_set_state s vr = vr\<lparr>vr_Status := (vr_Status vr)\<lparr>st_State := s\<rparr>\<rparr>"

definition vr_set_conditions :: "cluster_condition list \<Rightarrow> validation_result \<Rightarrow> validation_result" where
  "vr_set_conditions cs vr = vr\<lparr>vr_Status := (vr_Status vr)\<lparr>st_Conditions := cs\<rparr>\<rparr>"

definition vr_set_annotations :: "annotations \<Rightarrow> validation_result \<Rightarrow> validation_result" where
  "vr_set_annotations m vr = vr\<lparr>vr_ObjectMeta := (vr_ObjectMeta vr)\<lparr>om_Annotations := m\<rparr>\<rparr>"

section \<open>Hash\<close>

text \<open>
  What \<^theory_text>\<open>fmt.Fprint\<close> writes for a string slice, for the spec struct, and for a pointer to a
  condition whose time has been reset to the zero time.
\<close>

definition fmt_strings :: "string list \<Rightarrow> string" where
  "fmt_strings ss = ''['' @ join ss '' '' @ '']''"

definition fmt_spec :: "validation_result_spec \<Rightarrow> string" where
  "fmt_spec sp = ''{'' @ vrs_Plugin sp @ '' '' @ itoa (vrs_ExpectedResults sp) @ ''}''"

definition zero_time_text :: string where
  "zero_time_text = ''0001-01-01 00:00:00 +0000 UTC''"

definition fmt_condition :: "validation_condition \<Rightarrow> string" where
  "fmt_condition c =
     ''&{'' @ c_ValidationType c @ '' '' @ c_ValidationRule c @ '' '' @ c_Message c @ '' '' @
     fmt_strings (c_Details c) @ '' '' @ fmt_strings (c_Failures c) @ '' '' @ c_Status c @ '' '' @
     zero_time_text @ ''}''"

definition hash_input :: "validation_result \<Rightarrow> string" where
  "hash_input vr =
     om_UID (vr_ObjectMeta vr) @ fmt_spec (vr_Spec vr) @ vr_state vr @
     concat (map fmt_condition (vr_conds vr))"

definition vr_Hash :: "validation_result \<Rightarrow> string" where
  "vr_Hash vr = md5_b64 (hash_input vr)"

text \<open>The part of a ValidationResult that the hash reads, with the times left out.\<close>

definition untimed :: "validation_condition \<Rightarrow> validation_condition" where
  "untimed c = c\<lparr>c_LastValidationTime := zero_time\<rparr>"

definition hash_view where
  "hash_view vr = (om_UID (vr_ObjectMeta vr), vr_Spec vr, vr_state vr, map untimed (vr_conds vr))"

lemma fmt_condition_untimed: "fmt_condition (untimed c) = fmt_condition c"
  by (simp add: fmt_condition_def untimed_def)

lemma map_fmt_untimed: "map fmt_condition cs = map fmt_condition (map untimed cs)"
  by (simp add: comp_def fmt_condition_untimed)

lemma hash_view_cong: "hash_view a = hash_view b \<Longrightarrow> vr_Hash a = vr_Hash b"
  unfolding vr_Hash_def hash_input_def hash_view_def
  by (metis map_fmt_untimed prod.inject)

lemma vr_set_simps [simp]:
  "vr_Spec (vr_set_annotations m vr) = vr_Spec vr"
  "vr_Spec (vr_set_conditions cs vr) = vr_Spec vr"
  "vr_Spec (vr_set_conds vs vr) = vr_Spec vr"
  "vr_Spec (vr_set_state x vr) = vr_Spec vr"
  "vr_Status (vr_set_annotations m vr) = vr_Status vr"
  "vr_Status (vr_set_conditions cs vr) = (vr_Status vr)\<lparr>st_Conditions := cs\<rparr>"
  "vr_Status (vr_set_conds vs vr) = (vr_Status vr)\<lparr>st_ValidationConditions := vs\<rparr>"
  "vr_Status (vr_set_state x vr) = (vr_Status vr)\<lparr>st_State := x\<rparr>"
  "vr_ObjectMeta (vr_set_annotations m vr) = (vr_ObjectMeta vr)\<lparr>om_Annotations := m\<rparr>"
  "vr_ObjectMeta (vr_set_conditions cs vr) = vr_ObjectMeta vr"
  "vr_ObjectMeta (vr_set_conds vs vr) = vr_ObjectMeta vr"
  "vr_ObjectMeta (vr_set_state x vr) = vr_ObjectMeta vr"
  "vr_TypeMeta (vr_set_annotations m vr) = vr_TypeMeta vr"
  "vr_TypeMeta (vr_set_conditions cs vr) = vr_TypeMeta vr"
  "vr_TypeMeta (vr_set_conds vs vr) = vr_TypeMeta vr"
  "vr_TypeMeta (vr_set_state x vr) = vr_TypeMeta vr"
  by (simp_all add: vr_set_annotations_def vr_set_conditions_def vr_set_conds_def vr_set_state_def)

lemma hash_view_set_annotations [simp]: "hash_view (vr_set_annotations m vr) = hash_view vr"
  by (simp add: hash_view_def)

lemma hash_view_set_conditions [simp]: "hash_view (vr_set_conditions cs vr) = hash_view vr"
  by (simp add: hash_view_def)

text \<open>
  The hash does not see what the ValidationResult controller itself writes (the annotations and
  the SinkEmission condition), nor the validation times; it is a function of the rest.
\<close>

lemma hash_ignores_controller_writes:
  "vr_Hash (vr_set_annotations m (vr_set_conditions cs vr)) = vr_Hash vr \<and>
   vr_Hash (vr_set_conds (map (\<lambda>c. c\<lparr>c_LastValidationTime := t\<rparr>) (vr_conds vr)) vr) = vr_Hash vr"
  by (auto intro!: hash_view_cong simp: hash_view_def untimed_def)

text \<open>The object of the repository's own hash test.\<close>

definition hash_test_result :: validation_result where
  "hash_test_result =
     \<lparr>vr_TypeMeta = \<lparr>tm_APIVersion = [], tm_Kind = []\<rparr>,
      vr_ObjectMeta = empty_meta\<lparr>om_UID := ''1''\<rparr>,
      vr_Spec = \<lparr>vrs_Plugin = ''AWS'', vrs_ExpectedResults = 1\<rparr>,
      vr_Status = \<lparr>st_State = ValidationSucceeded, st_Conditions = [],
        st_ValidationConditions = [\<lparr>c_ValidationType = ''foo'', c_ValidationRule = ''bar'',
          c_Message = ''baz'', c_Details = [''detail''], c_Failures = [''failure''],
          c_Status = ConditionTrue, c_LastValidationTime = 7\<rparr>]\<rparr>\<rparr>"

text \<open>
  The model computes, in the kernel, the hash that the repository's test
  (\<^theory_text>\<open>api/v1alpha1/validationresult_test.go\<close>) expects of its object.
\<close>

lemma hash_test_vector: "vr_Hash hash_test_result = ''Jp+QKNlngLsgv2kTlKhR3w==''"
  by code_simp

text \<open>
  The hash is not injective on what it is meant to detect: the written fields are not
  delimited, so splitting one detail message into two leaves the hash unchanged.
\<close>

lemma hash_misses_split_details:
  "hash_view (vr_set_conds [c\<lparr>c_Details := [a @ '' '' @ b]\<rparr>] vr) \<noteq>
     hash_view (vr_set_conds [c\<lparr>c_Details := [a, b]\<rparr>] vr) \<and>
   vr_Hash (vr_set_conds [c\<lparr>c_Details := [a @ '' '' @ b]\<rparr>] vr) =
     vr_Hash (vr_set_conds [c\<lparr>c_Details := [a, b]\<rparr>] vr)"
proof -
  have "untimed (c\<lparr>c_Details := [a @ '' '' @ b]\<rparr>) \<noteq> untimed (c\<lparr>c_Details := [a, b]\<rparr>)"
    by (auto simp: untimed_def dest: arg_cong [where f = c_Details])
  then show ?thesis
    by (simp add: hash_view_def vr_Hash_def hash_input_def fmt_condition_def fmt_strings_def)
qed

section \<open>ValidatorConfig\<close>

record helm_chart =
  hc_Name :: string
  hc_Repository :: string
  hc_Version :: string

record plugin_release =
  pr_Chart :: helm_chart
  pr_Values :: string

record helm_config =
  hcfg_Registry :: string
  hcfg_CAFile :: string
  hcfg_InsecureSkipTLSVerify :: bool
  hcfg_AuthSecretName :: string

record sink_config =
  sk_Type :: string
  sk_SecretName :: string

record validator_config_spec =
  vcs_HelmConfig :: helm_config
  vcs_Plugins :: "plugin_release list"
  vcs_Sink :: "sink_config option"

definition HelmChartDeployedCondition :: string where
  "HelmChartDeployedCondition = ''HelmChartDeployed''"

record plugin_condition =
  pc_Type :: string
  pc_PluginName :: string
  pc_Status :: string
  pc_Message :: string
  pc_LastTransitionTime :: gotime

definition zero_plugin_condition :: plugin_condition where
  "zero_plugin_condition = \<lparr>pc_Type = [], pc_PluginName = [], pc_Status = [], pc_Message = [],
     pc_LastTransitionTime = zero_time\<rparr>"

record validator_config =
  vc_ObjectMeta :: object_meta
  vc_Spec :: validator_config_spec
  vc_Conditions :: "plugin_condition list"

definition vc_set_annotations :: "annotations \<Rightarrow> validator_config \<Rightarrow> validator_config" where
  "vc_set_annotations m vc = vc\<lparr>vc_ObjectMeta := (vc_ObjectMeta vc)\<lparr>om_Annotations := m\<rparr>\<rparr>"

definition vc_set_finalizers :: "string list \<Rightarrow> validator_config \<Rightarrow> validator_config" where
  "vc_set_finalizers fs vc = vc\<lparr>vc_ObjectMeta := (vc_ObjectMeta vc)\<lparr>om_Finalizers := fs\<rparr>\<rparr>"

lemma vc_set_simps [simp]:
  "vc_Spec (vc_set_annotations m vc) = vc_Spec vc"
  "vc_Spec (vc_set_finalizers fs vc) = vc_Spec vc"
  "vc_Conditions (vc_set_annotations m vc) = vc_Conditions vc"
  "vc_Conditions (vc_set_finalizers fs vc) = vc_Conditions vc"
  "vc_ObjectMeta (vc_set_annotations m vc) = (vc_ObjectMeta vc)\<lparr>om_Annotations := m\<rparr>"
  "vc_ObjectMeta (vc_set_finalizers fs vc) = (vc_ObjectMeta vc)\<lparr>om_Finalizers := fs\<rparr>"
  by (simp_all add: vc_set_annotations_def vc_set_finalizers_def)

section \<open>Kubernetes secrets\<close>

record secret =
  sec_Name :: string
  sec_Labels :: annotations
  sec_Data :: "string \<rightharpoonup> string"

end
