(* ===== verification/Util.thy ===== *)
theory Util
  imports GoLib
begin

text \<open>
  Package \<^theory_text>\<open>pkg/util\<close>: \<open>sanitize\<close> (strings.go, \<^theory_text>\<open>Sanitize\<close>) and \<open>dedupe_str_slice\<close> (strings.go,
  \<^theory_text>\<open>DeDupeStrSlice\<close>).  \<^theory_text>\<open>Ptr\<close> is the constructor \<open>Some\<close> of the option type that models a pointer.
  The Unicode tables beyond ASCII (lower-case mapping, white space) are the argument
  \<open>unicode_tables\<close>; every lemma below holds for any tables.  The lemmas give the reference
  meaning of \<open>sanitize\<close> (the maximal alphanumeric runs joined by dashes), its output format,
  and that \<open>dedupe_str_slice\<close> keeps the first occurrence of each string.
\<close>

section \<open>Sanitize\<close>

record unicode_tables =
  ut_lower :: "rune \<Rightarrow> rune"
  ut_space :: "rune \<Rightarrow> bool"

definition unicode_ToLower :: "unicode_tables \<Rightarrow> rune \<Rightarrow> rune" where
  "unicode_ToLower ut r =
     (if r < 128 then (if 65 \<le> r \<and> r \<le> 90 then r + 32 else r) else ut_lower ut r)"

definition unicode_IsSpace :: "unicode_tables \<Rightarrow> rune \<Rightarrow> bool" where
  "unicode_IsSpace ut r =
     (if r < 128 then (9 \<le> r \<and> r \<le> 13) \<or> r = 32 else ut_space ut r)"

definition alnum :: "rune \<Rightarrow> bool" where
  "alnum r \<longleftrightarrow> (97 \<le> r \<and> r \<le> 122) \<or> (48 \<le> r \<and> r \<le> 57)"

text \<open>The function given to \<^theory_text>\<open>strings.Map\<close>.\<close>

definition sanitize_rune :: "rune \<Rightarrow> rune" where
  "sanitize_rune r = (if alnum r then r else 45)"

text \<open>The loop that removes consecutive dashes; the first argument is \<^theory_text>\<open>prevDash\<close>.\<close>

fun collapse_dashes :: "bool \<Rightarrow> rune list \<Rightarrow> rune list" where
  "collapse_dashes prevDash [] = []"
| "collapse_dashes prevDash (r # rs) =
     (if r = 45 then
        (if \<not> prevDash then r # collapse_dashes True rs else collapse_dashes prevDash rs)
      else r # collapse_dashes False rs)"

definition sanitize_runes :: "rune list \<Rightarrow> rune list" where
  "sanitize_runes rs =
     trim_both (\<lambda>r. r = 45) (collapse_dashes False (map sanitize_rune rs))"

definition sanitize :: "unicode_tables \<Rightarrow> string \<Rightarrow> string" where
  "sanitize ut s =
     (let lowered = map (unicode_ToLower ut) (runes_of s);
          trimmed = trim_both (unicode_IsSpace ut) lowered
      in string_of_bytes (sanitize_runes trimmed))"

section \<open>The meaning of Sanitize: alphanumeric runs joined by dashes\<close>

fun alnum_runs :: "rune list \<Rightarrow> rune list \<Rightarrow> rune list list" where
  "alnum_runs cur [] = (if cur = [] then [] else [cur])"
| "alnum_runs cur (r # rs) =
     (if alnum r then alnum_runs (cur @ [r]) rs
      else (if cur = [] then [] else [cur]) @ alnum_runs [] rs)"

fun dash_join :: "rune list list \<Rightarrow> rune list" where
  "dash_join [] = []"
| "dash_join [w] = w"
| "dash_join (w # v # ws) = w @ [45] @ dash_join (v # ws)"

lemma alnum_not_dash: "alnum r \<Longrightarrow> r \<noteq> 45"
  by (auto simp: alnum_def)

lemma sanitize_rune_alnum [simp]: "alnum r \<Longrightarrow> sanitize_rune r = r"
  by (simp add: sanitize_rune_def)

lemma sanitize_rune_other [simp]: "\<not> alnum r \<Longrightarrow> sanitize_rune r = 45"
  by (simp add: sanitize_rune_def)

definition rtrim_dash :: "rune list \<Rightarrow> rune list" where
  "rtrim_dash xs = rev (dropWhile (\<lambda>r. r = 45) (rev xs))"

lemma rtrim_append:
  "rtrim_dash (xs @ ys) = (if rtrim_dash ys = [] then rtrim_dash xs else xs @ rtrim_dash ys)"
  by (induction ys rule: rev_induct) (auto simp: rtrim_dash_def)

lemma rtrim_dash_last: "xs \<noteq> [] \<Longrightarrow> last xs \<noteq> 45 \<Longrightarrow> rtrim_dash xs = xs"
  by (cases xs rule: rev_cases) (auto simp: rtrim_dash_def)

lemma dropWhile_collapse:
  "dropWhile (\<lambda>r. r = 45) (collapse_dashes b rs) = collapse_dashes True rs"
  by (induction rs arbitrary: b) auto

lemma runs_nonempty: "w \<in> set (alnum_runs cur rs) \<Longrightarrow> w \<noteq> []"
  by (induction cur rs rule: alnum_runs.induct) (auto split: if_splits)

lemma dash_join_Cons: "dash_join (w # ws) = (if ws = [] then w else w @ [45] @ dash_join ws)"
  by (cases ws) auto

lemma dash_join_eq_Nil: "[] \<notin> set ws \<Longrightarrow> dash_join ws = [] \<longleftrightarrow> ws = []"
  by (induction ws rule: dash_join.induct) auto

lemma rtrim_collapse:
  shows "rtrim_dash (collapse_dashes True (map sanitize_rune rs)) = dash_join (alnum_runs [] rs)"
    and "w \<noteq> [] \<Longrightarrow> list_all alnum w \<Longrightarrow>
      rtrim_dash (w @ collapse_dashes False (map sanitize_rune rs)) = dash_join (alnum_runs w rs)"
proof (induction rs arbitrary: w)
  case Nil
  {
    case 1
    show ?case by (simp add: rtrim_dash_def)
  next
    case 2
    then have "last w \<noteq> 45" by (metis alnum_not_dash last_in_set list_all_iff)
    with 2 show ?case by (simp add: rtrim_dash_last)
  }
next
  case (Cons r rs)
  {
    case 1
    show ?case using Cons.IH(1) Cons.IH(2) [of "[r]"]
      by (cases "alnum r") (simp_all add: alnum_not_dash)
  next
    case 2
    show ?case
    proof (cases "alnum r")
      case True
      then show ?thesis using 2 Cons.IH(2) [of "w @ [r]"]
        by (simp add: alnum_not_dash)
    next
      case False
      let ?c = "collapse_dashes True (map sanitize_rune rs)"
      from 2 have "last w \<noteq> 45" by (metis alnum_not_dash last_in_set list_all_iff)
      then have w: "rtrim_dash w = w" "rtrim_dash (w @ [45]) = w"
        using 2 by (simp_all add: rtrim_dash_last rtrim_append) (simp add: rtrim_dash_def)
      have "rtrim_dash ((w @ [45]) @ ?c) =
          (if rtrim_dash ?c = [] then w else (w @ [45]) @ rtrim_dash ?c)"
        by (simp only: rtrim_append [of "w @ [45]" ?c] w)
      moreover have "rtrim_dash ?c = [] \<longleftrightarrow> alnum_runs [] rs = []"
        using Cons.IH(1) dash_join_eq_Nil [of "alnum_runs [] rs"] runs_nonempty [of "[]" "[]" rs]
        by auto
      ultimately show ?thesis using False 2 Cons.IH(1)
        by (simp add: dash_join_Cons)
    qed
  }
qed

lemma sanitize_runes_eq: "sanitize_runes rs = dash_join (alnum_runs [] rs)"
proof -
  have "sanitize_runes rs = rtrim_dash (collapse_dashes True (map sanitize_rune rs))"
    by (simp add: sanitize_runes_def trim_both_def rtrim_dash_def dropWhile_collapse)
  then show ?thesis by (simp only: rtrim_collapse(1))
qed

text \<open>Runes that are not alphanumeric at either end do not matter.\<close>

lemma alnum_runs_drop: "list_all (\<lambda>r. \<not> alnum r) pre \<Longrightarrow> alnum_runs [] (pre @ rs) = alnum_runs [] rs"
  by (induction pre) auto

lemma alnum_runs_snoc: "list_all (\<lambda>r. \<not> alnum r) post \<Longrightarrow> alnum_runs cur (rs @ post) = alnum_runs cur rs"
proof (induction cur rs rule: alnum_runs.induct)
  case (1 cur)
  then show ?case using alnum_runs_drop [of post "[]"]
    by (cases post) (auto simp: alnum_runs_drop)
qed auto

lemma alnum_runs_trim:
  assumes "\<And>r. P r \<Longrightarrow> \<not> alnum r"
  shows "alnum_runs [] (trim_both P rs) = alnum_runs [] rs"
proof -
  let ?d = "dropWhile P rs"
  have "rs = takeWhile P rs @ ?d" by simp
  moreover have "list_all (\<lambda>r. \<not> alnum r) (takeWhile P rs)"
    using assms by (auto simp: list_all_iff dest: set_takeWhileD)
  ultimately have d: "alnum_runs [] rs = alnum_runs [] ?d" by (metis alnum_runs_drop)
  have "?d = rev (takeWhile P (rev ?d) @ dropWhile P (rev ?d))" by simp
  then have "?d = trim_both P rs @ rev (takeWhile P (rev ?d))"
    by (simp only: trim_both_def rev_append)
  moreover have "list_all (\<lambda>r. \<not> alnum r) (rev (takeWhile P (rev ?d)))"
    using assms by (auto simp: list_all_iff dest: set_takeWhileD)
  ultimately have "alnum_runs [] ?d = alnum_runs [] (trim_both P rs)"
    by (metis alnum_runs_snoc)
  with d show ?thesis by simp
qed

section \<open>The format of the result\<close>

fun no_double_dash :: "rune list \<Rightarrow> bool" where
  "no_double_dash (x # y # zs) = (\<not> (x = 45 \<and> y = 45) \<and> no_double_dash (y # zs))"
| "no_double_dash _ = True"

definition slug_runes :: "rune list \<Rightarrow> bool" where
  "slug_runes rs \<longleftrightarrow> list_all (\<lambda>r. alnum r \<or> r = 45) rs \<and> no_double_dash rs \<and>
     (rs = [] \<or> (hd rs \<noteq> 45 \<and> last rs \<noteq> 45))"

text \<open>
  A slug: lower-case letters, digits and single dashes, no dash at either end.  A non-empty slug
  is a DNS label up to its length, which Sanitize does not bound.
\<close>

definition slug :: "string \<Rightarrow> bool" where
  "slug s \<longleftrightarrow> slug_runes (bytes_of s)"

lemma no_double_dash_Cons:
  "no_double_dash (x # xs) \<longleftrightarrow> no_double_dash xs \<and> (x = 45 \<longrightarrow> xs = [] \<or> hd xs \<noteq> 45)"
  by (cases xs) auto

lemma collapse_format:
  "no_double_dash (collapse_dashes b (map sanitize_rune rs))"
  "b \<Longrightarrow> collapse_dashes b (map sanitize_rune rs) = [] \<or>
     hd (collapse_dashes b (map sanitize_rune rs)) \<noteq> 45"
proof (induction rs arbitrary: b)
  case (Cons r rs)
  {
    case 1
    show ?case using Cons.IH [of True] Cons.IH(1) [of False]
      by (cases "alnum r") (auto simp: no_double_dash_Cons alnum_not_dash)
  next
    case 2
    then show ?case using Cons.IH(2) [of True] by (cases "alnum r") (auto simp: alnum_not_dash)
  }
qed simp_all

lemma no_double_dash_dropWhile: "no_double_dash xs \<Longrightarrow> no_double_dash (dropWhile P xs)"
  by (induction xs rule: no_double_dash.induct) auto

lemma no_double_dash_rev: "no_double_dash xs \<Longrightarrow> no_double_dash (rev xs)"
proof (induction xs rule: no_double_dash.induct)
  case (1 x y zs)
  have "no_double_dash (us @ [y]) \<Longrightarrow> \<not> (x = 45 \<and> y = 45) \<Longrightarrow> no_double_dash (us @ [y, x])"
    for us by (induction us rule: no_double_dash.induct) auto
  with 1 show ?case by simp
qed auto

lemma no_double_dash_trim: "no_double_dash xs \<Longrightarrow> no_double_dash (trim_both P xs)"
  by (simp add: trim_both_def no_double_dash_rev no_double_dash_dropWhile)

lemma set_collapse: "set (collapse_dashes b rs) \<subseteq> set rs"
  by (induction b rs rule: collapse_dashes.induct) auto

lemma slug_runes_sanitize: "slug_runes (sanitize_runes rs)"
proof -
  let ?c = "collapse_dashes False (map sanitize_rune rs)"
  have "set (sanitize_runes rs) \<subseteq> sanitize_rune ` set rs"
    using set_trim_both [of "\<lambda>r. r = 45" ?c] set_collapse [of False "map sanitize_rune rs"]
    by (auto simp: sanitize_runes_def)
  then have "list_all (\<lambda>r. alnum r \<or> r = 45) (sanitize_runes rs)"
    by (force simp: list_all_iff sanitize_rune_def split: if_splits)
  moreover have "no_double_dash (sanitize_runes rs)"
    by (simp add: sanitize_runes_def no_double_dash_trim collapse_format)
  moreover have "sanitize_runes rs = [] \<or> (hd (sanitize_runes rs) \<noteq> 45 \<and> last (sanitize_runes rs) \<noteq> 45)"
    using trim_both_ends [of "\<lambda>r. r = 45" ?c] by (auto simp: sanitize_runes_def)
  ultimately show ?thesis by (simp add: slug_runes_def)
qed

lemma slug_bytes_ascii: "slug_runes rs \<Longrightarrow> list_all (\<lambda>b. b < 128) rs"
  by (force simp: slug_runes_def list_all_iff alnum_def)

lemma collapse_id:
  "no_double_dash xs \<Longrightarrow> (b \<Longrightarrow> xs = [] \<or> hd xs \<noteq> 45) \<Longrightarrow> collapse_dashes b xs = xs"
proof (induction xs arbitrary: b)
  case (Cons x xs)
  then have "no_double_dash xs" by (cases xs) auto
  moreover have "x = 45 \<Longrightarrow> xs = [] \<or> hd xs \<noteq> 45" using Cons.prems(1) by (cases xs) auto
  ultimately show ?case using Cons by auto
qed simp

lemma sanitize_runes_id: "slug_runes rs \<Longrightarrow> sanitize_runes rs = rs"
proof -
  assume s: "slug_runes rs"
  then have "map sanitize_rune rs = rs"
    by (intro map_idI) (auto simp: slug_runes_def list_all_iff sanitize_rune_def)
  moreover have "collapse_dashes False rs = rs" using s by (simp add: collapse_id slug_runes_def)
  moreover have "trim_both (\<lambda>r. r = 45) rs = rs"
    using s by (intro trim_both_id) (auto simp: slug_runes_def)
  ultimately show ?thesis by (simp add: sanitize_runes_def)
qed

lemma bytes_string_of: "list_all (\<lambda>b. b < 128) bs \<Longrightarrow> bytes_of (string_of_bytes bs) = bs"
  by (induction bs) (simp_all add: bytes_of_def string_of_bytes_def)

lemma space_not_alnum: "r < 128 \<Longrightarrow> unicode_IsSpace ut r \<Longrightarrow> \<not> alnum r"
  by (auto simp: unicode_IsSpace_def alnum_def)

lemma space_not_alnum_all: "unicode_IsSpace ut r \<Longrightarrow> \<not> alnum r"
  by (cases "r < 128") (auto simp: unicode_IsSpace_def alnum_def)

lemma sanitize_eq_runes:
  "sanitize ut s = string_of_bytes (sanitize_runes (map (unicode_ToLower ut) (runes_of s)))"
  by (simp add: sanitize_def Let_def sanitize_runes_eq alnum_runs_trim space_not_alnum_all)

lemma bytes_of_sanitize:
  "bytes_of (sanitize ut s) = sanitize_runes (map (unicode_ToLower ut) (runes_of s))"
  by (simp add: sanitize_eq_runes bytes_string_of slug_bytes_ascii slug_runes_sanitize)

lemma slug_sanitize: "slug (sanitize ut s)"
  by (simp add: slug_def bytes_of_sanitize slug_runes_sanitize)

lemma sanitize_slug:
  assumes "slug s" shows "sanitize ut s = s"
proof -
  from assms have s: "slug_runes (bytes_of s)" by (simp add: slug_def)
  then have "runes_of s = bytes_of s"
    by (simp add: runes_of_def utf8_runes_ascii slug_bytes_ascii)
  moreover have "map (unicode_ToLower ut) (bytes_of s) = bytes_of s"
    using s by (intro map_idI) (auto simp: slug_runes_def list_all_iff unicode_ToLower_def alnum_def)
  ultimately show ?thesis using s by (simp add: sanitize_eq_runes sanitize_runes_id)
qed

text \<open>C39: Sanitize computes the maximal runs of letters and digits of the lower-cased string,
  joined by single dashes.\<close>

theorem sanitize_runs:
  "sanitize ut s =
     string_of_bytes (dash_join (alnum_runs [] (map (unicode_ToLower ut) (runes_of s))))"
  by (simp add: sanitize_eq_runes sanitize_runes_eq)

text \<open>C40: the output of Sanitize is a slug, and the fixed points of Sanitize are exactly the
  slugs; so Sanitize is idempotent.\<close>

theorem sanitize_fixpoints:
  "slug (sanitize ut s) \<and> (sanitize ut t = t \<longleftrightarrow> slug t) \<and>
   sanitize ut (sanitize ut s) = sanitize ut s"
  using slug_sanitize sanitize_slug by metis

section \<open>DeDupeStrSlice\<close>

text \<open>The loop, with the \<^theory_text>\<open>found\<close> map and the output slice \<^theory_text>\<open>l\<close>.\<close>

fun dedupe_loop :: "(string \<rightharpoonup> bool) \<Rightarrow> string list \<Rightarrow> string list \<Rightarrow> string list" where
  "dedupe_loop found l [] = l"
| "dedupe_loop found l (s # ss) =
     (if found s = None then dedupe_loop (found(s \<mapsto> True)) (l @ [s]) ss
      else dedupe_loop found l ss)"

definition dedupe_str_slice :: "string list \<Rightarrow> string list" where
  "dedupe_str_slice ss = dedupe_loop Map.empty [] ss"

lemma dedupe_loop_acc:
  "dedupe_loop found l ss = l @ rev (remdups (rev (filter (\<lambda>s. found s = None) ss)))"
proof (induction found l ss rule: dedupe_loop.induct)
  case (2 found l s ss)
  have *: "rev (remdups (rev xs @ [s])) = s # rev (remdups (rev (filter (\<lambda>t. t \<noteq> s) xs)))" for xs
    by (induction xs rule: rev_induct) auto
  have "filter (\<lambda>t. (found(s \<mapsto> True)) t = None) ss =
      filter (\<lambda>t. t \<noteq> s) (filter (\<lambda>t. found t = None) ss)"
    by (induction ss) auto
  then have "found s = None \<Longrightarrow> ?case"
    using 2(1) by (simp add: * del: fun_upd_apply)
  moreover have "found s \<noteq> None \<Longrightarrow> ?case" using 2(2) by auto
  ultimately show ?case by blast
qed simp

text \<open>
  DeDupeStrSlice keeps exactly the first occurrence of each string, in order.\<close>

lemma dedupe_first_occurrences: "dedupe_str_slice ss = rev (remdups (rev ss))"
  by (simp add: dedupe_str_slice_def dedupe_loop_acc)

end
