(* ===== verification/Rule_Result.thy ===== *)
theory Rule_Result
  imports Api_Types Util
begin

text \<open>
  \<^theory_text>\<open>pkg/types\<close> (ValidationRuleResult, its \<^theory_text>\<open>Finalize\<close>, ValidationResponse and \<^theory_text>\<open>AddResult\<close>),
  \<^theory_text>\<open>pkg/validationruleresult\<close> (\<^theory_text>\<open>BuildDefault\<close>), \<^theory_text>\<open>pkg/constants\<close> and \<^theory_text>\<open>pkg/validationrule\<close>.
  The pointers of a rule result are options; the pointers in one response are taken to be
  distinct, as they are when each rule builds its own result with \<^theory_text>\<open>BuildDefault\<close>.
\<close>

section \<open>Constants\<close>

definition ValidationRulePrefix :: string where
  "ValidationRulePrefix = ''validation''"

definition ValidatorConfigName :: string where
  "ValidatorConfigName = ''validator-config''"

definition ReconciliationFrequencyAnnotation :: string where
  "ReconciliationFrequencyAnnotation = ''validation.validator.labs/reconciliation-frequency''"

definition ErrValidationFailed :: string where
  "ErrValidationFailed = ''Validation failed with an unexpected error''"

section \<open>Rule results and responses\<close>

record rule_result =
  rr_Condition :: "validation_condition option"
  rr_State :: "string option"

text \<open>
  \<^theory_text>\<open>Finalize\<close>: nothing without an error; with one, the state is set first and then the fields of
  the condition, whose pointer must not be nil.
\<close>

definition rr_Finalize :: "goerror option \<Rightarrow> rule_result \<Rightarrow> panic + rule_result" where
  "rr_Finalize err rr =
     (case err of
        None \<Rightarrow> Inr rr
      | Some e \<Rightarrow>
          (case rr_Condition rr of
             None \<Rightarrow> Inl NilDereference
           | Some c \<Rightarrow>
               Inr (rr\<lparr>rr_State := Some ValidationFailed,
                       rr_Condition := Some (c\<lparr>c_Status := ConditionFalse,
                         c_Message := ErrValidationFailed,
                         c_Failures := c_Failures c @ [err_text e]\<rparr>)\<rparr>)))"

record validation_response =
  ValidationRuleResults :: "rule_result option list"
  ValidationRuleErrors :: "goerror option list"

definition AddResult ::
  "rule_result option \<Rightarrow> goerror option \<Rightarrow> validation_response \<Rightarrow> validation_response" where
  "AddResult rr err v =
     v\<lparr>ValidationRuleResults := ValidationRuleResults v @ [rr],
       ValidationRuleErrors := ValidationRuleErrors v @ [err]\<rparr>"

definition empty_response :: validation_response where
  "empty_response = \<lparr>ValidationRuleResults = [], ValidationRuleErrors = []\<rparr>"

text \<open>A plugin collects its results with \<^theory_text>\<open>AddResult\<close>, one rule at a time.\<close>

definition collect :: "(rule_result option \<times> goerror option) list \<Rightarrow> validation_response" where
  "collect rs = foldl (\<lambda>v (rr, err). AddResult rr err v) empty_response rs"

text \<open>A response can be finalised when there is an error entry for every result.\<close>

definition balanced :: "validation_response \<Rightarrow> bool" where
  "balanced v \<longleftrightarrow> length (ValidationRuleErrors v) = length (ValidationRuleResults v)"

lemma AddResult_balanced: "balanced v \<Longrightarrow> balanced (AddResult rr err v)"
  by (simp add: balanced_def AddResult_def)

lemma collect_snoc: "collect (rs @ [(rr, err)]) = AddResult rr err (collect rs)"
  by (simp add: collect_def)

lemma collect_zip:
  "balanced (collect rs)"
  "zip (ValidationRuleResults (collect rs)) (ValidationRuleErrors (collect rs)) = rs"
proof (induction rs rule: rev_induct)
  case Nil
  {
    case 1
    show ?case by (simp add: collect_def empty_response_def balanced_def)
  next
    case 2
    show ?case by (simp add: collect_def empty_response_def)
  }
next
  case (snoc x rs)
  {
    case 1
    show ?case using snoc by (cases x) (simp add: collect_snoc AddResult_balanced)
  next
    case 2
    show ?case using snoc by (cases x) (simp add: collect_snoc AddResult_def balanced_def)
  }
qed

text \<open>
  What AddResult collects is balanced, and pairs each result with its error, in order.\<close>

lemma collect_pairs:
  "balanced (collect rs) \<and>
   zip (ValidationRuleResults (collect rs)) (ValidationRuleErrors (collect rs)) = rs"
  by (simp add: collect_zip)

section \<open>BuildDefault\<close>

definition BuildDefault ::
  "unicode_tables \<Rightarrow> gotime \<Rightarrow> string \<Rightarrow> string \<Rightarrow> string \<Rightarrow> string \<Rightarrow> rule_result" where
  "BuildDefault ut now latestConditionMsg validationType validationRule ruleName =
     (let state = ValidationSucceeded;
          c0 = DefaultValidationCondition now;
          c1 = c0\<lparr>c_Message := latestConditionMsg\<rparr>;
          c2 = (if validationRule \<noteq> [] then c1\<lparr>c_ValidationRule := validationRule\<rparr>
                else c1\<lparr>c_ValidationRule := ValidationRulePrefix @ ''-'' @ sanitize ut ruleName\<rparr>);
          c3 = c2\<lparr>c_ValidationType := validationType\<rparr>
      in \<lparr>rr_Condition = Some c3, rr_State = Some state\<rparr>)"

text \<open>
  a default result never makes Finalize panic: without an error it stays a succeeded result
  with status True; with one it becomes failed, with the error's text as its only failure.  A rule
  description generated from the rule's name carries the prefix by which failed validations are
  recognised.
\<close>

lemma BuildDefault_Finalize:
  "rr_Finalize None (BuildDefault ut now msg vt vrule name) =
     Inr (BuildDefault ut now msg vt vrule name) \<and>
   rr_Finalize (Some e) (BuildDefault ut now msg vt vrule name) =
     Inr \<lparr>rr_Condition = Some \<lparr>c_ValidationType = vt,
            c_ValidationRule = (if vrule = [] then ''validation-'' @ sanitize ut name else vrule),
            c_Message = ErrValidationFailed, c_Details = [], c_Failures = [err_text e],
            c_Status = ConditionFalse, c_LastValidationTime = now\<rparr>,
          rr_State = Some ValidationFailed\<rparr> \<and>
   has_prefix (c_ValidationRule (the (rr_Condition (BuildDefault ut now msg vt [] name))))
     ValidationRulePrefix"
  by (simp add: rr_Finalize_def BuildDefault_def DefaultValidationCondition_def
      zero_condition_def ValidationRulePrefix_def has_prefix_def Let_def)

section \<open>Validation rules\<close>

text \<open>
  The interface of \<^theory_text>\<open>pkg/validationrule\<close>, as its comments state it: setting the name of a rule that
  does not require one is a no-op.
\<close>

locale validation_rule =
  fixes Name :: "'r \<Rightarrow> string"
    and SetName :: "string \<Rightarrow> 'r \<Rightarrow> 'r"
    and RequiresName :: "'r \<Rightarrow> bool"
  assumes set_manual: "RequiresName r \<Longrightarrow> Name (SetName n r) = n"
    and set_automatic: "\<not> RequiresName r \<Longrightarrow> SetName n r = r"
    and requires_stable: "RequiresName (SetName n r) = RequiresName r"
begin

lemma set_name_twice: "Name (SetName n (SetName m r)) = Name (SetName n r)"
  using set_manual set_automatic requires_stable by metis

lemma name_after_set: "Name (SetName n r) = (if RequiresName r then n else Name r)"
  using set_manual set_automatic by metis

end

text \<open>
  \<^theory_text>\<open>ManuallyNamed\<close> and \<^theory_text>\<open>AutomaticallyNamed\<close> are embedded in a plugin's rule struct: the first
  answers \<^theory_text>\<open>RequiresName\<close>, the second also gives the no-op \<^theory_text>\<open>SetName\<close>.  A rule struct is its name
  field (for a manual rule) or the function that generates its name.
\<close>

datatype 'd rule_struct = ManuallyNamed string 'd | AutomaticallyNamed "'d \<Rightarrow> string" 'd

fun rule_RequiresName :: "'d rule_struct \<Rightarrow> bool" where
  "rule_RequiresName (ManuallyNamed n d) = True"
| "rule_RequiresName (AutomaticallyNamed gen d) = False"

fun rule_SetName :: "string \<Rightarrow> 'd rule_struct \<Rightarrow> 'd rule_struct" where
  "rule_SetName m (ManuallyNamed n d) = ManuallyNamed m d"
| "rule_SetName m (AutomaticallyNamed gen d) = AutomaticallyNamed gen d"

fun rule_Name :: "'d rule_struct \<Rightarrow> string" where
  "rule_Name (ManuallyNamed n d) = n"
| "rule_Name (AutomaticallyNamed gen d) = gen d"

interpretation rule_iface: validation_rule rule_Name rule_SetName rule_RequiresName
proof
  fix r :: "'d rule_struct" and n
  show "rule_RequiresName r \<Longrightarrow> rule_Name (rule_SetName n r) = n" by (cases r) auto
  show "\<not> rule_RequiresName r \<Longrightarrow> rule_SetName n r = r" by (cases r) auto
  show "rule_RequiresName (rule_SetName n r) = rule_RequiresName r" by (cases r) auto
qed

end
