(* ===== verification/Runtime.thy ===== *)
theory Runtime
  imports Rule_Result
begin

text \<open>
  The outside world of the program: the Kubernetes API server, the file system, the helm binary,
  the OCI and HTTP clients, the clock.  Every call is an \<open>event\<close> that carries what the code passes
  to the call; the answers come from an \<open>env\<close>, whose functions take the history of events before
  the call and are otherwise arbitrary.  \<open>globals\<close> are the mutable process variables: the shared
  \<^theory_text>\<open>http.DefaultClient\<close> and helm's \<^theory_text>\<open>preserveFiles\<close>.
\<close>

type_synonym nsname = "string \<times> string" \<comment> \<open>namespace and name\<close>

section \<open>HTTP clients and messages\<close>

record cert_pool =
  cp_System :: bool
  cp_PEMs :: "string list"

text \<open>
  A nil \<^theory_text>\<open>Transport\<close> means \<^theory_text>\<open>http.DefaultTransport\<close>, which takes its proxy from the environment; the
  transport the Alertmanager sink builds has TLS settings only, hence no proxy.
\<close>

datatype transport = DefaultTransport | TLSTransport bool "cert_pool option"

record http_client =
  hc_Timeout :: int
  hc_Transport :: transport

record globals =
  default_client :: http_client
  preserve_files :: bool

datatype slack_block = HeaderBlock string | SectionBlock string | DividerBlock

record alert =
  al_Annotations :: "string \<rightharpoonup> string"
  al_Labels :: "string \<rightharpoonup> string"

record http_request =
  rq_URL :: string
  rq_Body :: "alert list"
  rq_Headers :: "(string \<times> string) list"

record url =
  url_Scheme :: string
  url_Host :: string
  url_Path :: string
  url_Rest :: string

section \<open>Events\<close>

datatype event =
    EvNow
  | EvGetVC nsname
  | EvGetVR nsname
  | EvGetSecret nsname
  | EvGetNamespace string
  | EvListSecrets "(string \<times> string) list" string
  | EvCreateVR validation_result
  | EvPatcherPatch validation_result
  | EvNewPatchHelper nsname
  | EvPatchVR validation_result validation_result "string list"
  | EvPatchVC validator_config validator_config
  | EvUpdateVC validator_config
  | EvSystemCertPool
  | EvHTTPDo http_client http_request
  | EvSlackAuthTest http_client string
  | EvSlackPostMessage http_client string string "slack_block list"
  | EvFinalizeCleanup http_client string
  | EvCreateTemp
  | EvWriteTemp string string
  | EvCloseTemp string
  | EvStat string
  | EvRemove string
  | EvSleep int
  | EvPrint string
  | EvExec string "string list"
  | EvWriteFile string string
  | EvRemoveAll string
  | EvNewOCIClient string string string bool string
  | EvPullChart string string string
  | EvLog string "(string \<times> string list) list"

text \<open>The calls that reach a notification sink, and those that write to the API server.\<close>

fun is_sink_event :: "event \<Rightarrow> bool" where
  "is_sink_event (EvHTTPDo c r) = True"
| "is_sink_event (EvSlackAuthTest c t) = True"
| "is_sink_event (EvSlackPostMessage c t ch bs) = True"
| "is_sink_event _ = False"

fun is_api_write :: "event \<Rightarrow> bool" where
  "is_api_write (EvCreateVR v) = True"
| "is_api_write (EvPatcherPatch v) = True"
| "is_api_write (EvPatchVR b a o') = True"
| "is_api_write (EvPatchVC b a) = True"
| "is_api_write (EvUpdateVC v) = True"
| "is_api_write _ = False"

section \<open>The environment\<close>

text \<open>
  Pure functions of code that is not modelled (\<^theory_text>\<open>url.Parse\<close>, \<^theory_text>\<open>url.URL.String\<close>, \<^theory_text>\<open>strconv.Quote\<close>,
  \<^theory_text>\<open>time.Time.String\<close>, \<^theory_text>\<open>http.NewRequest\<close>'s check, \<^theory_text>\<open>clientcmd.Write\<close>, the OCI scheme constant,
  \<^theory_text>\<open>kerrors.NewNotFound\<close>, the process environment) take no history.
\<close>

datatype stat_answer = StatOk | StatNotExist goerror | StatError goerror

record env =
  e_Now :: "event list \<Rightarrow> gotime"
  e_GetVC :: "event list \<Rightarrow> nsname \<Rightarrow> goerror + validator_config"
  e_GetVR :: "event list \<Rightarrow> nsname \<Rightarrow> goerror + validation_result"
  e_GetSecret :: "event list \<Rightarrow> nsname \<Rightarrow> goerror + secret"
  e_GetNamespace :: "event list \<Rightarrow> string \<Rightarrow> goerror + gotime option"
  e_ListSecrets :: "event list \<Rightarrow> (string \<times> string) list \<Rightarrow> string \<Rightarrow> goerror + secret list"
  e_CreateVR :: "event list \<Rightarrow> validation_result \<Rightarrow> goerror + validation_result"
  e_PatcherPatch :: "event list \<Rightarrow> validation_result \<Rightarrow> goerror option"
  e_NewPatchHelper :: "event list \<Rightarrow> nsname \<Rightarrow> goerror option"
  e_PatchVR :: "event list \<Rightarrow> validation_result \<Rightarrow> validation_result \<Rightarrow> goerror option"
  e_PatchVC :: "event list \<Rightarrow> validator_config \<Rightarrow> validator_config \<Rightarrow> goerror option"
  e_UpdateVC :: "event list \<Rightarrow> validator_config \<Rightarrow> goerror option"
  e_SystemCertPool :: "event list \<Rightarrow> goerror option"
  e_HTTPDo :: "event list \<Rightarrow> http_client \<Rightarrow> http_request \<Rightarrow> goerror + int"
  e_SlackAuthTest :: "event list \<Rightarrow> string \<Rightarrow> goerror option"
  e_SlackPost :: "event list \<Rightarrow> string \<Rightarrow> string \<Rightarrow> slack_block list \<Rightarrow> goerror option"
  e_FinalizeCleanup :: "event list \<Rightarrow> string \<Rightarrow> goerror option"
  e_CreateTemp :: "event list \<Rightarrow> goerror + string"
  e_WriteTemp :: "event list \<Rightarrow> string \<Rightarrow> string \<Rightarrow> goerror option"
  e_CloseTemp :: "event list \<Rightarrow> string \<Rightarrow> goerror option"
  e_Stat :: "event list \<Rightarrow> string \<Rightarrow> stat_answer"
  e_Remove :: "event list \<Rightarrow> string \<Rightarrow> goerror option"
  e_Exec :: "event list \<Rightarrow> string \<Rightarrow> string list \<Rightarrow> string \<times> goerror option"
  e_WriteFile :: "event list \<Rightarrow> string \<Rightarrow> string \<Rightarrow> goerror option"
  e_RemoveAll :: "event list \<Rightarrow> string \<Rightarrow> goerror option"
  e_NewOCIClient :: "event list \<Rightarrow> string \<Rightarrow> string \<Rightarrow> string \<Rightarrow> bool \<Rightarrow> string \<Rightarrow> goerror option"
  e_PullChart :: "event list \<Rightarrow> string \<Rightarrow> string \<Rightarrow> string \<Rightarrow> goerror option"
  e_KubeConfig :: "goerror + string"
  e_OCIScheme :: string
  e_NewNotFound :: "string \<Rightarrow> string \<Rightarrow> goerror"
  e_Getenv :: "string \<Rightarrow> string"
  e_url_Parse :: "string \<Rightarrow> goerror + url"
  e_url_String :: "url \<Rightarrow> string"
  e_Quote :: "string \<Rightarrow> string"
  e_TimeString :: "gotime \<Rightarrow> string"
  e_NewRequest :: "string \<Rightarrow> goerror option"

type_synonym ('o, 'a) act = "(event, globals, 'o, 'a) go"

text \<open>
  An environment in which every call succeeds with a fixed answer; the witnesses override the
  answers they need.
\<close>

definition test_meta :: "string \<Rightarrow> object_meta" where
  "test_meta n = empty_meta\<lparr>om_Name := n, om_Namespace := ''validator'', om_UID := ''u''\<rparr>"

definition test_vc :: validator_config where
  "test_vc = \<lparr>vc_ObjectMeta = test_meta ''validator-config'',
     vc_Spec = \<lparr>vcs_HelmConfig = \<lparr>hcfg_Registry = ''https://reg'', hcfg_CAFile = [],
         hcfg_InsecureSkipTLSVerify = False, hcfg_AuthSecretName = []\<rparr>,
       vcs_Plugins = [], vcs_Sink = None\<rparr>,
     vc_Conditions = []\<rparr>"

definition test_vr :: validation_result where
  "test_vr = \<lparr>vr_TypeMeta = \<lparr>tm_APIVersion = [], tm_Kind = []\<rparr>, vr_ObjectMeta = test_meta ''vr'',
     vr_Spec = \<lparr>vrs_Plugin = ''AWS'', vrs_ExpectedResults = 1\<rparr>,
     vr_Status = \<lparr>st_State = ValidationSucceeded, st_Conditions = [],
       st_ValidationConditions = [DefaultValidationCondition 5]\<rparr>\<rparr>"

definition test_env :: env where
  "test_env = \<lparr>
     e_Now = (\<lambda>h. int (length h)),
     e_GetVC = (\<lambda>h k. Inr test_vc),
     e_GetVR = (\<lambda>h k. Inr test_vr),
     e_GetSecret = (\<lambda>h k. Inl (GoError ''not found'' True)),
     e_GetNamespace = (\<lambda>h k. Inr None),
     e_ListSecrets = (\<lambda>h l n. Inr []),
     e_CreateVR = (\<lambda>h v. Inr v),
     e_PatcherPatch = (\<lambda>h v. None),
     e_NewPatchHelper = (\<lambda>h k. None),
     e_PatchVR = (\<lambda>h b a. None),
     e_PatchVC = (\<lambda>h b a. None),
     e_UpdateVC = (\<lambda>h v. None),
     e_SystemCertPool = (\<lambda>h. None),
     e_HTTPDo = (\<lambda>h c r. Inr 200),
     e_SlackAuthTest = (\<lambda>h t. None),
     e_SlackPost = (\<lambda>h t c b. None),
     e_FinalizeCleanup = (\<lambda>h u. None),
     e_CreateTemp = (\<lambda>h. Inr ''/tmp/f''),
     e_WriteTemp = (\<lambda>h f d. None),
     e_CloseTemp = (\<lambda>h f. None),
     e_Stat = (\<lambda>h f. StatOk),
     e_Remove = (\<lambda>h f. None),
     e_Exec = (\<lambda>h p a. ([], None)),
     e_WriteFile = (\<lambda>h f d. None),
     e_RemoveAll = (\<lambda>h f. None),
     e_NewOCIClient = (\<lambda>h u p r i f. None),
     e_PullChart = (\<lambda>h r d f. None),
     e_KubeConfig = Inr ''kubeconfig'',
     e_OCIScheme = ''oci://'',
     e_NewNotFound = (\<lambda>r n. GoError (r @ '' '' @ n @ '' not found'') True),
     e_Getenv = (\<lambda>v. []),
     e_url_Parse = (\<lambda>s. Inr \<lparr>url_Scheme = ''http'', url_Host = ''am:9093'', url_Path = [], url_Rest = []\<rparr>),
     e_url_String = (\<lambda>u. url_Scheme u @ ''://'' @ url_Host u @ url_Path u @ url_Rest u),
     e_Quote = (\<lambda>s. s),
     e_TimeString = (\<lambda>t. itoa t),
     e_NewRequest = (\<lambda>u. None)\<rparr>"

definition test_globals :: globals where
  "test_globals = \<lparr>default_client = \<lparr>hc_Timeout = 30, hc_Transport = DefaultTransport\<rparr>,
     preserve_files = False\<rparr>"

definition start :: "'o \<Rightarrow> (event, globals, 'o) gostate" where
  "start v = \<lparr>hist = [], glob = test_globals, obj = v\<rparr>"

section \<open>Primitive calls\<close>

text \<open>Calls that several components share.\<close>

definition time_Now :: "env \<Rightarrow> ('o, gotime) act" where
  "time_Now env = go_call EvNow (e_Now env)"

definition get_secret :: "env \<Rightarrow> nsname \<Rightarrow> ('o, goerror + secret) act" where
  "get_secret env k = go_call (EvGetSecret k) (\<lambda>h. e_GetSecret env h k)"

definition os_Remove :: "env \<Rightarrow> string \<Rightarrow> ('o, goerror option) act" where
  "os_Remove env f = go_call (EvRemove f) (\<lambda>h. e_Remove env h f)"

lemmas prim_defs = time_Now_def get_secret_def os_Remove_def

declare prim_defs [go_defs]

lemma obj_hist_update [simp]: "obj (s\<lparr>hist := h\<rparr>) = obj s"
  by (cases s) simp

lemma keeps_obj_call [frame_intros]: "keeps obj (go_call e answer)"
  by (rule keeps_call) simp

lemma keeps_glob_call [frame_intros]: "keeps glob (go_call e answer)"
  by (rule keeps_call) simp

end
