(* ===== verification/Keyed_List.thy ===== *)
theory Keyed_List
  imports Prelude
begin

text \<open>
  The controllers keep their conditions in Go slices and look them up with the same loop,
  \<^theory_text>\<open>for i, c := range xs { if P(c) { return i } }; return -1\<close>, followed by either an append or an
  assignment at the index found.  This theory holds that loop, the update, and two interfaces:
  \<open>index_search\<close> is what a caller may rely on in an index function, and \<open>keyed_upsert\<close> adds that
  the search is by a key.  Each component interprets them on its own search function.
\<close>

section \<open>The search loop and the update\<close>

fun range_index :: "('a \<Rightarrow> bool) \<Rightarrow> int \<Rightarrow> 'a list \<Rightarrow> int" where
  "range_index P i [] = -1"
| "range_index P i (x # xs) = (if P x then i else range_index P (i + 1) xs)"

definition upsert_at :: "int \<Rightarrow> 'a \<Rightarrow> 'a list \<Rightarrow> 'a list" where
  "upsert_at i x xs = (if i = -1 then xs @ [x] else xs[nat i := x])"

lemma range_index_shift:
  "0 \<le> i \<Longrightarrow> range_index P i xs =
     (if range_index P 0 xs = -1 then -1 else i + range_index P 0 xs)"
  "0 \<le> i \<Longrightarrow> range_index P i xs = -1 \<or> i \<le> range_index P i xs"
proof (induction xs arbitrary: i)
  case (Cons x xs)
  {
    case 1
    then show ?case
      using Cons.IH(1) [of "i + 1"] Cons.IH(1) [of 1] Cons.IH(2) [of 0] by auto
  next
    case 2
    then show ?case using Cons.IH(2) [of "i + 1"] by auto
  }
qed simp_all

lemma range_index_Cons:
  "range_index P 0 (x # xs) =
     (if P x then 0 else if range_index P 0 xs = -1 then -1 else 1 + range_index P 0 xs)"
  using range_index_shift(1) [of 1 P xs] by simp

section \<open>The contract of an index function\<close>

locale index_search =
  fixes idx :: "'k \<Rightarrow> 'a list \<Rightarrow> int"
    and matches :: "'k \<Rightarrow> 'a \<Rightarrow> bool"
  assumes idx_Nil: "idx k [] = -1"
    and idx_Cons: "idx k (x # xs) =
      (if matches k x then 0 else if idx k xs = -1 then -1 else 1 + idx k xs)"
begin

lemma idx_range: "idx k xs = -1 \<or> (0 \<le> idx k xs \<and> idx k xs < int (length xs))"
  by (induction xs) (auto simp: idx_Nil idx_Cons)

lemma idx_none_iff: "idx k xs = -1 \<longleftrightarrow> (\<forall>x \<in> set xs. \<not> matches k x)"
proof (induction xs)
  case (Cons x xs)
  then show ?case using idx_range [of k xs] by (auto simp: idx_Cons)
qed (simp add: idx_Nil)

lemma idx_hit: "idx k xs \<noteq> -1 \<Longrightarrow> matches k (xs ! nat (idx k xs))"
proof (induction xs)
  case (Cons x xs)
  then show ?case using idx_range [of k xs]
    by (auto simp: idx_Cons nat_add_distrib split: if_splits)
qed (simp add: idx_Nil)

lemma idx_first: "idx k xs \<noteq> -1 \<Longrightarrow> j < nat (idx k xs) \<Longrightarrow> \<not> matches k (xs ! j)"
proof (induction xs arbitrary: j)
  case (Cons x xs)
  then show ?case using idx_range [of k xs]
    by (cases j) (auto simp: idx_Cons nat_add_distrib split: if_splits)
qed (simp add: idx_Nil)

lemma idx_lt: "idx k xs \<noteq> -1 \<Longrightarrow> nat (idx k xs) < length xs"
  using idx_range [of k xs] by auto

text \<open>The search is \<open>List.find\<close> with an index.\<close>

lemma idx_find:
  "List.find (matches k) xs = (if idx k xs = -1 then None else Some (xs ! nat (idx k xs)))"
proof (induction xs)
  case (Cons x xs)
  then show ?case using idx_range [of k xs] by (auto simp: idx_Cons nat_add_distrib)
qed (simp add: idx_Nil)

lemma idx_append_hit: "idx k xs \<noteq> -1 \<Longrightarrow> idx k (xs @ ys) = idx k xs"
  by (induction xs) (auto simp: idx_Nil idx_Cons split: if_splits)

lemma length_upsert:
  "length (upsert_at (idx k xs) x xs) = (if idx k xs = -1 then Suc (length xs) else length xs)"
  by (simp add: upsert_at_def)

lemma upsert_other:
  assumes "j < length xs" and "int j \<noteq> idx k xs"
  shows "upsert_at (idx k xs) x xs ! j = xs ! j"
  using assms idx_range [of k xs] by (auto simp: upsert_at_def nth_append nth_list_update)

lemma in_set_upsert: "x \<in> set (upsert_at (idx k xs) x xs)"
  using idx_lt [of k xs] by (auto simp: upsert_at_def set_update_memI)

lemma set_upsert_subset: "set (upsert_at (idx k xs) x xs) \<subseteq> insert x (set xs)"
  by (auto simp: upsert_at_def dest: set_update_subset_insert [THEN subsetD])

end

section \<open>Search by a key\<close>

text \<open>What the slice says about a key: the first element that carries it.\<close>

definition keyed_lookup :: "('a \<Rightarrow> 'k) \<Rightarrow> 'a list \<Rightarrow> 'k \<Rightarrow> 'a option" where
  "keyed_lookup key xs k = List.find (\<lambda>x. key x = k) xs"

locale keyed_upsert = index_search idx matches
  for idx :: "'k \<Rightarrow> 'a list \<Rightarrow> int" and matches :: "'k \<Rightarrow> 'a \<Rightarrow> bool" +
  fixes key :: "'a \<Rightarrow> 'k"
  assumes matches_key: "matches k x \<longleftrightarrow> key x = k"
begin

lemma lookup_idx: "keyed_lookup key xs k = (if idx k xs = -1 then None else Some (xs ! nat (idx k xs)))"
proof -
  have "matches k = (\<lambda>x. key x = k)" by (simp add: fun_eq_iff matches_key)
  then show ?thesis using idx_find [of k xs] by (simp add: keyed_lookup_def)
qed

lemma upsert_Cons:
  "upsert_at (idx (key x) (y # ys)) x (y # ys) =
     (if key y = key x then x # ys else y # upsert_at (idx (key x) ys) x ys)"
  using idx_range [of "key x" ys]
  by (auto simp: upsert_at_def idx_Cons matches_key nat_add_distrib)

text \<open>The slice update is a map update.\<close>

lemma lookup_upsert:
  "keyed_lookup key (upsert_at (idx (key x) xs) x xs) = (keyed_lookup key xs)(key x \<mapsto> x)"
proof (induction xs)
  case Nil
  show ?case by (auto simp: upsert_at_def idx_Nil keyed_lookup_def)
next
  case (Cons y ys)
  then show ?case unfolding upsert_Cons by (auto simp: keyed_lookup_def fun_eq_iff)
qed

lemma keys_upsert:
  "key ` set (upsert_at (idx (key x) xs) x xs) = insert (key x) (key ` set xs)"
proof (induction xs)
  case Nil
  show ?case by (simp add: upsert_at_def idx_Nil)
next
  case (Cons y ys)
  then show ?case unfolding upsert_Cons by auto
qed

lemma distinct_keys_upsert:
  "distinct (map key xs) \<Longrightarrow> distinct (map key (upsert_at (idx (key x) xs) x xs))"
proof (induction xs)
  case Nil
  show ?case by (simp add: upsert_at_def idx_Nil)
next
  case (Cons y ys)
  then show ?case unfolding upsert_Cons using keys_upsert [of x ys] by auto
qed

text \<open>The elements of other keys stay, in their order.\<close>

lemma others_upsert:
  "filter (\<lambda>y. key y \<noteq> key x) (upsert_at (idx (key x) xs) x xs) = filter (\<lambda>y. key y \<noteq> key x) xs"
proof (induction xs)
  case Nil
  show ?case by (simp add: upsert_at_def idx_Nil)
next
  case (Cons y ys)
  then show ?case unfolding upsert_Cons by auto
qed

lemma set_upsert_distinct:
  "distinct (map key xs) \<Longrightarrow>
     set (upsert_at (idx (key x) xs) x xs) = insert x {y \<in> set xs. key y \<noteq> key x}"
proof (induction xs)
  case Nil
  show ?case by (simp add: upsert_at_def idx_Nil)
next
  case (Cons y ys)
  then show ?case unfolding upsert_Cons by (auto simp: rev_image_eqI)
qed

lemma lookup_distinct:
  "distinct (map key xs) \<Longrightarrow> keyed_lookup key xs k = Some x \<longleftrightarrow> x \<in> set xs \<and> key x = k"
  by (induction xs) (auto simp: keyed_lookup_def rev_image_eqI)

lemmas upsert_laws = lookup_upsert keys_upsert distinct_keys_upsert in_set_upsert

end

end
