(* ===== verification/Validation_Result.thy ===== *)
theory Validation_Result
  imports Runtime Keyed_List
begin

text \<open>
  \<^theory_text>\<open>pkg/validationresult/validation_result.go\<close>: how a plugin builds, creates, finalises and patches
  its ValidationResult.  The ValidationResult behind the pointer argument is the \<open>obj\<close> of the
  state, so what a panic leaves half done is visible.  The lemmas show when \<open>Finalize\<close> panics, that
  its loop is a map update by rule followed by the verdict of \<open>verdict\<close>, and what is created and
  patched.
\<close>

section \<open>Build and Name\<close>

definition Group :: string where "Group = ''validation.spectrocloud.labs''"

definition APIVersion :: string where "APIVersion = Group @ ''/'' @ ''v1alpha1''"

text \<open>The methods of the \<^theory_text>\<open>Validator\<close> interface that \<open>Build\<close> calls.\<close>

record validator =
  vd_GetKind :: string
  vd_PluginCode :: string
  vd_ResultCount :: int
  vd_GetNamespace :: string
  vd_GetName :: string
  vd_GetUID :: string
  vd_GVK_Version :: string
  vd_GVK_Kind :: string

definition vr_Name :: "unicode_tables \<Rightarrow> validator \<Rightarrow> string" where
  "vr_Name ut r =
     sanitize ut (''validator-plugin-'' @ vd_PluginCode r @ ''-'' @ vd_GetName r)"

definition vr_Build :: "unicode_tables \<Rightarrow> validator \<Rightarrow> validation_result" where
  "vr_Build ut r =
     \<lparr>vr_TypeMeta = \<lparr>tm_APIVersion = APIVersion, tm_Kind = vd_GetKind r\<rparr>,
      vr_ObjectMeta = empty_meta\<lparr>om_Name := vr_Name ut r, om_Namespace := vd_GetNamespace r,
        om_OwnerReferences := [\<lparr>or_APIVersion = vd_GVK_Version r, or_Kind = vd_GVK_Kind r,
          or_Name = vd_GetName r, or_UID = vd_GetUID r, or_Controller = Some True\<rparr>]\<rparr>,
      vr_Spec = \<lparr>vrs_Plugin = vd_PluginCode r, vrs_ExpectedResults = vd_ResultCount r\<rparr>,
      vr_Status = \<lparr>st_State = [], st_Conditions = [], st_ValidationConditions = []\<rparr>\<rparr>"

section \<open>Searching the conditions\<close>

definition getConditionIndexByValidationRule ::
  "validation_condition list \<Rightarrow> string \<Rightarrow> int" where
  "getConditionIndexByValidationRule conditions validationRule =
     range_index (\<lambda>c. c_ValidationRule c = validationRule) 0 conditions"

interpretation rule_index: keyed_upsert
  "\<lambda>k cs. getConditionIndexByValidationRule cs k" "\<lambda>k c. c_ValidationRule c = k" c_ValidationRule
  by unfold_locales
    (simp_all add: getConditionIndexByValidationRule_def range_index_Cons del: range_index.simps(2))

definition getInvalidConditions :: "validation_condition list \<Rightarrow> validation_condition list" where
  "getInvalidConditions conditions =
     filter (\<lambda>c. has_prefix (c_ValidationRule c) ValidationRulePrefix \<and> c_Status c = ConditionFalse)
       conditions"

section \<open>updateStatus\<close>

text \<open>The loop that computes the overall state, with its \<^theory_text>\<open>break\<close> at the first failed condition.\<close>

fun scan_states :: "string \<Rightarrow> validation_condition list \<Rightarrow> string" where
  "scan_states st [] = st"
| "scan_states st (c # cs) =
     (let st1 = (if c_Status c = ConditionTrue then ValidationSucceeded else st)
      in if c_Status c = ConditionFalse then ValidationFailed else scan_states st1 cs)"

definition insert_condition :: "validation_condition \<Rightarrow> validation_result \<Rightarrow> validation_result" where
  "insert_condition c vr =
     vr_set_conds
       (upsert_at (getConditionIndexByValidationRule (vr_conds vr) (c_ValidationRule c)) c (vr_conds vr))
       vr"

definition updateStatus ::
  "rule_result \<Rightarrow> goerror option \<Rightarrow> (validation_result, rule_result) act" where
  "updateStatus rr err =
     (case rr_Finalize err rr of
        Inl p \<Rightarrow> go_panic p
      | Inr rr' \<Rightarrow>
          (case rr_Condition rr' of
             None \<Rightarrow> go_panic NilDereference
           | Some c \<Rightarrow>
               go_bind (go_modify (insert_condition c)) (\<lambda>_.
               case rr_State rr' of
                 None \<Rightarrow> go_panic NilDereference
               | Some st \<Rightarrow>
                   go_bind (go_modify (\<lambda>vr. vr_set_state (scan_states st (vr_conds vr)) vr)) (\<lambda>_.
                   go_return rr'))))"

section \<open>Finalize, SafeUpdate, HandleNew, HandleExisting\<close>

text \<open>The stand-in for a nil rule result: a condition with the current time, and no state.\<close>

definition nil_result :: "gotime \<Rightarrow> rule_result" where
  "nil_result now =
     \<lparr>rr_Condition = Some (zero_condition\<lparr>c_LastValidationTime := now\<rparr>), rr_State = None\<rparr>"

text \<open>
  The loop of \<^theory_text>\<open>Finalize\<close> from index \<open>i\<close>.  It returns the rule results as the caller sees them
  afterwards, since \<^theory_text>\<open>ValidationRuleResult.Finalize\<close> writes through their pointers.
\<close>

fun finalize_from ::
  "env \<Rightarrow> nat \<Rightarrow> rule_result option list \<Rightarrow> goerror option list \<Rightarrow>
     (validation_result, rule_result option list) act" where
  "finalize_from env i [] errs = go_return []"
| "finalize_from env i (r # rs) errs =
     go_bind
       (case r of
          None \<Rightarrow> go_bind (time_Now env) (\<lambda>now. go_return (nil_result now))
        | Some rr \<Rightarrow> go_return rr) (\<lambda>rr.
     if i < length errs then
       go_bind (updateStatus rr (errs ! i)) (\<lambda>rr'.
       go_bind (finalize_from env (Suc i) rs errs) (\<lambda>out.
       go_return (map_option (\<lambda>_. rr') r # out)))
     else go_panic IndexOutOfRange)"

definition vr_Finalize ::
  "env \<Rightarrow> validation_response \<Rightarrow> (validation_result, goerror option \<times> rule_result option list) act"
where
  "vr_Finalize env v =
     go_bind (finalize_from env 0 (ValidationRuleResults v) (ValidationRuleErrors v)) (\<lambda>out.
     go_return (None, out))"

definition patcher_Patch :: "env \<Rightarrow> (validation_result, goerror option) act" where
  "patcher_Patch env =
     go_bind go_obj (\<lambda>vr. go_call (EvPatcherPatch vr) (\<lambda>h. e_PatcherPatch env h vr))"

definition SafeUpdate ::
  "env \<Rightarrow> validation_response \<Rightarrow> (validation_result, goerror option) act" where
  "SafeUpdate env v =
     go_bind (vr_Finalize env v) (\<lambda>(err, out).
     case err of
       Some e \<Rightarrow> go_return (Some e)
     | None \<Rightarrow>
         go_bind (patcher_Patch env) (\<lambda>perr.
         case perr of Some e \<Rightarrow> go_return (Some e) | None \<Rightarrow> go_return None))"

text \<open>\<^theory_text>\<open>Create\<close> stores what the API server returns in the object.\<close>

definition HandleNew :: "env \<Rightarrow> (validation_result, goerror option) act" where
  "HandleNew env =
     go_bind go_obj (\<lambda>vr.
     go_bind (go_call (EvCreateVR vr) (\<lambda>h. e_CreateVR env h vr)) (\<lambda>created.
     case created of
       Inl e \<Rightarrow> go_return (Some e)
     | Inr vr1 \<Rightarrow>
         go_bind (go_set (vr1\<lparr>vr_Status := \<lparr>st_State = ValidationInProgress, st_Conditions = [],
             st_ValidationConditions = []\<rparr>\<rparr>)) (\<lambda>_.
         go_bind (patcher_Patch env) (\<lambda>perr.
         case perr of Some e \<Rightarrow> go_return (Some e) | None \<Rightarrow> go_return None))))"

definition log_line :: "string \<Rightarrow> (string \<times> string list) list \<Rightarrow> ('o, unit) act" where
  "log_line msg kvs = go_call (EvLog msg kvs) (\<lambda>_. ())"

definition HandleExisting :: "(validation_result, unit) act" where
  "HandleExisting =
     go_bind go_obj (\<lambda>vr.
     if vr_state vr = ValidationInProgress then
       log_line ''Previous validation failed with unexpected error'' []
     else if vr_state vr = ValidationFailed then
       (let cs = getInvalidConditions (vr_conds vr) in
        if length cs > 0 then
          go_for cs (\<lambda>c. log_line ''Validation failed. Retrying.''
            [(''validation'', [c_ValidationRule c]), (''error'', [c_Message c]),
             (''details'', c_Details c), (''failures'', c_Failures c)])
        else go_return ())
     else if vr_state vr = ValidationSucceeded then
       log_line ''Previous validation succeeded. Re-validating.'' []
     else go_return ())"

section \<open>The overall state\<close>

text \<open>The verdict that the comment of \<^theory_text>\<open>updateStatus\<close> describes.\<close>

definition verdict :: "string \<Rightarrow> validation_condition list \<Rightarrow> string" where
  "verdict st cs =
     (if list_ex (\<lambda>c. c_Status c = ConditionFalse) cs then ValidationFailed
      else if list_ex (\<lambda>c. c_Status c = ConditionTrue) cs then ValidationSucceeded
      else st)"

lemma scan_states_verdict: "scan_states st cs = verdict st cs"
  by (induction st cs rule: scan_states.induct) (auto simp: verdict_def Let_def)

lemma verdict_agreed:
  assumes "cs \<noteq> []"
  shows "((\<exists>c \<in> set cs. c_Status c = ConditionFalse) \<longrightarrow> verdict st cs = ValidationFailed) \<and>
    ((\<forall>c \<in> set cs. c_Status c = ConditionTrue) \<longrightarrow> verdict st cs = ValidationSucceeded)"
  using assms by (cases cs) (auto simp: verdict_def list_ex_iff)

section \<open>What one result does to the status\<close>

text \<open>The condition and state with which a result reaches the status, if it does not panic.\<close>

definition effective ::
  "gotime \<Rightarrow> rule_result option \<Rightarrow> goerror option \<Rightarrow> (validation_condition \<times> string) option" where
  "effective t r err =
     (case rr_Finalize err (case r of Some rr \<Rightarrow> rr | None \<Rightarrow> nil_result t) of
        Inl p \<Rightarrow> None
      | Inr rr' \<Rightarrow>
          (case (rr_Condition rr', rr_State rr') of
             (Some c, Some st) \<Rightarrow> Some (c, st) | _ \<Rightarrow> None))"

definition finalizable :: "rule_result option \<times> goerror option \<Rightarrow> bool" where
  "finalizable p =
     (case p of
        (None, err) \<Rightarrow> err \<noteq> None
      | (Some rr, err) \<Rightarrow> rr_Condition rr \<noteq> None \<and> (err \<noteq> None \<or> rr_State rr \<noteq> None))"

definition yields ::
  "rule_result option \<times> goerror option \<Rightarrow> validation_condition \<times> string \<Rightarrow> bool" where
  "yields p e \<longleftrightarrow> (\<exists>t. effective t (fst p) (snd p) = Some e)"

definition apply_effective ::
  "validation_condition \<times> string \<Rightarrow> validation_result \<Rightarrow> validation_result" where
  "apply_effective e vr =
     (let vr1 = insert_condition (fst e) vr
      in vr_set_state (verdict (snd e) (vr_conds vr1)) vr1)"

lemma effective_iff: "effective t r err \<noteq> None \<longleftrightarrow> finalizable (r, err)"
  by (auto simp: effective_def finalizable_def rr_Finalize_def nil_result_def
      split: option.splits sum.splits)

lemma updateStatus_ok:
  assumes "effective t r err = Some e"
  shows "\<exists>rr'. updateStatus (case r of Some rr \<Rightarrow> rr | None \<Rightarrow> nil_result t) err s =
    (Inr rr', s\<lparr>obj := apply_effective e (obj s)\<rparr>)"
  using assms
  by (cases e) (auto simp: effective_def updateStatus_def go_eval apply_effective_def Let_def
      scan_states_verdict split: sum.splits option.splits)

lemma updateStatus_bad:
  assumes "effective t r err = None"
  shows "\<exists>p s'. updateStatus (case r of Some rr \<Rightarrow> rr | None \<Rightarrow> nil_result t) err s = (Inl p, s')"
  using assms
  by (auto simp: effective_def updateStatus_def go_eval split: sum.splits option.splits)

text \<open>Running the first step of the loop.\<close>

lemma finalize_from_Cons:
  "finalize_from env i (r # rs) errs s =
     (let (t, s1) = (case r of None \<Rightarrow> (e_Now env (hist s), s\<lparr>hist := hist s @ [EvNow]\<rparr>)
                             | Some rr \<Rightarrow> (zero_time, s))
      in if i < length errs then
           (case updateStatus (case r of Some rr \<Rightarrow> rr | None \<Rightarrow> nil_result t) (errs ! i) s1 of
              (Inl p, s2) \<Rightarrow> (Inl p, s2)
            | (Inr rr', s2) \<Rightarrow>
                (case finalize_from env (Suc i) rs errs s2 of
                   (Inl p, s3) \<Rightarrow> (Inl p, s3)
                 | (Inr out, s3) \<Rightarrow> (Inr (map_option (\<lambda>_. rr') r # out), s3)))
         else (Inl IndexOutOfRange, s1))"
  by (cases r) (auto simp: go_eval prim_defs Let_def split: prod.splits sum.splits)

definition can_finalize :: "nat \<Rightarrow> rule_result option list \<Rightarrow> goerror option list \<Rightarrow> bool" where
  "can_finalize i rs errs \<longleftrightarrow>
     i + length rs \<le> length errs \<and> list_all finalizable (zip rs (drop i errs))"

lemma can_finalize_Cons:
  "can_finalize i (r # rs) errs \<longleftrightarrow>
     i < length errs \<and> finalizable (r, errs ! i) \<and> can_finalize (Suc i) rs errs"
  by (cases "i < length errs")
     (auto simp: can_finalize_def simp flip: Cons_nth_drop_Suc)

lemma effective_Some_time:
  "effective t (Some rr) err = effective zero_time (Some rr) err"
  by (simp add: effective_def)

lemma finalize_from_ok:
  "can_finalize i rs errs \<Longrightarrow>
     \<exists>out effs n. finalize_from env i rs errs s =
         (Inr out, s\<lparr>hist := hist s @ replicate n EvNow, obj := fold apply_effective effs (obj s)\<rparr>) \<and>
       list_all2 yields (zip rs (drop i errs)) effs \<and> length out = length rs"
proof (induction rs arbitrary: i s)
  case Nil
  show ?case by (auto simp: go_eval intro!: exI [of _ "[]"] exI [of _ "0::nat"])
next
  case (Cons r rs)
  then have i: "i < length errs" and f: "finalizable (r, errs ! i)"
    and rest: "can_finalize (Suc i) rs errs" by (simp_all add: can_finalize_Cons)
  obtain t s1 m where s1: "(case r of None \<Rightarrow> (e_Now env (hist s), s\<lparr>hist := hist s @ [EvNow]\<rparr>)
      | Some rr \<Rightarrow> (zero_time, s)) = (t, s1)" and h: "s1 = s\<lparr>hist := hist s @ replicate m EvNow\<rparr>"
    by (cases r) (force intro: that [of _ _ 1], force intro: that [of _ _ 0])
  from f obtain e where e: "effective t r (errs ! i) = Some e"
    using effective_iff [of t r "errs ! i"] by blast
  from updateStatus_ok [OF e, of s1] obtain rr' where
    u: "updateStatus (case r of Some rr \<Rightarrow> rr | None \<Rightarrow> nil_result t) (errs ! i) s1 =
      (Inr rr', s1\<lparr>obj := apply_effective e (obj s1)\<rparr>)" by blast
  from Cons.IH [OF rest, of "s1\<lparr>obj := apply_effective e (obj s1)\<rparr>"] obtain out effs n where
    r: "finalize_from env (Suc i) rs errs (s1\<lparr>obj := apply_effective e (obj s1)\<rparr>) =
      (Inr out, s1\<lparr>hist := hist s1 @ replicate n EvNow,
         obj := fold apply_effective effs (apply_effective e (obj s1))\<rparr>)"
    and y: "list_all2 yields (zip rs (drop (Suc i) errs)) effs" and l: "length out = length rs"
    by auto
  have "finalize_from env i (r # rs) errs s =
      (Inr (map_option (\<lambda>_. rr') r # out), s\<lparr>hist := hist s @ replicate (m + n) EvNow,
         obj := fold apply_effective (e # effs) (obj s)\<rparr>)"
    unfolding finalize_from_Cons s1 using i u r h by (simp add: replicate_add)
  moreover have "list_all2 yields (zip (r # rs) (drop i errs)) (e # effs)"
    using i e y by (auto simp: yields_def simp flip: Cons_nth_drop_Suc)
  ultimately show ?case using l by force
qed

lemma finalize_from_bad:
  "\<not> can_finalize i rs errs \<Longrightarrow> i \<le> length errs \<Longrightarrow>
     \<exists>p s'. finalize_from env i rs errs s = (Inl p, s')"
proof (induction rs arbitrary: i s)
  case Nil
  then show ?case by (simp add: can_finalize_def)
next
  case (Cons r rs)
  obtain t s1 where s1: "(case r of None \<Rightarrow> (e_Now env (hist s), s\<lparr>hist := hist s @ [EvNow]\<rparr>)
      | Some rr \<Rightarrow> (zero_time, s)) = (t, s1)" by fastforce
  show ?case
  proof (cases "i < length errs")
    case False
    then show ?thesis unfolding finalize_from_Cons s1 by simp
  next
    case i: True
    show ?thesis
    proof (cases "effective t r (errs ! i)")
      case None
      from updateStatus_bad [OF None, of s1] show ?thesis
        unfolding finalize_from_Cons s1 using i by auto
    next
      case (Some e)
      then have "finalizable (r, errs ! i)" using effective_iff [of t r "errs ! i"] by simp
      then have "\<not> can_finalize (Suc i) rs errs" using Cons.prems i by (simp add: can_finalize_Cons)
      from Cons.IH [OF this] i obtain p s'' where
        "finalize_from env (Suc i) rs errs (s1\<lparr>obj := apply_effective e (obj s1)\<rparr>) = (Inl p, s'')"
        by (metis Suc_leI)
      with updateStatus_ok [OF Some, of s1] show ?thesis
        unfolding finalize_from_Cons s1 using i by auto
    qed
  qed
qed

section \<open>Finalize as a map update and a verdict\<close>

lemma apply_effective_simps [simp]:
  "vr_conds (apply_effective e vr) = vr_conds (insert_condition (fst e) vr)"
  "vr_state (apply_effective e vr) = verdict (snd e) (vr_conds (insert_condition (fst e) vr))"
  "vr_Spec (apply_effective e vr) = vr_Spec vr"
  "vr_ObjectMeta (apply_effective e vr) = vr_ObjectMeta vr"
  "st_Conditions (vr_Status (apply_effective e vr)) = st_Conditions (vr_Status vr)"
  by (simp_all add: apply_effective_def insert_condition_def Let_def)

lemma lookup_insert_condition:
  "keyed_lookup c_ValidationRule (vr_conds (insert_condition c vr)) =
     (keyed_lookup c_ValidationRule (vr_conds vr))(c_ValidationRule c \<mapsto> c)"
  using rule_index.lookup_upsert [where x = c and xs = "vr_conds vr"] by (simp add: insert_condition_def)

lemma distinct_insert_condition:
  "distinct (map c_ValidationRule (vr_conds vr)) \<Longrightarrow>
     distinct (map c_ValidationRule (vr_conds (insert_condition c vr)))"
  using rule_index.distinct_keys_upsert [where x = c and xs = "vr_conds vr"] by (simp add: insert_condition_def)

lemma lookup_fold_effective:
  "keyed_lookup c_ValidationRule (vr_conds (fold apply_effective effs vr)) =
     keyed_lookup c_ValidationRule (vr_conds vr) ++
       map_of (rev (map (\<lambda>e. (c_ValidationRule (fst e), fst e)) effs))"
  by (induction effs arbitrary: vr) (simp_all add: lookup_insert_condition)

lemma state_fold_effective:
  "effs \<noteq> [] \<Longrightarrow> vr_state (fold apply_effective effs vr) =
     verdict (snd (last effs)) (vr_conds (fold apply_effective effs vr))"
  by (induction effs rule: rev_induct) simp_all

lemma vr_Finalize_bad:
  "\<not> can_finalize 0 (ValidationRuleResults v) (ValidationRuleErrors v) \<Longrightarrow>
     \<exists>p s'. vr_Finalize env v s = (Inl p, s')"
  using finalize_from_bad [of 0 "ValidationRuleResults v" "ValidationRuleErrors v" env s]
  by (auto simp: vr_Finalize_def go_eval)

lemma vr_Finalize_ok:
  "can_finalize 0 (ValidationRuleResults v) (ValidationRuleErrors v) \<Longrightarrow>
     \<exists>out s'. vr_Finalize env v s = (Inr (None, out), s')"
  using finalize_from_ok [of 0 "ValidationRuleResults v" "ValidationRuleErrors v" env s]
  by (auto simp: vr_Finalize_def go_eval)

lemma vr_Finalize_run:
  assumes "vr_Finalize env v s = (Inr (e, out), s')"
  shows "e = None \<and> length out = length (ValidationRuleResults v) \<and>
    (\<exists>effs n. list_all2 yields (zip (ValidationRuleResults v) (ValidationRuleErrors v)) effs \<and>
       length effs = length (ValidationRuleResults v) \<and>
       s' = s\<lparr>hist := hist s @ replicate n EvNow, obj := fold apply_effective effs (obj s)\<rparr>)"
proof -
  let ?R = "ValidationRuleResults v" and ?E = "ValidationRuleErrors v"
  obtain o2 where f: "finalize_from env 0 ?R ?E s = (Inr o2, s')" and e: "e = None" "out = o2"
    using assms by (auto simp: vr_Finalize_def go_eval split: prod.splits sum.splits)
  then have "can_finalize 0 ?R ?E"
    using finalize_from_bad [of 0 ?R ?E env s] by force
  from finalize_from_ok [OF this, of env s] f obtain effs n where
    r: "s' = s\<lparr>hist := hist s @ replicate n EvNow, obj := fold apply_effective effs (obj s)\<rparr>"
    and y: "list_all2 yields (zip ?R ?E) effs" and l: "length o2 = length ?R"
    by auto
  have "length effs = length ?R"
    using list_all2_lengthD [OF y] \<open>can_finalize 0 ?R ?E\<close> by (simp add: can_finalize_def)
  with r y l e show ?thesis by blast
qed

text \<open>
  C18: Finalize panics exactly when there are fewer errors than results, or some result lacks what
  updateStatus dereferences: its condition, or its state when there is no error to replace it.
\<close>

theorem Finalize_panics_iff:
  "(\<exists>p s'. vr_Finalize env v s = (Inl p, s')) \<longleftrightarrow>
     \<not> (length (ValidationRuleResults v) \<le> length (ValidationRuleErrors v) \<and>
        list_all finalizable (zip (ValidationRuleResults v) (ValidationRuleErrors v)))"
  using vr_Finalize_ok [of v env s] vr_Finalize_bad [of v env s]
  by (fastforce simp: can_finalize_def)

text \<open>
  a plugin that reports a nil rule result together with a nil error makes Finalize dereference
  the nil state of the stand-in result, although nil results are handled explicitly.
\<close>

lemma Finalize_nil_result_nil_error:
  "\<exists>p s'. vr_Finalize env (collect (rs @ [(None, None)])) s = (Inl p, s')"
proof -
  have "(None, None) \<in> set (zip (ValidationRuleResults (collect (rs @ [(None, None)])))
      (ValidationRuleErrors (collect (rs @ [(None, None)]))))"
    unfolding collect_zip by simp
  then have "\<not> can_finalize 0 (ValidationRuleResults (collect (rs @ [(None, None)])))
      (ValidationRuleErrors (collect (rs @ [(None, None)])))"
    by (force simp: can_finalize_def list_all_iff finalizable_def)
  then show ?thesis by (rule vr_Finalize_bad)
qed

text \<open>
  C15: when Finalize returns, it returns no error, and the conditions it leaves are, seen as a map
  from rule to condition, the previous ones overridden by those of the results, later ones first;
  rules without a result keep their condition, and only the status is changed.
\<close>

theorem Finalize_refines_map:
  assumes "vr_Finalize env v s = (Inr (e, out), s')"
  shows "e = None \<and>
    (\<exists>effs. list_all2 yields (zip (ValidationRuleResults v) (ValidationRuleErrors v)) effs \<and>
       keyed_lookup c_ValidationRule (vr_conds (obj s')) =
         keyed_lookup c_ValidationRule (vr_conds (obj s)) ++
           map_of (rev (map (\<lambda>e. (c_ValidationRule (fst e), fst e)) effs))) \<and>
    vr_Spec (obj s') = vr_Spec (obj s) \<and> vr_ObjectMeta (obj s') = vr_ObjectMeta (obj s) \<and>
    st_Conditions (vr_Status (obj s')) = st_Conditions (vr_Status (obj s))"
proof -
  have "vr_Spec (fold apply_effective effs x) = vr_Spec x \<and>
      vr_ObjectMeta (fold apply_effective effs x) = vr_ObjectMeta x \<and>
      st_Conditions (vr_Status (fold apply_effective effs x)) = st_Conditions (vr_Status x)" for effs x
    by (induction effs arbitrary: x) simp_all
  then show ?thesis using vr_Finalize_run [OF assms] by (auto simp: lookup_fold_effective)
qed

definition resp_example :: validation_response where
  "resp_example = collect
     [(Some \<lparr>rr_Condition = Some (zero_condition\<lparr>c_ValidationRule := ''validation-a'', c_Status := ConditionTrue\<rparr>),
         rr_State = Some ValidationSucceeded\<rparr>, Some (errors_New ''boom'')),
      (Some \<lparr>rr_Condition = Some (zero_condition\<lparr>c_ValidationRule := ''validation-b'', c_Status := ConditionTrue\<rparr>),
         rr_State = Some ValidationSucceeded\<rparr>, None)]"

text \<open>What Finalize makes of the example response: the first rule fails, the second succeeds.\<close>

lemma resp_example_run:
  "\<exists>out s'. vr_Finalize test_env resp_example (start test_vr) = (Inr (None, out), s')"
  by (rule vr_Finalize_ok) (simp add: can_finalize_def resp_example_def collect_def
      AddResult_def empty_response_def finalizable_def)

theorem Finalize_refines_map_witness:
  "\<exists>effs. length effs = 2 \<and>
     keyed_lookup c_ValidationRule (vr_conds (obj (snd (vr_Finalize test_env resp_example (start test_vr))))) =
       keyed_lookup c_ValidationRule (vr_conds test_vr) ++
         map_of (rev (map (\<lambda>e. (c_ValidationRule (fst e), fst e)) (effs :: (validation_condition \<times> string) list)))"
proof -
  obtain out s' where r: "vr_Finalize test_env resp_example (start test_vr) = (Inr (None, out), s')"
    using resp_example_run by blast
  have "length (zip (ValidationRuleResults resp_example) (ValidationRuleErrors resp_example)) = 2"
    by (simp add: resp_example_def collect_def AddResult_def empty_response_def)
  moreover obtain effs where y:
    "list_all2 yields (zip (ValidationRuleResults resp_example) (ValidationRuleErrors resp_example)) effs"
    and k: "keyed_lookup c_ValidationRule (vr_conds (obj s')) =
       keyed_lookup c_ValidationRule (vr_conds (obj (start test_vr))) ++
         map_of (rev (map (\<lambda>e. (c_ValidationRule (fst e), fst e)) effs))"
    using Finalize_refines_map [OF r] by blast
  moreover have "obj (start test_vr) = test_vr" by (simp add: start_def)
  ultimately have "length effs = 2 \<and> keyed_lookup c_ValidationRule (vr_conds (obj s')) =
     keyed_lookup c_ValidationRule (vr_conds test_vr) ++
       map_of (rev (map (\<lambda>e. (c_ValidationRule (fst e), fst e)) effs))"
    using list_all2_lengthD [OF y] k by simp
  then show ?thesis unfolding r by auto
qed

text \<open>
  The state after Finalize of a non-empty response is the verdict over all conditions, those of earlier
  runs included; when none is True or False it is the state of the last result, and one that is True
  outweighs those that are neither, which the comment of \<^theory_text>\<open>updateStatus\<close> calls in progress.
\<close>

lemma Finalize_state_verdict:
  assumes "vr_Finalize env v s = (Inr (e, out), s')" and "ValidationRuleResults v \<noteq> []"
  shows "vr_conds (obj s') \<noteq> [] \<and> (\<exists>st c. vr_state (obj s') = verdict st (vr_conds (obj s')) \<and>
    yields (last (zip (ValidationRuleResults v) (ValidationRuleErrors v))) (c, st))"
proof -
  from vr_Finalize_run [OF assms(1)] obtain effs n where
    y: "list_all2 yields (zip (ValidationRuleResults v) (ValidationRuleErrors v)) effs"
    and l: "length effs = length (ValidationRuleResults v)"
    and s': "s' = s\<lparr>hist := hist s @ replicate n EvNow, obj := fold apply_effective effs (obj s)\<rparr>"
    by blast
  from l assms(2) obtain xs c st where effs: "effs = xs @ [(c, st)]" by (cases effs rule: rev_cases) auto
  with y have "yields (last (zip (ValidationRuleResults v) (ValidationRuleErrors v))) (c, st)"
    by (auto simp: list_all2_append2 list_all2_Cons2)
  moreover have "vr_state (obj s') = verdict st (vr_conds (obj s'))"
    using state_fold_effective [of effs "obj s"] by (simp add: s' effs)
  moreover have "vr_conds (obj s') \<noteq> []"
    by (auto simp: s' effs apply_effective_def insert_condition_def upsert_at_def Let_def
        vr_set_conds_def vr_set_state_def rule_index.idx_Nil)
  ultimately show ?thesis by blast
qed

text \<open>C16:
  The overall state after Finalize of a non-empty response.  It is Failed as soon as any condition
  failed, one of an earlier run included, and Succeeded when all conditions succeeded.\<close>
theorem Finalize_overall_state:
  assumes "vr_Finalize env v s = (Inr (e, out), s')" and "ValidationRuleResults v \<noteq> []"
  shows "((\<exists>c \<in> set (vr_conds (obj s')). c_Status c = ConditionFalse) \<longrightarrow> vr_state (obj s') = ValidationFailed) \<and>
    ((\<forall>c \<in> set (vr_conds (obj s')). c_Status c = ConditionTrue) \<longrightarrow> vr_state (obj s') = ValidationSucceeded)"
  using Finalize_state_verdict [OF assms] verdict_agreed [of "vr_conds (obj s')"] by metis

definition one_success :: validation_response where
  "one_success = collect
     [(Some \<lparr>rr_Condition = Some (zero_condition\<lparr>c_ValidationRule := ''validation-b'', c_Status := ConditionTrue\<rparr>),
         rr_State = Some ValidationInProgress\<rparr>, None)]"

theorem Finalize_overall_state_witness:
  "\<exists>s'. snd (vr_Finalize test_env one_success (start (vr_set_conds [] test_vr))) = s' \<and>
     length (vr_conds (obj s')) = 1 \<and> vr_state (obj s') = ValidationSucceeded"
proof -
  obtain out s' where r: "vr_Finalize test_env one_success (start (vr_set_conds [] test_vr)) = (Inr (None, out), s')"
    and c: "vr_conds (obj s') = [zero_condition\<lparr>c_ValidationRule := ''validation-b'', c_Status := ConditionTrue\<rparr>]"
    by (simp add: vr_Finalize_def one_success_def collect_def AddResult_def empty_response_def go_eval
        updateStatus_def rr_Finalize_def start_def insert_condition_def upsert_at_def
        getConditionIndexByValidationRule_def)
  have "ValidationRuleResults one_success \<noteq> []"
    by (simp add: one_success_def collect_def AddResult_def empty_response_def)
  from Finalize_overall_state [OF r this] show ?thesis
    by (intro exI [of _ s']) (simp add: r c)
qed

section \<open>Invariant and single failures\<close>

lemma maintains_updateStatus:
  "maintains (\<lambda>vr. distinct (map c_ValidationRule (vr_conds vr))) (updateStatus rr err)"
  unfolding updateStatus_def
  by (auto intro!: maintains_intros simp: distinct_insert_condition split: sum.splits option.splits)

lemma maintains_finalize_from:
  "maintains (\<lambda>vr. distinct (map c_ValidationRule (vr_conds vr))) (finalize_from env i rs errs)"
proof (induction rs arbitrary: i)
  case Nil
  show ?case by simp
next
  case (Cons r rs)
  then show ?case
    by (auto intro!: maintains_intros maintains_updateStatus simp: time_Now_def)
qed

text \<open>
  At most one condition per rule is an invariant of SafeUpdate, on every path, panics and patch
  errors included.\<close>
lemma SafeUpdate_one_condition_per_rule:
  assumes "distinct (map c_ValidationRule (vr_conds (obj s)))" and "SafeUpdate env v s = (r, s')"
  shows "distinct (map c_ValidationRule (vr_conds (obj s')))"
proof -
  have "maintains (\<lambda>vr. distinct (map c_ValidationRule (vr_conds vr))) (SafeUpdate env v)"
    unfolding SafeUpdate_def vr_Finalize_def patcher_Patch_def
    by (auto intro!: maintains_intros maintains_finalize_from split: option.splits)
  from maintainsD [OF this assms] show ?thesis .
qed

lemma SafeUpdate_one_condition_per_rule_witness:
  "distinct (map c_ValidationRule (vr_conds (obj (snd (SafeUpdate test_env resp_example (start test_vr))))))"
proof -
  have "distinct (map c_ValidationRule (vr_conds (obj (start test_vr))))"
    by (simp add: start_def test_vr_def)
  from SafeUpdate_one_condition_per_rule [OF this prod.collapse [symmetric]] show ?thesis .
qed

definition result_rule :: "rule_result option \<Rightarrow> string" where
  "result_rule r = (case r of None \<Rightarrow> [] | Some rr \<Rightarrow> c_ValidationRule (the (rr_Condition rr)))"

lemma yields_rule: "yields (r, err) e \<Longrightarrow> c_ValidationRule (fst e) = result_rule r"
  by (auto simp: yields_def effective_def rr_Finalize_def result_rule_def nil_result_def
      zero_condition_def split: option.splits sum.splits)

lemma yields_error: "yields (r, Some x) e \<Longrightarrow> c_Status (fst e) = ConditionFalse"
  by (auto simp: yields_def effective_def rr_Finalize_def split: option.splits sum.splits)

lemma map_of_rev_last:
  assumes "\<forall>y \<in> set ys. f y \<noteq> f x"
  shows "map_of (rev (map (\<lambda>e. (f e, g e)) (xs @ x # ys))) (f x) = Some (g x)"
proof -
  have "map_of (rev (map (\<lambda>e. (f e, g e)) ys)) (f x) = None"
    using assms by (auto simp: map_of_eq_None_iff)
  then show ?thesis by (simp add: map_add_def)
qed

text \<open>
  C17: a single rule that ends in an error makes the whole ValidationResult fail, wherever it stands
  in the response, unless a later result of the same response is for the same rule.
\<close>

theorem Finalize_single_error_fails:
  assumes run: "vr_Finalize env v s = (Inr (e, out), s')"
    and split: "zip (ValidationRuleResults v) (ValidationRuleErrors v) = pre @ (r, Some err) # post"
    and later: "\<forall>(r', err') \<in> set post. result_rule r' \<noteq> result_rule r"
  shows "vr_state (obj s') = ValidationFailed"
proof -
  from vr_Finalize_run [OF run] obtain effs n where
    y: "list_all2 yields (pre @ (r, Some err) # post) effs"
    and s': "s' = s\<lparr>hist := hist s @ replicate n EvNow, obj := fold apply_effective effs (obj s)\<rparr>"
    unfolding split by blast
  then obtain epre x epost where effs: "effs = epre @ x # epost"
    and x: "yields (r, Some err) x" and post: "list_all2 yields post epost"
    by (auto simp: list_all2_append1 list_all2_Cons1)
  have "\<forall>y \<in> set epost. c_ValidationRule (fst y) \<noteq> c_ValidationRule (fst x)"
  proof
    fix y assume "y \<in> set epost"
    then obtain i where "i < length epost" "y = epost ! i" by (metis in_set_conv_nth)
    with post have "post ! i \<in> set post" "yields (post ! i) y"
      by (simp_all add: list_all2_conv_all_nth)
    then obtain p where "p \<in> set post" "yields p y" by blast
    with later show "c_ValidationRule (fst y) \<noteq> c_ValidationRule (fst x)"
      using yields_rule [of "fst p" "snd p" y] yields_rule [OF x] by auto
  qed
  then have "map_of (rev (map (\<lambda>e. (c_ValidationRule (fst e), fst e)) effs))
      (c_ValidationRule (fst x)) = Some (fst x)"
    unfolding effs by (rule map_of_rev_last)
  then have "keyed_lookup c_ValidationRule (vr_conds (obj s')) (c_ValidationRule (fst x)) = Some (fst x)"
    using lookup_fold_effective [of effs "obj s"] by (simp add: s')
  then have "fst x \<in> set (vr_conds (obj s'))"
    unfolding keyed_lookup_def by (metis find_Some_iff nth_mem)
  then have "list_ex (\<lambda>c. c_Status c = ConditionFalse) (vr_conds (obj s'))"
    using yields_error [OF x] by (auto simp: list_ex_iff)
  moreover have "effs \<noteq> []" by (simp add: effs)
  ultimately show ?thesis using state_fold_effective [of effs "obj s"] by (simp add: s' verdict_def)
qed

theorem Finalize_single_error_fails_witness:
  "\<exists>s'. vr_state (obj s') = ValidationFailed \<and>
     snd (vr_Finalize test_env resp_example (start test_vr)) = s'"
proof -
  obtain out s' where r: "vr_Finalize test_env resp_example (start test_vr) = (Inr (None, out), s')"
    using resp_example_run by blast
  have "zip (ValidationRuleResults resp_example) (ValidationRuleErrors resp_example) =
      [] @ (Some \<lparr>rr_Condition = Some (zero_condition\<lparr>c_ValidationRule := ''validation-a'', c_Status := ConditionTrue\<rparr>),
         rr_State = Some ValidationSucceeded\<rparr>, Some (errors_New ''boom'')) #
      [(Some \<lparr>rr_Condition = Some (zero_condition\<lparr>c_ValidationRule := ''validation-b'', c_Status := ConditionTrue\<rparr>),
         rr_State = Some ValidationSucceeded\<rparr>, None)]"
    unfolding resp_example_def collect_zip by simp
  from Finalize_single_error_fails [OF r this] have "vr_state (obj s') = ValidationFailed"
    by (simp add: result_rule_def)
  then show ?thesis using r by simp
qed

section \<open>What is created, patched and logged\<close>

lemma finalize_harmless: "emits (\<lambda>e. e = EvNow) (vr_Finalize env v)"
proof -
  have "emits (\<lambda>e. e = EvNow) (updateStatus rr err)" for rr err
    unfolding updateStatus_def by (auto intro!: emits_intros split: sum.splits option.splits)
  then have "emits (\<lambda>e. e = EvNow) (finalize_from env i rs errs)" for i rs errs
    by (induction rs arbitrary: i) (auto intro!: emits_intros simp: time_Now_def)
  then show ?thesis unfolding vr_Finalize_def by (auto intro!: emits_intros)
qed

lemma SafeUpdate_run:
  "SafeUpdate env v s =
     (case vr_Finalize env v s of
        (Inl p, s1) \<Rightarrow> (Inl p, s1)
      | (Inr _, s1) \<Rightarrow>
          (Inr (e_PatcherPatch env (hist s1) (obj s1)),
           s1\<lparr>hist := hist s1 @ [EvPatcherPatch (obj s1)]\<rparr>))"
proof -
  have "fst r = None" if "vr_Finalize env v s = (Inr r, s1)" for r s1
    using that vr_Finalize_run [of env v s "fst r" "snd r" s1] by simp
  then show ?thesis
    by (fastforce simp: SafeUpdate_def patcher_Patch_def go_eval split: prod.splits sum.splits option.splits)
qed

text \<open>C21:
  What SafeUpdate stores.  For a response that can be finalised, one patch goes out, after the clock
  was read at most, and its error is returned.  The patched object holds, for every rule of the
  response, what the last result of that rule became, and for every other rule the condition it
  had; it is Failed if any condition failed and Succeeded if there are conditions and all succeeded; and
  nothing but its state and conditions has changed.  For any other response it panics and patches
  nothing.\<close>
theorem SafeUpdate_stores:
  "if length (ValidationRuleResults v) \<le> length (ValidationRuleErrors v) \<and>
      list_all finalizable (zip (ValidationRuleResults v) (ValidationRuleErrors v))
   then wp (SafeUpdate env v) (\<lambda>err s'. \<exists>n effs vr.
     hist s' = hist s @ replicate n EvNow @ [EvPatcherPatch vr] \<and>
     err = e_PatcherPatch env (hist s @ replicate n EvNow) vr \<and>
     list_all2 yields (zip (ValidationRuleResults v) (ValidationRuleErrors v)) effs \<and>
     keyed_lookup c_ValidationRule (vr_conds vr) =
       keyed_lookup c_ValidationRule (vr_conds (obj s)) ++
         map_of (rev (map (\<lambda>e. (c_ValidationRule (fst e), fst e)) effs)) \<and>
     (ValidationRuleResults v \<noteq> [] \<longrightarrow>
       ((\<exists>c \<in> set (vr_conds vr). c_Status c = ConditionFalse) \<longrightarrow> vr_state vr = ValidationFailed) \<and>
       ((\<forall>c \<in> set (vr_conds vr). c_Status c = ConditionTrue) \<longrightarrow> vr_state vr = ValidationSucceeded)) \<and>
     (\<exists>cs st. vr = vr_set_state st (vr_set_conds cs (obj s)))) s
   else \<exists>p s' n. SafeUpdate env v s = (Inl p, s') \<and> hist s' = hist s @ replicate n EvNow"
proof (cases "length (ValidationRuleResults v) \<le> length (ValidationRuleErrors v) \<and>
      list_all finalizable (zip (ValidationRuleResults v) (ValidationRuleErrors v))")
  case True
  then have "can_finalize 0 (ValidationRuleResults v) (ValidationRuleErrors v)" by (simp add: can_finalize_def)
  from vr_Finalize_ok [OF this] obtain out s1 where r: "vr_Finalize env v s = (Inr (None, out), s1)" by blast
  from vr_Finalize_run [OF r] obtain effs n where
    y: "list_all2 yields (zip (ValidationRuleResults v) (ValidationRuleErrors v)) effs"
    and s1: "s1 = s\<lparr>hist := hist s @ replicate n EvNow, obj := fold apply_effective effs (obj s)\<rparr>" by blast
  have "\<exists>cs st. fold apply_effective effs x = vr_set_state st (vr_set_conds cs x)" for x
  proof (induction effs arbitrary: x)
    case Nil
    show ?case by (intro exI [of _ "vr_conds x"] exI [of _ "vr_state x"]) (simp add: vr_set_state_def vr_set_conds_def)
  next
    case (Cons e effs)
    obtain cs1 st1 where e: "apply_effective e x = vr_set_state st1 (vr_set_conds cs1 x)"
      by (auto simp: apply_effective_def insert_condition_def Let_def)
    from Cons obtain cs st where "fold apply_effective effs (apply_effective e x) =
      vr_set_state st (vr_set_conds cs (apply_effective e x))" by blast
    then have "fold apply_effective (e # effs) x =
      vr_set_state st (vr_set_conds cs (vr_set_state st1 (vr_set_conds cs1 x)))" unfolding e by (simp add: e)
    then show ?case
      by (intro exI [of _ cs] exI [of _ st]) (simp add: e vr_set_state_def vr_set_conds_def)
  qed
  moreover have "ValidationRuleResults v \<noteq> [] \<longrightarrow>
       ((\<exists>c \<in> set (vr_conds (obj s1)). c_Status c = ConditionFalse) \<longrightarrow> vr_state (obj s1) = ValidationFailed) \<and>
       ((\<forall>c \<in> set (vr_conds (obj s1)). c_Status c = ConditionTrue) \<longrightarrow> vr_state (obj s1) = ValidationSucceeded)"
    using Finalize_state_verdict [OF r] verdict_agreed [of "vr_conds (obj s1)"] by metis
  ultimately show ?thesis
    using True y lookup_fold_effective [of effs "obj s"]
    by (auto simp: wp_def SafeUpdate_run r s1 intro!: exI [of _ n] exI [of _ effs])
next
  case False
  then have "\<not> can_finalize 0 (ValidationRuleResults v) (ValidationRuleErrors v)" by (simp add: can_finalize_def)
  from vr_Finalize_bad [OF this] obtain p s' where r: "vr_Finalize env v s = (Inl p, s')" by blast
  from emitsD [OF finalize_harmless r] obtain es where "hist s' = hist s @ es" "list_all (\<lambda>e. e = EvNow) es" by blast
  moreover from this(2) have "es = replicate (length es) EvNow" by (induction es) auto
  ultimately show ?thesis using False r by (auto simp: SafeUpdate_run)
qed

theorem SafeUpdate_stores_witness:
  "\<exists>vr n. hist (snd (SafeUpdate test_env one_success (start test_vr))) = replicate n EvNow @ [EvPatcherPatch vr] \<and>
     vr_Spec vr = vr_Spec test_vr"
proof -
  have ok: "length (ValidationRuleResults one_success) \<le> length (ValidationRuleErrors one_success) \<and>
      list_all finalizable (zip (ValidationRuleResults one_success) (ValidationRuleErrors one_success))"
    by (simp add: one_success_def collect_def AddResult_def empty_response_def finalizable_def)
  obtain err s' n cs st where "SafeUpdate test_env one_success (start test_vr) = (Inr err, s')"
    and "hist s' = hist (start test_vr) @ replicate n EvNow @ [EvPatcherPatch (vr_set_state st (vr_set_conds cs (obj (start test_vr))))]"
    using wp_returns [OF SafeUpdate_stores [of one_success test_env "start test_vr", unfolded if_P [OF ok]]] by blast
  then show ?thesis
    by (intro exI [of _ "vr_set_state st (vr_set_conds cs test_vr)"] exI [of _ n])
      (simp add: start_def vr_set_state_def vr_set_conds_def)
qed

definition in_progress_status :: validation_result_status where
  "in_progress_status =
     \<lparr>st_State = ValidationInProgress, st_Conditions = [], st_ValidationConditions = []\<rparr>"

text \<open>
  HandleNew creates the object first; if that fails it returns the error and patches nothing,
  otherwise it resets the status of the object the server returned to InProgress without
  conditions, patches that once, and returns the patcher's error.
\<close>

lemma HandleNew_create_then_patch:
  "HandleNew env s =
     (case e_CreateVR env (hist s) (obj s) of
        Inl e \<Rightarrow> (Inr (Some e), s\<lparr>hist := hist s @ [EvCreateVR (obj s)]\<rparr>)
      | Inr vr1 \<Rightarrow>
          (let vr2 = vr1\<lparr>vr_Status := in_progress_status\<rparr>;
               h = hist s @ [EvCreateVR (obj s)]
           in (Inr (e_PatcherPatch env h vr2), s\<lparr>hist := h @ [EvPatcherPatch vr2], obj := vr2\<rparr>)))"
  by (simp add: HandleNew_def patcher_Patch_def go_eval in_progress_status_def Let_def
      split: sum.splits option.splits)

lemma go_for_log:
  "go_for cs (\<lambda>c. log_line m (f c)) s =
     (Inr (), s\<lparr>hist := hist s @ map (\<lambda>c. EvLog m (f c)) cs\<rparr>)"
  by (induction cs arbitrary: s) (simp_all add: go_eval log_line_def)

text \<open>
  HandleExisting only logs: one line for an interrupted or a succeeded validation, and for a
  failed one a line per condition that failed and whose rule has the validation prefix.
\<close>

lemma HandleExisting_logs:
  "HandleExisting s =
     (Inr (), s\<lparr>hist := hist s @
       (if vr_state (obj s) = ValidationInProgress
        then [EvLog ''Previous validation failed with unexpected error'' []]
        else if vr_state (obj s) = ValidationFailed
        then map (\<lambda>c. EvLog ''Validation failed. Retrying.''
               [(''validation'', [c_ValidationRule c]), (''error'', [c_Message c]),
                (''details'', c_Details c), (''failures'', c_Failures c)])
             (getInvalidConditions (vr_conds (obj s)))
        else if vr_state (obj s) = ValidationSucceeded
        then [EvLog ''Previous validation succeeded. Re-validating.'' []]
        else [])\<rparr>)"
  by (simp add: HandleExisting_def go_eval go_for_log Let_def) (simp add: log_line_def go_eval Let_def go_for_log)

text \<open>
  The ValidationResult built for a validator has a slug as its name, expects as many results as
  the validator has rules, and has the validator as its controlling owner, whose API version is the
  bare version of the validator's kind, without the group.
\<close>

lemma Build_shape:
  "slug (om_Name (vr_ObjectMeta (vr_Build ut r))) \<and>
   vrs_ExpectedResults (vr_Spec (vr_Build ut r)) = vd_ResultCount r \<and>
   om_OwnerReferences (vr_ObjectMeta (vr_Build ut r)) =
     [\<lparr>or_APIVersion = vd_GVK_Version r, or_Kind = vd_GVK_Kind r, or_Name = vd_GetName r,
       or_UID = vd_GetUID r, or_Controller = Some True\<rparr>]"
  by (simp add: vr_Build_def vr_Name_def slug_sanitize empty_meta_def)

end
