(* ===== verification/Sinks.thy ===== *)
theory Sinks
  imports Runtime
begin

text \<open>
  \<^theory_text>\<open>pkg/sinks\<close>: the notification sinks (sink.go, slack.go, alertmanager.go).  All sinks of the
  process share one \<^theory_text>\<open>*http.Client\<close>, which is the process-wide \<^theory_text>\<open>http.DefaultClient\<close>; it is the
  global \<open>default_client\<close>, and a sink only records whether it holds the pointer.  The JSON encoding
  of the payload and the log lines are left out.  The lemmas give the escaping and layout of a Slack
  message, the configuration errors, what an emission sends and when it succeeds, and the interface
  that the ValidationResult controller relies on.
\<close>

section \<open>sink.go\<close>

definition ErrSinkEmissionFailed :: goerror where
  "ErrSinkEmissionFailed = errors_New ''sink emission failed''"

definition SinkTypeAlertmanager :: string where "SinkTypeAlertmanager = ''alertmanager''"
definition SinkTypeSlack :: string where "SinkTypeSlack = ''slack''"

text \<open>A Go map from strings to byte slices; reading a nil map is reading an empty one.\<close>

type_synonym sink_settings = "string \<rightharpoonup> string"

record slack_sink =
  ss_apiToken :: string
  ss_channelID :: string
  ss_client :: bool

record alertmanager_sink =
  am_client :: bool
  am_endpoint :: string
  am_username :: string
  am_password :: string

datatype sink = Alertmanager alertmanager_sink | Slack slack_sink

definition zero_slack :: slack_sink where
  "zero_slack = \<lparr>ss_apiToken = [], ss_channelID = [], ss_client = False\<rparr>"

definition zero_alertmanager :: alertmanager_sink where
  "zero_alertmanager = \<lparr>am_client = False, am_endpoint = [], am_username = [], am_password = []\<rparr>"

definition NewSink :: "string \<Rightarrow> sink" where
  "NewSink sinkType =
     (if sinkType = SinkTypeAlertmanager then Alertmanager zero_alertmanager
      else if sinkType = SinkTypeSlack then Slack zero_slack
      else Slack zero_slack)"

text \<open>\<^theory_text>\<open>NewClient\<close> sets the timeout of the shared client and returns its pointer.\<close>

definition NewClient :: "int \<Rightarrow> ('e, globals, 'o, unit) go" where
  "NewClient timeout =
     go_bind go_glob (\<lambda>g.
     go_set_glob (g\<lparr>default_client := (default_client g)\<lparr>hc_Timeout := timeout\<rparr>\<rparr>))"

section \<open>slack.go\<close>

definition slack_Configure ::
  "slack_sink \<Rightarrow> sink_settings \<Rightarrow> ('o, goerror option \<times> slack_sink) act" where
  "slack_Configure s config =
     (case config ''apiToken'' of
        None \<Rightarrow> go_return (Some (errors_New ''invalid Slack configuration: apiToken required''), s)
      | Some apiToken \<Rightarrow>
          (case config ''channelId'' of
             None \<Rightarrow> go_return (Some (errors_New ''invalid Slack configuration: channelId required''), s)
           | Some channelID \<Rightarrow>
               go_return (None, s\<lparr>ss_apiToken := apiToken, ss_channelID := channelID, ss_client := True\<rparr>)))"

text \<open>The text of \<^theory_text>\<open>newTextBlockObject\<close>; the object's other fields are constants.\<close>

definition newTextBlockObject :: "string \<Rightarrow> string" where
  "newTextBlockObject s =
     (let s = replace_all s (CHR ''&'') ''&amp;'';
          s = replace_all s (CHR ''<'') ''&lt;'';
          s = replace_all s (CHR ''>'') ''&gt;''
      in s)"

definition section_block :: "string \<Rightarrow> slack_block" where
  "section_block t = SectionBlock (newTextBlockObject t)"

fun failure_blocks :: "nat \<Rightarrow> string list \<Rightarrow> slack_block list" where
  "failure_blocks i [] = []"
| "failure_blocks i (f # fs) =
     section_block (itoa (int i + 1) @ ''. '' @ f) # failure_blocks (Suc i) fs"

definition condition_blocks :: "string \<Rightarrow> nat \<Rightarrow> validation_condition \<Rightarrow> slack_block list" where
  "condition_blocks name i c =
     [section_block (''*ValidationResult* '' @ itoa (int i + 1)),
      section_block '':information_source: Metadata'',
      section_block (''*Name:* '' @ name),
      section_block (''*Validation Type:* '' @ c_ValidationType c),
      section_block (''*Validation Rule:* '' @ c_ValidationRule c),
      section_block (''*Message:* '' @ c_Message c)]
     @ (if length (c_Details c) > 0
        then section_block '':mag_right: Details''
               # map (\<lambda>d. section_block (''- '' @ d)) (c_Details c)
        else [])
     @ (if length (c_Failures c) > 0
        then section_block '':x: Failures'' # failure_blocks 0 (c_Failures c)
        else [])
     @ [DividerBlock]"

fun conditions_blocks :: "string \<Rightarrow> nat \<Rightarrow> validation_condition list \<Rightarrow> slack_block list" where
  "conditions_blocks name i [] = []"
| "conditions_blocks name i (c # cs) =
     condition_blocks name i c @ conditions_blocks name (Suc i) cs"

definition buildSlackBlocks :: "validation_result \<Rightarrow> slack_block list" where
  "buildSlackBlocks r =
     (let state = ''*State:* '' @ vr_state r @ '' :white_check_mark:'';
          state = (if vr_state r \<noteq> ValidationSucceeded
                   then ''*State:* '' @ vr_state r @ '' :red_circle:'' else state)
      in [HeaderBlock (vrs_Plugin (vr_Spec r) @ '' Validator: '' @ om_Name (vr_ObjectMeta r)),
          section_block state, DividerBlock]
         @ conditions_blocks (om_Name (vr_ObjectMeta r)) 0 (vr_conds r))"

text \<open>A sink that was not configured has a nil HTTP client, whose use panics.\<close>

definition slack_Emit :: "env \<Rightarrow> slack_sink \<Rightarrow> validation_result \<Rightarrow> ('o, goerror option) act" where
  "slack_Emit env s r =
     (if \<not> ss_client s then go_panic NilDereference
      else
        go_bind go_glob (\<lambda>g.
        go_bind (go_call (EvSlackAuthTest (default_client g) (ss_apiToken s))
                  (\<lambda>h. e_SlackAuthTest env h (ss_apiToken s))) (\<lambda>err.
        case err of
          Some e \<Rightarrow> go_return (Some e)
        | None \<Rightarrow>
            go_bind (go_call (EvSlackPostMessage (default_client g) (ss_apiToken s) (ss_channelID s)
                                (buildSlackBlocks r))
                      (\<lambda>h. e_SlackPost env h (ss_apiToken s) (ss_channelID s) (buildSlackBlocks r))) (\<lambda>err.
            case err of Some e \<Rightarrow> go_return (Some e) | None \<Rightarrow> go_return None))))"

section \<open>alertmanager.go\<close>

definition ErrInvalidEndpoint :: goerror where
  "ErrInvalidEndpoint =
     errors_New ''invalid Alertmanager config: endpoint scheme and host are required''"

definition ErrEndpointRequired :: goerror where
  "ErrEndpointRequired = errors_New ''invalid Alertmanager config: endpoint required''"

definition ParseBool :: "env \<Rightarrow> string \<Rightarrow> goerror + bool" where
  "ParseBool env s =
     (case parse_bool s of
        Some b \<Rightarrow> Inr b
      | None \<Rightarrow> Inl (errors_New (''strconv.ParseBool: parsing '' @ e_Quote env s @ '': invalid syntax'')))"

text \<open>The certificate pool of the TLS settings; without the system's pool it starts empty.\<close>

definition ca_pool :: "env \<Rightarrow> sink_settings \<Rightarrow> ('o, cert_pool option) act" where
  "ca_pool env config =
     (case config ''caCert'' of
        None \<Rightarrow> go_return None
      | Some caCert \<Rightarrow>
          go_bind (go_call EvSystemCertPool (e_SystemCertPool env)) (\<lambda>err.
          go_return (Some \<lparr>cp_System = (err = None), cp_PEMs = [caCert]\<rparr>)))"

definition insecure_setting :: "env \<Rightarrow> sink_settings \<Rightarrow> goerror + bool" where
  "insecure_setting env config =
     (case config ''insecureSkipVerify'' of
        None \<Rightarrow> Inr False
      | Some insecure \<Rightarrow>
          (case ParseBool env insecure of
             Inl e \<Rightarrow> Inl (errors_Wrap e
               ''invalid Alertmanager config: failed to parse insecureSkipVerify'')
           | Inr b \<Rightarrow> Inr b))"

definition endpoint_setting :: "env \<Rightarrow> sink_settings \<Rightarrow> goerror + string" where
  "endpoint_setting env config =
     (case config ''endpoint'' of
        None \<Rightarrow> Inl ErrEndpointRequired
      | Some endpoint \<Rightarrow>
          (case e_url_Parse env endpoint of
             Inl e \<Rightarrow> Inl (errors_Wrap e ''invalid Alertmanager config: failed to parse endpoint'')
           | Inr u \<Rightarrow>
               if url_Scheme u = [] \<or> url_Host u = [] then Inl ErrInvalidEndpoint
               else
                 (let u = (if url_Path u \<noteq> [] then u\<lparr>url_Path := []\<rparr> else u)
                  in Inr (e_url_String env u @ ''/api/v2/alerts''))))"

definition alertmanager_Configure ::
  "env \<Rightarrow> alertmanager_sink \<Rightarrow> sink_settings \<Rightarrow> ('o, goerror option \<times> alertmanager_sink) act" where
  "alertmanager_Configure env s config =
     (case endpoint_setting env config of
        Inl e \<Rightarrow> go_return (Some e, s)
      | Inr endpoint \<Rightarrow>
          (let s = s\<lparr>am_endpoint := endpoint,
               am_username := (case config ''username'' of None \<Rightarrow> [] | Some v \<Rightarrow> v),
               am_password := (case config ''password'' of None \<Rightarrow> [] | Some v \<Rightarrow> v)\<rparr> in
           case insecure_setting env config of
             Inl e \<Rightarrow> go_return (Some e, s)
           | Inr insecureSkipVerify \<Rightarrow>
               go_bind (ca_pool env config) (\<lambda>caCertPool.
               go_bind go_glob (\<lambda>g.
               go_bind (go_set_glob (g\<lparr>default_client := (default_client g)\<lparr>hc_Transport :=
                          TLSTransport insecureSkipVerify caCertPool\<rparr>\<rparr>)) (\<lambda>_.
               go_return (None, s\<lparr>am_client := True\<rparr>))))))"

definition alert_of :: "env \<Rightarrow> validation_result \<Rightarrow> nat \<Rightarrow> validation_condition \<Rightarrow> alert" where
  "alert_of env r i c =
     \<lparr>al_Annotations =
        [''state'' \<mapsto> vr_state r, ''validation_rule'' \<mapsto> c_ValidationRule c,
         ''validation_type'' \<mapsto> c_ValidationType c, ''message'' \<mapsto> c_Message c,
         ''status'' \<mapsto> c_Status c, ''detail'' \<mapsto> join (c_Details c) ''|'',
         ''failure'' \<mapsto> join (c_Failures c) ''|'',
         ''last_validation_time'' \<mapsto> e_TimeString env (c_LastValidationTime c)],
      al_Labels =
        [''alertname'' \<mapsto> om_Name (vr_ObjectMeta r), ''plugin'' \<mapsto> vrs_Plugin (vr_Spec r),
         ''validation_result'' \<mapsto> itoa (int i + 1),
         ''expected_results'' \<mapsto> itoa (vrs_ExpectedResults (vr_Spec r))]\<rparr>"

fun alerts_from :: "env \<Rightarrow> validation_result \<Rightarrow> nat \<Rightarrow> validation_condition list \<Rightarrow> alert list" where
  "alerts_from env r i [] = []"
| "alerts_from env r i (c # cs) = alert_of env r i c # alerts_from env r (Suc i) cs"

definition basicAuthHeader :: "string \<Rightarrow> string \<Rightarrow> string \<times> string" where
  "basicAuthHeader username password =
     (''Authorization'', ''Basic '' @ b64_encode (bytes_of (username @ '':'' @ password)))"

definition alert_request :: "env \<Rightarrow> alertmanager_sink \<Rightarrow> validation_result \<Rightarrow> http_request" where
  "alert_request env s r =
     \<lparr>rq_URL = am_endpoint s, rq_Body = alerts_from env r 0 (vr_conds r),
      rq_Headers = (''Content-Type'', ''application/json'')
        # (if am_username s \<noteq> [] \<and> am_password s \<noteq> []
           then [basicAuthHeader (am_username s) (am_password s)] else [])\<rparr>"

definition alertmanager_Emit ::
  "env \<Rightarrow> alertmanager_sink \<Rightarrow> validation_result \<Rightarrow> ('o, goerror option) act" where
  "alertmanager_Emit env s r =
     (case e_NewRequest env (am_endpoint s) of
        Some e \<Rightarrow> go_return (Some e)
      | None \<Rightarrow>
          if \<not> am_client s then go_panic NilDereference
          else
            go_bind go_glob (\<lambda>g.
            go_bind (go_call (EvHTTPDo (default_client g) (alert_request env s r))
                      (\<lambda>h. e_HTTPDo env h (default_client g) (alert_request env s r))) (\<lambda>resp.
            case resp of
              Inl e \<Rightarrow> go_return (Some e)
            | Inr statusCode \<Rightarrow>
                if statusCode \<noteq> 200 then go_return (Some ErrSinkEmissionFailed)
                else go_return None)))"

section \<open>The Sink interface\<close>

definition sink_Configure ::
  "env \<Rightarrow> sink \<Rightarrow> sink_settings \<Rightarrow> ('o, goerror option \<times> sink) act" where
  "sink_Configure env k config =
     (case k of
        Alertmanager s \<Rightarrow>
          go_bind (alertmanager_Configure env s config) (\<lambda>(e, s'). go_return (e, Alertmanager s'))
      | Slack s \<Rightarrow>
          go_bind (slack_Configure s config) (\<lambda>(e, s'). go_return (e, Slack s')))"

definition sink_Emit :: "env \<Rightarrow> sink \<Rightarrow> validation_result \<Rightarrow> ('o, goerror option) act" where
  "sink_Emit env k r =
     (case k of Alertmanager s \<Rightarrow> alertmanager_Emit env s r | Slack s \<Rightarrow> slack_Emit env s r)"

section \<open>What a user of a sink relies on\<close>

text \<open>What a history looks like when its last call reached a sink.\<close>

definition sent_since :: "event list \<Rightarrow> event list \<Rightarrow> bool" where
  "sent_since h h' \<longleftrightarrow> (\<exists>es e. h' = h @ es @ [e] \<and> is_sink_event e)"

lemma sent_since_append: "sent_since (h @ es) h' \<Longrightarrow> sent_since h h'"
  unfolding sent_since_def by (metis append_assoc)

definition deliver_event :: "event \<Rightarrow> bool" where
  "deliver_event e \<longleftrightarrow> is_sink_event e \<or> e = EvSystemCertPool"

locale sink_iface =
  fixes ready :: "'k \<Rightarrow> bool"
    and configure :: "sink_settings \<Rightarrow> ('o, goerror option \<times> 'k) act"
    and emit :: "'k \<Rightarrow> validation_result \<Rightarrow> ('o, goerror option) act"
  assumes configure_local: "emits (\<lambda>e. e = EvSystemCertPool) (configure config)"
    and configure_obj: "keeps obj (configure config)"
    and configure_total: "wp (configure config) (\<lambda>(err, k) s'. err = None \<longrightarrow> ready k) s"
    and emit_local: "emits is_sink_event (emit k r)"
    and emit_obj: "keeps obj (emit k r)"
    and emit_glob: "keeps glob (emit k r)"
    and emit_total: "ready k \<Longrightarrow>
      wp (emit k r) (\<lambda>err s'. err = None \<longrightarrow> sent_since (hist s) (hist s')) s"
begin

text \<open>Configure and, if that went well, emit.\<close>

definition deliver :: "sink_settings \<Rightarrow> validation_result \<Rightarrow> ('o, goerror option) act" where
  "deliver config r =
     go_bind (configure config) (\<lambda>(err, k).
     case err of Some e \<Rightarrow> go_return (Some e) | None \<Rightarrow> emit k r)"

lemma deliver_local: "emits deliver_event (deliver config r)"
proof -
  have "emits deliver_event (configure config)"
    by (rule emits_mono [OF configure_local]) (simp add: deliver_event_def)
  moreover have "emits deliver_event (emit k r)" for k
    by (rule emits_mono [OF emit_local]) (simp add: deliver_event_def)
  ultimately show ?thesis unfolding deliver_def by (auto intro!: emits_intros)
qed

lemma deliver_obj: "keeps obj (deliver config r)"
  unfolding deliver_def by (auto intro!: frame_intros configure_obj emit_obj)

lemma deliver_total:
  "wp (deliver config r) (\<lambda>err s'. err = None \<longrightarrow> sent_since (hist s) (hist s')) s"
  unfolding deliver_def wp_bind
proof (rule wp_mono [OF wp_emits [OF configure_local configure_total]], clarify)
  fix err k es and s' :: "(event, globals, 'o) gostate"
  assume r: "err = (None :: goerror option) \<longrightarrow> ready k" and h: "hist s' = hist s @ es"
  show "wp (case err of None \<Rightarrow> emit k r | Some e \<Rightarrow> go_return (Some e))
     (\<lambda>err s'. err = None \<longrightarrow> sent_since (hist s) (hist s')) s'"
  proof (cases err)
    case None
    then have "ready k" using r by simp
    show ?thesis unfolding None option.case
      by (rule wp_mono [OF emit_total [OF \<open>ready k\<close>]]) (use h in \<open>auto intro: sent_since_append\<close>)
  qed (simp add: wp_rules)
qed

text \<open>A delivery that configures the sink with an error sends nothing.\<close>

lemma deliver_config_error:
  "configure config s = (Inr (Some e, k), s') \<Longrightarrow> deliver config r s = (Inr (Some e), s')"
  by (simp add: deliver_def go_eval)

end

lemma slack_Configure_cases:
  "slack_Configure s config = go_return (None, s\<lparr>ss_apiToken := tk, ss_channelID := ch, ss_client := True\<rparr>)"
  if "config ''apiToken'' = Some tk" "config ''channelId'' = Some ch"
  using that by (simp add: slack_Configure_def)

interpretation slack: sink_iface ss_client "slack_Configure zero_slack" "slack_Emit env"
  by unfold_locales
     (auto simp: slack_Configure_def slack_Emit_def wp_rules sent_since_def
       intro!: emits_intros frame_intros split: option.split)

interpretation alertmanager: sink_iface am_client
  "alertmanager_Configure env zero_alertmanager" "alertmanager_Emit env"
proof
  fix config r and s :: "(event, globals, 'a) gostate" and k
  show "emits (\<lambda>e. e = EvSystemCertPool) (alertmanager_Configure env zero_alertmanager config)"
    by (auto simp: alertmanager_Configure_def ca_pool_def Let_def intro!: emits_intros)
  show "keeps obj (alertmanager_Configure env zero_alertmanager config)"
    by (auto simp: alertmanager_Configure_def ca_pool_def Let_def intro!: frame_intros)
  show "wp (alertmanager_Configure env zero_alertmanager config) (\<lambda>(err, k) s'. err = None \<longrightarrow> am_client k) s"
    by (auto simp: alertmanager_Configure_def ca_pool_def Let_def wp_rules split: option.split sum.split)
  show "emits is_sink_event (alertmanager_Emit env k r)" "keeps obj (alertmanager_Emit env k r)"
    "keeps glob (alertmanager_Emit env k r)"
    by (auto simp: alertmanager_Emit_def intro!: emits_intros frame_intros)
  show "wp (alertmanager_Emit env k r) (\<lambda>err s'. err = None \<longrightarrow> sent_since (hist s) (hist s')) s"
    if "am_client k"
    using that by (auto simp: alertmanager_Emit_def wp_rules sent_since_def split: option.split sum.split)
qed

definition sink_ready :: "sink \<Rightarrow> bool" where
  "sink_ready k = (case k of Alertmanager s \<Rightarrow> am_client s | Slack s \<Rightarrow> ss_client s)"

lemma sink_ready_simps [simp]:
  "sink_ready (Alertmanager a) = am_client a" "sink_ready (Slack b) = ss_client b"
  by (simp_all add: sink_ready_def)

interpretation any_sink: sink_iface sink_ready "sink_Configure env (NewSink t)" "sink_Emit env"
proof -
  have am: "wp (alertmanager_Configure env zero_alertmanager config)
      (\<lambda>a. wp (case a of (e, s') \<Rightarrow> go_return (e, Alertmanager s'))
        (\<lambda>(err, k) s'. err = None \<longrightarrow> sink_ready k)) s" for config s
    by (rule wp_mono [OF alertmanager.configure_total]) (auto simp: wp_rules)
  have sl: "wp (slack_Configure zero_slack config)
      (\<lambda>a. wp (case a of (e, s') \<Rightarrow> go_return (e, Slack s'))
        (\<lambda>(err, k) s'. err = None \<longrightarrow> sink_ready k)) s" for config s
    by (rule wp_mono [OF slack.configure_total]) (auto simp: wp_rules)
  show "sink_iface sink_ready (sink_Configure env (NewSink t)) (sink_Emit env)"
    using alertmanager.configure_local alertmanager.configure_obj slack.configure_local slack.configure_obj
    by unfold_locales
       (auto simp: sink_Configure_def NewSink_def sink_Emit_def wp_bind am sl
         intro!: emits_intros frame_intros alertmanager.emit_local slack.emit_local
           alertmanager.emit_obj slack.emit_obj alertmanager.emit_glob slack.emit_glob
           alertmanager.emit_total slack.emit_total split: sink.split)
qed

section \<open>Slack messages\<close>

text \<open>The escaping as one pass over the text, and its inverse.\<close>

definition slack_escape_char :: "char \<Rightarrow> string" where
  "slack_escape_char c =
     (if c = CHR ''&'' then ''&amp;'' else if c = CHR ''<'' then ''&lt;''
      else if c = CHR ''>'' then ''&gt;'' else [c])"

fun slack_unescape :: "string \<Rightarrow> string" where
  "slack_unescape [] = []"
| "slack_unescape (c # cs) =
     (if has_prefix (c # cs) ''&amp;'' then CHR ''&'' # slack_unescape (drop 4 cs)
      else if has_prefix (c # cs) ''&lt;'' then CHR ''<'' # slack_unescape (drop 3 cs)
      else if has_prefix (c # cs) ''&gt;'' then CHR ''>'' # slack_unescape (drop 3 cs)
      else c # slack_unescape cs)"

lemma newTextBlockObject_one_pass:
  "newTextBlockObject s = concat (map slack_escape_char s)"
  by (induction s) (auto simp: newTextBlockObject_def slack_escape_char_def replace_all_append Let_def)

lemma slack_unescape_char: "slack_unescape (slack_escape_char c @ s) = c # slack_unescape s"
  by (simp add: slack_escape_char_def has_prefix_def)

text \<open>C36: 
  The escaping of Slack texts.  The three replacements, done one after the other, escape every
  ampersand and angle bracket exactly once: no angle bracket is left, so no text of a plugin can
  form a Slack link or mention, and unescaping gives the text back.\<close>
theorem slack_escape_roundtrip:
  "slack_unescape (newTextBlockObject s) = s \<and>
   CHR ''<'' \<notin> set (newTextBlockObject s) \<and> CHR ''>'' \<notin> set (newTextBlockObject s)"
proof (intro conjI)
  show "slack_unescape (newTextBlockObject s) = s"
    unfolding newTextBlockObject_one_pass
    by (induction s) (simp_all add: slack_unescape_char del: slack_unescape.simps(2))
  show "CHR ''<'' \<notin> set (newTextBlockObject s)" "CHR ''>'' \<notin> set (newTextBlockObject s)"
    unfolding newTextBlockObject_one_pass by (auto simp: slack_escape_char_def)
qed

text \<open>The number of blocks of a condition.\<close>

definition block_count :: "validation_condition \<Rightarrow> nat" where
  "block_count c = 7 + (if c_Details c = [] then 0 else Suc (length (c_Details c)))
     + (if c_Failures c = [] then 0 else Suc (length (c_Failures c)))"

lemma length_failure_blocks [simp]: "length (failure_blocks i fs) = length fs"
  by (induction fs arbitrary: i) auto

lemma length_condition_blocks: "length (condition_blocks name i c) = block_count c"
  by (auto simp: condition_blocks_def block_count_def)

lemma failure_blocks_nth:
  "j < length fs \<Longrightarrow> failure_blocks i fs ! j = section_block (itoa (int (i + j) + 1) @ ''. '' @ fs ! j)"
  by (induction fs arbitrary: i j) (auto simp: nth_Cons ac_simps split: nat.split)

lemma conditions_blocks_eq:
  "conditions_blocks name i cs =
     concat (map (\<lambda>j. condition_blocks name (i + j) (cs ! j)) [0..<length cs])"
proof (induction cs arbitrary: i)
  case (Cons c cs)
  have "map (\<lambda>j. condition_blocks name (i + j) ((c # cs) ! j)) [0..<length (c # cs)] =
     condition_blocks name i c # map (\<lambda>j. condition_blocks name (Suc i + j) (cs ! j)) [0..<length cs]"
    by (simp add: upt_conv_Cons flip: map_Suc_upt del: upt_Suc)
  then show ?case using Cons by simp
qed simp

lemma failures_in_message:
  "(i, j) \<in> Sigma {..<length (vr_conds r)} (\<lambda>i. {..<length (c_Failures (vr_conds r ! i))}) \<Longrightarrow>
     section_block (itoa (int j + 1) @ ''. '' @ c_Failures (vr_conds r ! i) ! j) \<in> set (buildSlackBlocks r)"
proof -
  let ?c = "vr_conds r ! i"
  assume a: "(i, j) \<in> Sigma {..<length (vr_conds r)} (\<lambda>i. {..<length (c_Failures (vr_conds r ! i))})"
  then have i: "i < length (vr_conds r)" and j: "j < length (c_Failures ?c)" by auto
  have "section_block (itoa (int j + 1) @ ''. '' @ c_Failures ?c ! j) \<in> set (failure_blocks 0 (c_Failures ?c))"
    using failure_blocks_nth [OF j, of 0] nth_mem [of j "failure_blocks 0 (c_Failures ?c)"] j by simp
  then have "section_block (itoa (int j + 1) @ ''. '' @ c_Failures ?c ! j) \<in>
      set (condition_blocks (om_Name (vr_ObjectMeta r)) i ?c)"
    using j by (auto simp: condition_blocks_def)
  then show ?thesis using i by (auto simp: buildSlackBlocks_def conditions_blocks_eq Let_def)
qed

text \<open>C32:
  The layout of a Slack message.  It has three blocks of heading, and for every condition seven
  blocks plus one per detail and per failure with a title for each group that is not empty; every
  failure of every condition is in it, numbered from one within its condition; and the green mark is
  shown exactly for a succeeded result.\<close>
theorem slack_message_layout:
  "length (buildSlackBlocks r) = 3 + sum_list (map block_count (vr_conds r)) \<and>
   (\<lambda>(i, j). section_block (itoa (int j + 1) @ ''. '' @ c_Failures (vr_conds r ! i) ! j)) `
      Sigma {..<length (vr_conds r)} (\<lambda>i. {..<length (c_Failures (vr_conds r ! i))})
     \<subseteq> set (buildSlackBlocks r) \<and>
   buildSlackBlocks r ! 1 = section_block (''*State:* '' @ vr_state r @
     (if vr_state r = ValidationSucceeded then '' :white_check_mark:'' else '' :red_circle:''))"
proof (intro conjI)
  have "length (conditions_blocks n i cs) = sum_list (map block_count cs)" for n i cs
    by (induction cs arbitrary: i) (simp_all add: length_condition_blocks)
  then show "length (buildSlackBlocks r) = 3 + sum_list (map block_count (vr_conds r))"
    by (simp add: buildSlackBlocks_def Let_def)
  show "(\<lambda>(i, j). section_block (itoa (int j + 1) @ ''. '' @ c_Failures (vr_conds r ! i) ! j)) `
      Sigma {..<length (vr_conds r)} (\<lambda>i. {..<length (c_Failures (vr_conds r ! i))})
     \<subseteq> set (buildSlackBlocks r)"
    using failures_in_message by auto
qed (simp add: buildSlackBlocks_def Let_def)

section \<open>Alertmanager\<close>

text \<open>The configurations that are accepted.\<close>

definition am_config_ok :: "env \<Rightarrow> sink_settings \<Rightarrow> bool" where
  "am_config_ok env config =
     (case endpoint_setting env config of
        Inl e \<Rightarrow> False
      | Inr ep \<Rightarrow> (case insecure_setting env config of Inl e \<Rightarrow> False | Inr b \<Rightarrow> True))"

text \<open>
  Configuring the Alertmanager sink.  A configuration is refused exactly when the endpoint is missing,
  does not parse or lacks scheme or host, or the insecure flag is no boolean; a refused one
  leaves the shared client alone.  An accepted one replaces the transport of the process-wide
  default client, whatever it was, by one with TLS settings only, so the proxy from the environment
  that \<^theory_text>\<open>NewClient\<close> means to inherit is lost, also for every other user of that client.\<close>
lemma alertmanager_Configure_transport:
  "if am_config_ok env config
   then wp (alertmanager_Configure env k config) (\<lambda>(err, k') s'. err = None \<and> am_client k' \<and>
          Inr (am_endpoint k') = endpoint_setting env config \<and>
          hc_Transport (default_client (glob s')) \<noteq> DefaultTransport \<and>
          hc_Timeout (default_client (glob s')) = hc_Timeout (default_client (glob s))) s
   else wp (alertmanager_Configure env k config) (\<lambda>(err, k') s'. err \<noteq> None \<and> s' = s) s"
  by (auto simp: am_config_ok_def alertmanager_Configure_def ca_pool_def wp_rules Let_def
      split: sum.split option.split)

lemma length_alerts_from: "length (alerts_from env r i cs) = length cs"
  by (induction cs arbitrary: i) auto

lemma alerts_from_nth: "j < length cs \<Longrightarrow> alerts_from env r i cs ! j = alert_of env r (i + j) (cs ! j)"
  by (induction cs arbitrary: i j) (auto simp: nth_Cons split: nat.split)

lemma alerts_from_map:
  "alerts_from env r 0 cs = map (\<lambda>i. alert_of env r i (cs ! i)) [0..<length cs]"
  by (rule nth_equalityI) (simp_all add: length_alerts_from alerts_from_nth)

text \<open>C27: 
  An emission to a configured Alertmanager sink whose endpoint makes a valid request sends exactly one
  request, to the endpoint, with one alert per condition numbered from one; it succeeds exactly when
  the response has status 200, and a transport error is returned as it is.\<close>
theorem alertmanager_Emit_one_request:
  assumes "am_client k" and "e_NewRequest env (am_endpoint k) = None"
  shows "\<exists>rq. rq_URL rq = am_endpoint k \<and>
     rq_Body rq = map (\<lambda>i. alert_of env r i (vr_conds r ! i)) [0..<length (vr_conds r)] \<and>
     alertmanager_Emit env k r s =
       (Inr (case e_HTTPDo env (hist s) (default_client (glob s)) rq of
               Inl e \<Rightarrow> Some e
             | Inr st \<Rightarrow> if st = 200 then None else Some ErrSinkEmissionFailed),
        s\<lparr>hist := hist s @ [EvHTTPDo (default_client (glob s)) rq]\<rparr>)"
  by (rule exI [of _ "alert_request env k r"])
     (use assms in \<open>simp add: alertmanager_Emit_def alert_request_def alerts_from_map go_eval
        split: sum.split\<close>)

theorem alertmanager_Emit_one_request_witness:
  "fst (alertmanager_Emit test_env (zero_alertmanager\<lparr>am_client := True\<rparr>) test_vr (start test_vr)) = Inr None"
proof -
  obtain rq where "alertmanager_Emit test_env (zero_alertmanager\<lparr>am_client := True\<rparr>) test_vr (start test_vr) =
     (Inr (case e_HTTPDo test_env (hist (start test_vr)) (default_client (glob (start test_vr))) rq of
               Inl e \<Rightarrow> Some e
             | Inr st \<Rightarrow> if st = 200 then None else Some ErrSinkEmissionFailed),
        (start test_vr)\<lparr>hist := hist (start test_vr) @ [EvHTTPDo (default_client (glob (start test_vr))) rq]\<rparr>)"
    using alertmanager_Emit_one_request [of "zero_alertmanager\<lparr>am_client := True\<rparr>" test_env test_vr "start test_vr"]
    by (auto simp: test_env_def)
  then show ?thesis by (simp add: test_env_def)
qed

lemma bytes_of_less: "list_all (\<lambda>b. b < 256) (bytes_of s)"
  by (auto simp: list_all_iff dest: bytes_of_lt)

text \<open>
  The basic-auth header carries the credentials: decoding the base64 text after \<^theory_text>\<open>Basic\<close> gives the
  bytes of the username, a colon and the password.\<close>
lemma basicAuthHeader_decodes:
  "fst (basicAuthHeader u p) = ''Authorization'' \<and>
   has_prefix (snd (basicAuthHeader u p)) ''Basic '' \<and>
   b64_decode (trim_prefix (snd (basicAuthHeader u p)) ''Basic '') = Some (bytes_of (u @ '':'' @ p))"
  by (simp add: basicAuthHeader_def has_prefix_def trim_prefix_def b64_decode_encode bytes_of_less)

end
