(* ===== verification/Plugin_Frequency.thy ===== *)
theory Plugin_Frequency
  imports Rule_Result "HOL-Library.Word"
begin

text \<open>
  \<^theory_text>\<open>pkg/plugins/plugin_frequency.go\<close>: the reconciliation frequency that a plugin's custom resource
  asks for.  A \<^theory_text>\<open>time.Duration\<close> is a signed 64-bit number of nanoseconds, so it is a \<open>64 word\<close> read
  with \<open>sint\<close>, and the product with \<^theory_text>\<open>time.Second\<close> wraps around.
\<close>

type_synonym duration = "64 word"

definition time_Second :: duration where
  "time_Second = 1000000000"

text \<open>\<^theory_text>\<open>ctrl.Result\<close>, of which the program sets \<^theory_text>\<open>RequeueAfter\<close> only.\<close>

record ctrl_result =
  RequeueAfter :: duration

definition FrequencyFromAnnotations :: "annotations \<Rightarrow> ctrl_result" where
  "FrequencyFromAnnotations annots =
     (let frequency =
        (case amap_get annots ReconciliationFrequencyAnnotation of
           Some secondsString \<Rightarrow>
             (case atoi secondsString of
                Inl err \<Rightarrow> time_Second * 120
              | Inr seconds \<Rightarrow> time_Second * word_of_int seconds)
         | None \<Rightarrow> time_Second * 120)
      in \<lparr>RequeueAfter = frequency\<rparr>)"

abbreviation frequency_annotation :: "string \<Rightarrow> annotations" where
  "frequency_annotation s \<equiv> Some [ReconciliationFrequencyAnnotation \<mapsto> s]"

lemma sint_word_of_int64:
  "- (2 ^ 63) \<le> i \<Longrightarrow> i < 2 ^ 63 \<Longrightarrow> sint (word_of_int i :: 64 word) = i"
  by (simp add: signed_of_int signed_take_bit_int_eq_self)

lemma frequency_atoi:
  "atoi s = Inr n \<Longrightarrow>
     RequeueAfter (FrequencyFromAnnotations (frequency_annotation s)) = word_of_int (1000000000 * n)"
  by (simp add: FrequencyFromAnnotations_def amap_get_def time_Second_def Let_def)

text \<open>
  C38: the annotation's number of seconds is the requeue interval for every number up to
  9223372036 in size, which is the largest for which the nanoseconds fit into 64 bits.
\<close>

theorem frequency_exact:
  assumes "\<bar>n\<bar> \<le> 9223372036"
  shows "sint (RequeueAfter (FrequencyFromAnnotations (frequency_annotation (itoa n)))) =
    n * 1000000000"
proof -
  have "atoi (itoa n) = Inr n" using assms by (intro atoi_itoa) auto
  moreover have "sint (word_of_int (1000000000 * n) :: 64 word) = 1000000000 * n"
    using assms by (intro sint_word_of_int64) auto
  ultimately show ?thesis by (simp add: frequency_atoi mult.commute)
qed

theorem frequency_exact_witness:
  "sint (RequeueAfter (FrequencyFromAnnotations (frequency_annotation (itoa 20)))) = 20000000000"
  using frequency_exact [of 20] by simp

text \<open>
  One second more wraps around: the largest annotation that looks valid gives a negative
  interval.
\<close>

lemma frequency_overflow:
  "sint (RequeueAfter (FrequencyFromAnnotations (frequency_annotation ''9223372037''))) =
     - 9223372036709551616"
proof -
  have "atoi ''9223372037'' = Inr 9223372037"
    by (simp add: atoi_def parse_uint_def digits_value_def has_prefix_def is_digit_def)
  then show ?thesis by (simp add: frequency_atoi)
qed

text \<open>
  Without the annotation, or with one that \<^theory_text>\<open>strconv.Atoi\<close> rejects, the interval is 120 seconds.
\<close>

lemma frequency_default:
  "amap_get annots ReconciliationFrequencyAnnotation = None \<or>
   (\<exists>s e. amap_get annots ReconciliationFrequencyAnnotation = Some s \<and> atoi s = Inl e) \<Longrightarrow>
   sint (RequeueAfter (FrequencyFromAnnotations annots)) = 120 * 10 ^ 9"
  by (auto simp: FrequencyFromAnnotations_def time_Second_def)

lemma frequency_default_witness:
  "sint (RequeueAfter (FrequencyFromAnnotations (frequency_annotation ''nonint''))) = 120 * 10 ^ 9"
proof (rule frequency_default)
  have "atoi ''nonint'' = Inl ErrSyntax"
    by (simp add: atoi_def parse_uint_def has_prefix_def is_digit_def)
  then show "amap_get (frequency_annotation ''nonint'') ReconciliationFrequencyAnnotation = None \<or>
    (\<exists>s e. amap_get (frequency_annotation ''nonint'') ReconciliationFrequencyAnnotation = Some s \<and>
       atoi s = Inl e)"
    by (simp add: amap_get_def)
qed

end
