(* ===== verification/VR_Controller.thy ===== *)
theory VR_Controller
  imports Sinks Plugin_Frequency Keyed_List
begin

text \<open>
  \<^theory_text>\<open>internal/controller/validationresult_controller.go\<close>: the controller that sends a finished
  ValidationResult to the configured sink.  The ValidationResult behind the pointer is the \<open>obj\<close> of
  the state; the reconciler's own log lines are left out.  The lemmas give the exact condition of an
  emission, what is patched back, that one hash is emitted at most once, and that every error
  reaches the caller or the condition.
\<close>

section \<open>State and helpers\<close>

definition ValidationResultHash :: string where
  "ValidationResultHash = ''validator/validation-result-hash''"

definition getConditionByType ::
  "cluster_condition list \<Rightarrow> string \<Rightarrow> int \<times> cluster_condition" where
  "getConditionByType conditions conditionType =
     (let i = range_index (\<lambda>c. cc_Type c = conditionType) 0 conditions
      in (i, if i = -1 then zero_cluster_condition else conditions ! nat i))"

definition patchValidationResult ::
  "env \<Rightarrow> validation_result \<Rightarrow> (validation_result, goerror option) act" where
  "patchValidationResult env before =
     go_bind go_obj (\<lambda>vr.
     go_call (EvPatchVR before vr [SinkEmission]) (\<lambda>h. e_PatchVR env h before vr))"

section \<open>emitToSink\<close>

definition emitToSink ::
  "env \<Rightarrow> string \<Rightarrow> sink_config \<Rightarrow> validation_result \<Rightarrow>
     (validation_result, string \<times> goerror option) act" where
  "emitToSink env namespace sk vr =
     (let sink = NewSink (sk_Type sk) in
      go_bind
        (if sk_SecretName sk \<noteq> [] then
           go_bind (get_secret env (namespace, sk_SecretName sk)) (\<lambda>got.
           case got of
             Inl e \<Rightarrow> go_return (Inl e)
           | Inr sinkSecret \<Rightarrow> go_return (Inr (sec_Data sinkSecret)))
         else go_return (Inr Map.empty)) (\<lambda>config.
      case config of
        Inl e \<Rightarrow> go_return (SinkEmitFailed, Some e)
      | Inr sinkConfig \<Rightarrow>
          go_bind (sink_Configure env sink sinkConfig) (\<lambda>(cerr, sink).
          case cerr of
            Some e \<Rightarrow> go_return (SinkEmitFailed, Some e)
          | None \<Rightarrow>
              go_bind (sink_Emit env sink vr) (\<lambda>eerr.
              case eerr of
                Some e \<Rightarrow> go_return (SinkEmitFailed, Some e)
              | None \<Rightarrow> go_return (SinkEmitSucceeded, None)))))"

section \<open>Reconcile\<close>

definition requeue_30s :: ctrl_result where
  "requeue_30s = \<lparr>RequeueAfter = time_Second * 30\<rparr>"

definition no_requeue :: ctrl_result where
  "no_requeue = \<lparr>RequeueAfter = 0\<rparr>"

definition vr_complete :: "validation_result \<Rightarrow> bool" where
  "vr_complete vr \<longleftrightarrow> vr_state vr = ValidationFailed \<or> vr_state vr = ValidationSucceeded"

text \<open>The annotations of the result as \<open>prevHash, ok\<close>.\<close>

definition prev_hash :: "validation_result \<Rightarrow> string option" where
  "prev_hash vr = amap_get (om_Annotations (vr_ObjectMeta vr)) ValidationResultHash"

definition emit_due :: "validator_config \<Rightarrow> validation_result \<Rightarrow> string \<Rightarrow> bool" where
  "emit_due vc vr currHash \<longleftrightarrow>
     vcs_Sink (vc_Spec vc) \<noteq> None \<and>
     int (length (vr_conds vr)) = vrs_ExpectedResults (vr_Spec vr) \<and>
     (case prev_hash vr of None \<Rightarrow> True | Some h \<Rightarrow> h \<noteq> currHash)"

definition set_hash_annotation :: "string \<Rightarrow> validation_result \<Rightarrow> validation_result" where
  "set_hash_annotation currHash vr =
     vr_set_annotations
       (Some ((case om_Annotations (vr_ObjectMeta vr) of None \<Rightarrow> Map.empty | Some m \<Rightarrow> m)
          (ValidationResultHash \<mapsto> currHash))) vr"

text \<open>The emission of a complete result, if it is due; it returns the new sink condition.\<close>

definition vr_emit_step ::
  "env \<Rightarrow> string \<Rightarrow> validator_config \<Rightarrow> validation_result \<Rightarrow> string \<Rightarrow> cluster_condition \<Rightarrow>
     (validation_result, cluster_condition) act" where
  "vr_emit_step env namespace vc vr currHash sinkCondition =
     (if vr_complete vr then
        (case vcs_Sink (vc_Spec vc) of
           None \<Rightarrow> go_return sinkCondition
         | Some sk \<Rightarrow>
             if emit_due vc vr currHash then
               go_bind (emitToSink env namespace sk vr) (\<lambda>(sinkState, err).
               let sinkCondition =
                 (case err of None \<Rightarrow> sinkCondition | Some e \<Rightarrow> sinkCondition\<lparr>cc_Message := err_text e\<rparr>)
               in go_return (sinkCondition\<lparr>cc_Reason := sinkState\<rparr>))
             else go_return sinkCondition)
      else go_return sinkCondition)"

text \<open>The rest of \<^theory_text>\<open>Reconcile\<close> once the deferred patch is set up.\<close>

definition vr_reconcile_body ::
  "env \<Rightarrow> string \<Rightarrow> validator_config \<Rightarrow> string \<Rightarrow> int \<Rightarrow> cluster_condition \<Rightarrow>
     (validation_result, ctrl_result \<times> goerror option) act" where
  "vr_reconcile_body env namespace vc currHash sinkConditionIdx sinkCondition =
     go_bind go_obj (\<lambda>vr.
     go_bind (vr_emit_step env namespace vc vr currHash sinkCondition) (\<lambda>sinkCondition.
     go_bind
       (if (case prev_hash vr of None \<Rightarrow> [] | Some h \<Rightarrow> h) \<noteq> currHash
        then go_modify (set_hash_annotation currHash)
        else go_return ()) (\<lambda>_.
     go_bind (go_modify (\<lambda>vr. vr_set_conditions
        (upsert_at sinkConditionIdx sinkCondition (st_Conditions (vr_Status vr))) vr)) (\<lambda>_.
     go_return (requeue_30s, None)))))"

definition vr_reconcile_patched ::
  "env \<Rightarrow> string \<Rightarrow> validator_config \<Rightarrow> validation_result \<Rightarrow>
     (validation_result, ctrl_result \<times> goerror option) act" where
  "vr_reconcile_patched env namespace vc vr =
     (let currHash = vr_Hash vr;
          (sinkConditionIdx, sinkCondition) = getConditionByType (st_Conditions (vr_Status vr)) SinkEmission
      in
      go_bind
        (if sinkConditionIdx = -1 then
           go_bind (time_Now env) (\<lambda>now.
           go_return (sinkCondition\<lparr>cc_Type := SinkEmission, cc_Reason := SinkEmitNA,
             cc_Status := ConditionTrue, cc_LastTransitionTime := now\<rparr>))
         else go_return sinkCondition) (\<lambda>sinkCondition.
      go_defer (no_requeue, None)
        (vr_reconcile_body env namespace vc currHash sinkConditionIdx sinkCondition)
        (\<lambda>(res, reterr).
           go_bind (patchValidationResult env vr) (\<lambda>perr.
           case perr of
             Some e \<Rightarrow> go_return (res, if reterr = None then Some e else reterr)
           | None \<Rightarrow> go_return (res, reterr)))))"

definition vr_Reconcile ::
  "env \<Rightarrow> string \<Rightarrow> nsname \<Rightarrow> (validation_result, ctrl_result \<times> goerror option) act" where
  "vr_Reconcile env namespace req =
     go_bind (go_call (EvGetVC (namespace, ValidatorConfigName))
        (\<lambda>h. e_GetVC env h (namespace, ValidatorConfigName))) (\<lambda>gotvc.
     case gotvc of
       Inl e \<Rightarrow> go_return (no_requeue, ignore_not_found e)
     | Inr vc \<Rightarrow>
         go_bind (go_call (EvGetVR req) (\<lambda>h. e_GetVR env h req)) (\<lambda>gotvr.
         case gotvr of
           Inl e \<Rightarrow> go_return (no_requeue, ignore_not_found e)
         | Inr vr \<Rightarrow>
             go_bind (go_set vr) (\<lambda>_.
             go_bind (go_call (EvNewPatchHelper (om_Namespace (vr_ObjectMeta vr), om_Name (vr_ObjectMeta vr)))
                (\<lambda>h. e_NewPatchHelper env h (om_Namespace (vr_ObjectMeta vr), om_Name (vr_ObjectMeta vr)))) (\<lambda>perr.
             case perr of
               Some e \<Rightarrow> go_return (no_requeue, Some (errors_Wrap e
                 (''failed to create patch helper for ValidationResult '' @ om_Name (vr_ObjectMeta vr))))
             | None \<Rightarrow> vr_reconcile_patched env namespace vc vr))))"

section \<open>Lemmas on the parts\<close>

interpretation type_index: keyed_upsert
  "\<lambda>k cs. fst (getConditionByType cs k)" "\<lambda>k c. cc_Type c = k" cc_Type
  by unfold_locales
    (simp_all add: getConditionByType_def range_index_Cons Let_def del: range_index.simps(2))

lemma getConditionByType_snd:
  "fst (getConditionByType cs k) \<noteq> -1 \<Longrightarrow> cc_Type (snd (getConditionByType cs k)) = k"
  using type_index.idx_hit [of cs k] by (simp add: getConditionByType_def Let_def)

text \<open>\<open>emitToSink\<close> is a delivery of the sink interface, after the secret has been read.\<close>

lemma emitToSink_deliver:
  "emitToSink env namespace sk vr =
     go_bind
       (if sk_SecretName sk \<noteq> [] then
          go_bind (get_secret env (namespace, sk_SecretName sk)) (\<lambda>got.
            go_return (map_sum id sec_Data got))
        else go_return (Inr Map.empty)) (\<lambda>config.
     case config of
       Inl e \<Rightarrow> go_return (SinkEmitFailed, Some e)
     | Inr c \<Rightarrow>
         go_bind (any_sink.deliver env (sk_Type sk) c vr) (\<lambda>err.
           go_return (if err = None then SinkEmitSucceeded else SinkEmitFailed, err)))"
proof -
  have "case_sum (\<lambda>e. go_return (Inl e)) (\<lambda>s :: secret. go_return (Inr (sec_Data s))) =
      (\<lambda>got. go_return (map_sum id sec_Data got) :: (validation_result, goerror + sink_settings) act)"
    by (simp add: fun_eq_iff split: sum.split)
  moreover have "go_bind (sink_Configure env (NewSink (sk_Type sk)) c) (\<lambda>(cerr, sink).
          case cerr of
            Some e \<Rightarrow> go_return (SinkEmitFailed, Some e)
          | None \<Rightarrow>
              go_bind (sink_Emit env sink vr) (\<lambda>eerr.
              case eerr of
                Some e \<Rightarrow> go_return (SinkEmitFailed, Some e)
              | None \<Rightarrow> go_return (SinkEmitSucceeded, None))) =
      go_bind (any_sink.deliver env (sk_Type sk) c vr) (\<lambda>err.
           go_return (if err = None then SinkEmitSucceeded else SinkEmitFailed, err) ::
             (validation_result, string \<times> goerror option) act)" for c
    unfolding any_sink.deliver_def go_bind_assoc
    by (rule arg_cong [of _ _ "go_bind (sink_Configure env (NewSink (sk_Type sk)) c)"])
       (auto simp: fun_eq_iff go_eval split: option.splits prod.splits sum.splits)
  ultimately show ?thesis by (simp add: emitToSink_def Let_def)
qed

definition emission_event :: "event \<Rightarrow> bool" where
  "emission_event e \<longleftrightarrow> deliver_event e \<or> (\<exists>k. e = EvGetSecret k)"

lemma emitToSink_local: "emits emission_event (emitToSink env namespace sk vr)"
  unfolding emitToSink_deliver
  by (auto simp: get_secret_def emission_event_def
      intro!: emits_intros emits_mono [OF any_sink.deliver_local])

lemma emitToSink_obj: "keeps obj (emitToSink env namespace sk vr)"
  unfolding emitToSink_deliver
  by (auto simp: get_secret_def intro!: frame_intros any_sink.deliver_obj)

lemma emitToSink_total:
  "wp (emitToSink env namespace sk vr)
     (\<lambda>(st, err) s'. st = (if err = None then SinkEmitSucceeded else SinkEmitFailed) \<and>
        (err = None \<longrightarrow> sent_since (hist s) (hist s'))) s"
proof -
  have d: "wp (any_sink.deliver env t c vr) (\<lambda>err s'. wp (go_return (f err, err)) Q s') s1"
    if "\<And>err s'. (err = None \<longrightarrow> sent_since (hist s1) (hist s')) \<Longrightarrow> Q (f err, err) s'"
    for t c f Q and s1 :: "(event, globals, validation_result) gostate"
    by (rule wp_mono [OF any_sink.deliver_total]) (simp add: wp_rules that)
  show ?thesis unfolding emitToSink_deliver
    by (auto simp: wp_bind wp_if wp_return wp_call wp_case_sum get_secret_def
        split: sum.split intro!: d intro: sent_since_append)
qed

section \<open>The normal path\<close>

definition should_emit :: "validator_config \<Rightarrow> validation_result \<Rightarrow> bool" where
  "should_emit vc vr \<longleftrightarrow> vr_complete vr \<and> emit_due vc vr (vr_Hash vr)"

text \<open>The object after the hash and the sink condition have been written.\<close>

definition sink_written :: "validation_result \<Rightarrow> cluster_condition \<Rightarrow> validation_result" where
  "sink_written vr c =
     vr_set_conditions
       (upsert_at (fst (getConditionByType (st_Conditions (vr_Status vr)) SinkEmission)) c
          (st_Conditions (vr_Status vr)))
       (set_hash_annotation (vr_Hash vr) vr)"

lemma vr_Hash_nonempty: "vr_Hash vr \<noteq> []"
  by (simp add: vr_Hash_def md5_b64_nonempty)

lemma set_hash_annotation_same:
  assumes "(case prev_hash vr of None \<Rightarrow> [] | Some h \<Rightarrow> h) = vr_Hash vr"
  shows "set_hash_annotation (vr_Hash vr) vr = vr"
proof -
  from assms have "prev_hash vr = Some (vr_Hash vr)"
    using vr_Hash_nonempty [of vr] by (cases "prev_hash vr") auto
  then obtain m where "om_Annotations (vr_ObjectMeta vr) = Some m" "m ValidationResultHash = Some (vr_Hash vr)"
    by (auto simp: prev_hash_def amap_get_def split: option.splits)
  moreover from this(2) have "m(ValidationResultHash \<mapsto> vr_Hash vr) = m" by auto
  ultimately show ?thesis
    by (simp add: set_hash_annotation_def vr_set_annotations_def)
qed

text \<open>The sink condition after an emission that ended with \<open>err\<close>.\<close>

definition emitted_condition :: "goerror option \<Rightarrow> cluster_condition \<Rightarrow> cluster_condition" where
  "emitted_condition err c =
     (case err of
        None \<Rightarrow> c\<lparr>cc_Reason := SinkEmitSucceeded\<rparr>
      | Some e \<Rightarrow> c\<lparr>cc_Message := err_text e, cc_Reason := SinkEmitFailed\<rparr>)"

text \<open>What may have become of the sink condition \<open>c\<close> during the events \<open>es\<close>.\<close>

definition sink_outcome ::
  "bool \<Rightarrow> cluster_condition \<Rightarrow> cluster_condition \<Rightarrow> event list \<Rightarrow> event list \<Rightarrow> bool" where
  "sink_outcome due c c' h h' \<longleftrightarrow>
     (if due then \<exists>err. c' = emitted_condition err c \<and> (err = None \<longrightarrow> sent_since h h')
      else c' = c \<and> h' = h)"

lemma emit_step_run:
  "wp (vr_emit_step env ns vc vr (vr_Hash vr) c)
     (\<lambda>c' s'. sink_outcome (should_emit vc vr) c c' (hist s) (hist s')) s"
proof (cases "should_emit vc vr")
  case True
  then obtain sk where sk: "vcs_Sink (vc_Spec vc) = Some sk" "vr_complete vr" "emit_due vc vr (vr_Hash vr)"
    by (auto simp: should_emit_def emit_due_def)
  show ?thesis unfolding vr_emit_step_def
    by (simp add: sk True wp_bind)
       (rule wp_mono [OF emitToSink_total],
        auto simp: wp_rules Let_def sink_outcome_def emitted_condition_def split: option.splits)
next
  case False
  then show ?thesis
    by (auto simp: vr_emit_step_def should_emit_def sink_outcome_def wp_rules split: option.split)
qed

lemma emit_step_local: "emits emission_event (vr_emit_step env ns vc vr h c)"
  unfolding vr_emit_step_def Let_def by (auto intro!: emits_intros emitToSink_local)

lemma emit_step_obj: "keeps obj (vr_emit_step env ns vc vr h c)"
  unfolding vr_emit_step_def Let_def by (auto intro!: frame_intros emitToSink_obj)

text \<open>\<open>c\<close> is what becomes of \<open>c0\<close>; the events are the emission's.\<close>

definition body_post ::
  "validator_config \<Rightarrow> validation_result \<Rightarrow> cluster_condition \<Rightarrow> event list \<Rightarrow>
     (event, globals, validation_result) gostate \<Rightarrow> bool" where
  "body_post vc vr c h s' \<longleftrightarrow>
     (\<exists>es c'. hist s' = h @ es \<and> list_all emission_event es \<and> obj s' = sink_written vr c' \<and>
        sink_outcome (should_emit vc vr) c c' h (hist s'))"

lemma body_run:
  assumes obj: "obj s = vr" and idx: "idx = fst (getConditionByType (st_Conditions (vr_Status vr)) SinkEmission)"
  shows "wp (vr_reconcile_body env ns vc (vr_Hash vr) idx c)
     (\<lambda>r s'. r = (requeue_30s, None) \<and> body_post vc vr c (hist s) s') s"
  unfolding vr_reconcile_body_def wp_bind wp_obj obj
proof (rule wp_mono [OF wp_keeps [OF emit_step_obj wp_emits [OF emit_step_local emit_step_run]]], clarify)
  fix c' es and s1 :: "(event, globals, validation_result) gostate"
  assume "sink_outcome (should_emit vc vr) c c' (hist s) (hist s1)" "obj s1 = obj s"
    "hist s1 = hist s @ es" "list_all emission_event es"
  then show "wp (if (case prev_hash vr of None \<Rightarrow> [] | Some h \<Rightarrow> h) \<noteq> vr_Hash vr
        then go_modify (set_hash_annotation (vr_Hash vr)) else go_return ())
     (\<lambda>a. wp (go_modify (\<lambda>vr. vr_set_conditions (upsert_at idx c' (st_Conditions (vr_Status vr))) vr))
        (\<lambda>a. wp (go_return (requeue_30s, None))
          (\<lambda>r s'. r = (requeue_30s, None) \<and> body_post vc vr c (hist s) s'))) s1"
    using obj set_hash_annotation_same [of vr]
    by (auto simp: wp_rules idx body_post_def sink_written_def set_hash_annotation_def split: if_splits)
qed

text \<open>The condition the emission starts from: the stored one, or a fresh one.\<close>

definition initial_condition :: "validation_result \<Rightarrow> cluster_condition \<Rightarrow> bool" where
  "initial_condition vr c \<longleftrightarrow> cc_Type c = SinkEmission \<and>
     (case keyed_lookup cc_Type (st_Conditions (vr_Status vr)) SinkEmission of
        None \<Rightarrow> cc_Reason c = SinkEmitNA \<and> cc_Status c = ConditionTrue \<and> cc_Message c = []
      | Some c0 \<Rightarrow> c = c0)"

definition now_event :: "event \<Rightarrow> bool" where
  "now_event e \<longleftrightarrow> e = EvNow \<or> emission_event e"

definition normal_post ::
  "env \<Rightarrow> validator_config \<Rightarrow> validation_result \<Rightarrow> event list \<Rightarrow> ctrl_result \<times> goerror option \<Rightarrow>
     (event, globals, validation_result) gostate \<Rightarrow> bool" where
  "normal_post env vc vr h r s' \<longleftrightarrow>
     (\<exists>pre es c0 c. list_all (\<lambda>e. e = EvNow) pre \<and> list_all emission_event es \<and>
        initial_condition vr c0 \<and> sink_outcome (should_emit vc vr) c0 c (h @ pre) (h @ pre @ es) \<and>
        obj s' = sink_written vr c \<and>
        hist s' = h @ pre @ es @ [EvPatchVR vr (obj s') [SinkEmission]] \<and>
        r = (requeue_30s, e_PatchVR env (h @ pre @ es) vr (obj s')))"

lemma patch_run:
  assumes "body_post vc vr c0 (h @ pre) s1" and "list_all (\<lambda>e. e = EvNow) pre" and "initial_condition vr c0"
  shows "wp (go_bind (patchValidationResult env vr) (\<lambda>perr.
           case perr of
             Some e \<Rightarrow> go_return (requeue_30s, if (None :: goerror option) = None then Some e else None)
           | None \<Rightarrow> go_return (requeue_30s, None))) (normal_post env vc vr h) s1"
proof -
  obtain es c where h: "hist s1 = (h @ pre) @ es" and es: "list_all emission_event es"
    and o1: "obj s1 = sink_written vr c"
    and so: "sink_outcome (should_emit vc vr) c0 c (h @ pre) (hist s1)"
    using assms(1) by (auto simp: body_post_def)
  define s2 where "s2 = s1\<lparr>hist := hist s1 @ [EvPatchVR vr (obj s1) [SinkEmission]]\<rparr>"
  have "normal_post env vc vr h (requeue_30s, e_PatchVR env (hist s1) vr (obj s1)) s2"
    unfolding normal_post_def s2_def
    using h es o1 so assms(2,3) by (intro exI [of _ pre] exI [of _ es] exI [of _ c0] exI [of _ c]) simp
  then show ?thesis
    by (auto simp: patchValidationResult_def wp_rules s2_def split: option.split)
qed

text \<open>What holds of the body from every initial condition holds of the reconciliation.\<close>

lemma patched_by:
  assumes obj: "obj s = vr"
    and run: "\<And>pre c0. list_all (\<lambda>e. e = EvNow) pre \<Longrightarrow> initial_condition vr c0 \<Longrightarrow>
      wp (go_defer (no_requeue, None)
        (vr_reconcile_body env ns vc (vr_Hash vr) (fst (getConditionByType (st_Conditions (vr_Status vr)) SinkEmission)) c0)
        (\<lambda>(res, reterr). go_bind (patchValidationResult env vr) (\<lambda>perr.
           case perr of
             Some e \<Rightarrow> go_return (res, if reterr = None then Some e else reterr)
           | None \<Rightarrow> go_return (res, reterr)))) Q (s\<lparr>hist := hist s @ pre\<rparr>)"
  shows "wp (vr_reconcile_patched env ns vc vr) Q s"
proof -
  obtain idx c where ic: "getConditionByType (st_Conditions (vr_Status vr)) SinkEmission = (idx, c)"
    by fastforce
  have lookup: "keyed_lookup cc_Type (st_Conditions (vr_Status vr)) SinkEmission =
      (if idx = -1 then None else Some c)"
    using type_index.lookup_idx [of "st_Conditions (vr_Status vr)" SinkEmission] ic
    by (auto simp: getConditionByType_def Let_def)
  show ?thesis
  proof (cases "idx = -1")
    case True
    then have init: "initial_condition vr (c\<lparr>cc_Type := SinkEmission, cc_Reason := SinkEmitNA,
        cc_Status := ConditionTrue, cc_LastTransitionTime := t\<rparr>)" for t
      using ic lookup by (auto simp: initial_condition_def getConditionByType_def Let_def zero_cluster_condition_def)
    then show ?thesis
      unfolding vr_reconcile_patched_def Let_def ic prod.case
      using run [of "[EvNow]", OF _ init] True ic by (simp add: wp_bind wp_return wp_call time_Now_def)
  next
    case False
    then have init: "initial_condition vr c"
      using getConditionByType_snd [of "st_Conditions (vr_Status vr)" SinkEmission] ic lookup
      by (simp add: initial_condition_def)
    then show ?thesis
      unfolding vr_reconcile_patched_def Let_def ic prod.case
      using run [of "[]", OF _ init] False ic by (simp add: wp_bind wp_return)
  qed
qed

lemma patched_run:
  assumes obj: "obj s = vr"
  shows "wp (vr_reconcile_patched env ns vc vr) (normal_post env vc vr (hist s)) s"
proof (rule patched_by [OF obj], unfold wp_defer)
  fix pre c0
  assume pre: "list_all (\<lambda>e. e = EvNow) pre" "initial_condition vr c0"
  let ?s = "s\<lparr>hist := hist s @ pre\<rparr>"
  have o1: "obj ?s = vr" using obj by simp
  show "wp (vr_reconcile_body env ns vc (vr_Hash vr) (fst (getConditionByType (st_Conditions (vr_Status vr)) SinkEmission)) c0)
     (\<lambda>a. wp (case a of (res, reterr) \<Rightarrow> go_bind (patchValidationResult env vr) (\<lambda>perr.
           case perr of
             Some e \<Rightarrow> go_return (res, if reterr = None then Some e else reterr)
           | None \<Rightarrow> go_return (res, reterr))) (normal_post env vc vr (hist s))) ?s"
    by (rule wp_mono [OF body_run [OF o1 refl]]) (use patch_run [of vc vr c0 "hist s" pre _ env] pre in auto)
qed

text \<open>The three calls before the normal path.\<close>

definition vc_key :: "string \<Rightarrow> nsname" where
  "vc_key ns = (ns, ValidatorConfigName)"

definition vr_key :: "validation_result \<Rightarrow> nsname" where
  "vr_key vr = (om_Namespace (vr_ObjectMeta vr), om_Name (vr_ObjectMeta vr))"

definition fetched ::
  "env \<Rightarrow> string \<Rightarrow> nsname \<Rightarrow> event list \<Rightarrow> validator_config \<Rightarrow> validation_result \<Rightarrow> bool" where
  "fetched env ns req h vc vr \<longleftrightarrow>
     e_GetVC env h (vc_key ns) = Inr vc \<and>
     e_GetVR env (h @ [EvGetVC (vc_key ns)]) req = Inr vr \<and>
     e_NewPatchHelper env (h @ [EvGetVC (vc_key ns), EvGetVR req]) (vr_key vr) = None"

definition fetch_events :: "string \<Rightarrow> nsname \<Rightarrow> validation_result \<Rightarrow> event list" where
  "fetch_events ns req vr = [EvGetVC (vc_key ns), EvGetVR req, EvNewPatchHelper (vr_key vr)]"

lemma reconcile_normal:
  assumes "fetched env ns req (hist s) vc vr"
  shows "wp (vr_Reconcile env ns req) (normal_post env vc vr (hist s @ fetch_events ns req vr)) s"
  using assms patched_run [of "s\<lparr>obj := vr, hist := hist s @ fetch_events ns req vr\<rparr>" vr env ns vc]
  by (simp add: vr_Reconcile_def wp_rules fetched_def fetch_events_def vc_key_def vr_key_def)

lemma reconcile_cases:
  "(\<exists>vc vr. fetched env ns req (hist s) vc vr) \<or>
     wp (vr_Reconcile env ns req) (\<lambda>r s'. \<exists>es. hist s' = hist s @ es \<and>
       list_all (\<lambda>e. \<not> is_sink_event e \<and> \<not> is_api_write e) es) s"
  by (auto simp: vr_Reconcile_def wp_rules fetched_def vc_key_def vr_key_def split: sum.split option.split)

section \<open>Properties\<close>

lemma emission_event_no_write: "emission_event e \<Longrightarrow> \<not> is_api_write e"
  by (cases e) (auto simp: emission_event_def deliver_event_def)

lemma sink_outcome_quiet:
  "sink_outcome False c0 c h (h @ es) \<Longrightarrow> es = [] \<and> c = c0"
  by (simp add: sink_outcome_def)

lemma normal_post_events:
  assumes "normal_post env vc vr h r s'"
  shows "\<exists>es. hist s' = h @ es @ [EvPatchVR vr (obj s') [SinkEmission]] \<and>
     list_all (\<lambda>e. \<not> is_api_write e) es \<and>
     (should_emit vc vr \<or> list_all (\<lambda>e. \<not> is_sink_event e) es) \<and>
     r = (requeue_30s, e_PatchVR env (h @ es) vr (obj s'))"
proof -
  obtain pre es c0 c where pre: "list_all (\<lambda>e. e = EvNow) pre" and es: "list_all emission_event es"
    and so: "sink_outcome (should_emit vc vr) c0 c (h @ pre) (h @ pre @ es)"
    and hs: "hist s' = h @ pre @ es @ [EvPatchVR vr (obj s') [SinkEmission]]"
    and r: "r = (requeue_30s, e_PatchVR env (h @ pre @ es) vr (obj s'))"
    using assms by (auto simp: normal_post_def)
  have "list_all (\<lambda>e. \<not> is_api_write e) (pre @ es)" "list_all (\<lambda>e. \<not> is_sink_event e) pre"
    using pre es by (auto simp: list_all_iff emission_event_no_write)
  moreover have "es = []" if "\<not> should_emit vc vr"
    using so that sink_outcome_quiet [of c0 c "h @ pre" es] by simp
  ultimately show ?thesis using hs r
    by (intro exI [of _ "pre @ es"]) (cases "should_emit vc vr"; auto)
qed

text \<open>
  Whether an emission is due for a request, from what the API server answers, written out without
  the model's own tests.
\<close>

definition due_for :: "validator_config \<Rightarrow> validation_result \<Rightarrow> bool" where
  "due_for vc vr \<longleftrightarrow>
     vcs_Sink (vc_Spec vc) \<noteq> None \<and>
     (st_State (vr_Status vr) = ''Failed'' \<or> st_State (vr_Status vr) = ''Succeeded'') \<and>
     int (length (st_ValidationConditions (vr_Status vr))) = vrs_ExpectedResults (vr_Spec vr) \<and>
     (case om_Annotations (vr_ObjectMeta vr) of
        None \<Rightarrow> True
      | Some m \<Rightarrow> m ''validator/validation-result-hash'' \<noteq> Some (vr_Hash vr))"

definition emission_due :: "env \<Rightarrow> string \<Rightarrow> nsname \<Rightarrow> event list \<Rightarrow> bool" where
  "emission_due env ns req h =
     (case e_GetVC env h (vc_key ns) of
        Inl e \<Rightarrow> False
      | Inr vc \<Rightarrow>
          (case e_GetVR env (h @ [EvGetVC (vc_key ns)]) req of
             Inl e \<Rightarrow> False
           | Inr vr \<Rightarrow> due_for vc vr))"

lemma should_emit_due: "should_emit vc vr = due_for vc vr"
  by (auto simp: should_emit_def due_for_def vr_complete_def emit_due_def prev_hash_def amap_get_def
      ValidationFailed_def ValidationSucceeded_def ValidationResultHash_def split: option.splits)

definition no_sink :: "event list \<Rightarrow> bool" where
  "no_sink es = list_all (\<lambda>e. \<not> is_sink_event e) es"

lemma no_sink_simps [simp]:
  "no_sink []" "no_sink (e # es) \<longleftrightarrow> \<not> is_sink_event e \<and> no_sink es"
  "no_sink (es @ es') \<longleftrightarrow> no_sink es \<and> no_sink es'"
  by (auto simp: no_sink_def)

text \<open>C1: 
  Reconcile always returns, without a panic, whatever the environment answers; and it sends nothing to
  a sink unless the result is complete, a sink is configured, the number of conditions is the
  expected one, and the hash of the result is not the one recorded in the annotation.\<close>
theorem vr_Reconcile_emits_only_when_due:
  "wp (vr_Reconcile env ns req) (\<lambda>r s'. \<exists>es. hist s' = hist s @ es \<and>
     (emission_due env ns req (hist s) \<or> no_sink es)) s"
proof (cases "\<exists>vc vr. fetched env ns req (hist s) vc vr")
  case True
  then obtain vc vr where f: "fetched env ns req (hist s) vc vr" by blast
  then have due: "emission_due env ns req (hist s) = should_emit vc vr"
    by (simp add: emission_due_def fetched_def should_emit_due)
  show ?thesis
  proof (rule wp_mono [OF reconcile_normal [OF f]])
    fix r s'
    assume "normal_post env vc vr (hist s @ fetch_events ns req vr) r s'"
    from normal_post_events [OF this] show "\<exists>es. hist s' = hist s @ es \<and>
       (emission_due env ns req (hist s) \<or> no_sink es)"
      unfolding due no_sink_def by (auto simp: fetch_events_def)
  qed
next
  case False
  then have "wp (vr_Reconcile env ns req) (\<lambda>r s'. \<exists>es. hist s' = hist s @ es \<and>
       list_all (\<lambda>e. \<not> is_sink_event e \<and> \<not> is_api_write e) es) s"
    using reconcile_cases [of env ns req s] by blast
  then show ?thesis
    by (rule wp_mono) (auto simp: no_sink_def list_all_iff)
qed

lemma sink_written_view:
  "vr_Spec (sink_written vr c) = vr_Spec vr" "vr_state (sink_written vr c) = vr_state vr"
  "vr_conds (sink_written vr c) = vr_conds vr" "vr_Hash (sink_written vr c) = vr_Hash vr"
  "prev_hash (sink_written vr c) = Some (vr_Hash vr)"
  by (auto simp: sink_written_def set_hash_annotation_def prev_hash_def amap_get_def intro!: hash_view_cong)

lemma sink_written_lookup:
  "cc_Type c = SinkEmission \<Longrightarrow>
     keyed_lookup cc_Type (st_Conditions (vr_Status (sink_written vr c))) =
       (keyed_lookup cc_Type (st_Conditions (vr_Status vr)))(SinkEmission \<mapsto> c)"
  using type_index.lookup_upsert [where x = c and xs = "st_Conditions (vr_Status vr)"]
  by (simp add: sink_written_def set_hash_annotation_def)

lemma sink_outcome_type: "sink_outcome due c0 c h h' \<Longrightarrow> cc_Type c = cc_Type c0"
  by (auto simp: sink_outcome_def emitted_condition_def split: if_splits option.splits)

text \<open>The annotations with the hash, and the object that is written, field by field.\<close>

definition annotated :: "annotations \<Rightarrow> string \<Rightarrow> annotations" where
  "annotated m h =
     Some ((case m of None \<Rightarrow> Map.empty | Some m \<Rightarrow> m)(''validator/validation-result-hash'' \<mapsto> h))"

lemma sink_written_fields:
  "sink_written vr c = vr\<lparr>
     vr_ObjectMeta := (vr_ObjectMeta vr)\<lparr>om_Annotations := annotated (om_Annotations (vr_ObjectMeta vr)) (vr_Hash vr)\<rparr>,
     vr_Status := (vr_Status vr)\<lparr>st_Conditions :=
       upsert_at (fst (getConditionByType (st_Conditions (vr_Status vr)) SinkEmission)) c (st_Conditions (vr_Status vr))\<rparr>\<rparr>"
  by (simp add: sink_written_def set_hash_annotation_def annotated_def vr_set_conditions_def vr_set_annotations_def
      ValidationResultHash_def)

text \<open>C9:
  What a reconciliation writes.  When the objects can be fetched, it patches the ValidationResult
  exactly once, at the end, owning the SinkEmission condition, and returns the patch's error.
  The patched object is the fetched one, except for two things: its annotation of the hash, which is
  now the hash of the object itself, while all other annotations stay; and its SinkEmission
  condition, replaced or appended, while all other conditions stay, in their order.\<close>
theorem vr_Reconcile_patches_once:
  assumes "fetched env ns req (hist s) vc vr"
  shows "wp (vr_Reconcile env ns req) (\<lambda>r s'. \<exists>es c cs.
     hist s' = hist s @ es @ [EvPatchVR vr (obj s') [SinkEmission]] \<and>
     list_all (\<lambda>e. \<not> is_api_write e) es \<and>
     r = (requeue_30s, e_PatchVR env (hist s @ es) vr (obj s')) \<and>
     obj s' = vr\<lparr>
       vr_ObjectMeta := (vr_ObjectMeta vr)\<lparr>om_Annotations := annotated (om_Annotations (vr_ObjectMeta vr)) (vr_Hash (obj s'))\<rparr>,
       vr_Status := (vr_Status vr)\<lparr>st_Conditions := cs\<rparr>\<rparr> \<and>
     vr_Hash (obj s') = vr_Hash vr \<and>
     keyed_lookup cc_Type cs = (keyed_lookup cc_Type (st_Conditions (vr_Status vr)))(SinkEmission \<mapsto> c) \<and>
     filter (\<lambda>x. cc_Type x \<noteq> SinkEmission) cs = filter (\<lambda>x. cc_Type x \<noteq> SinkEmission) (st_Conditions (vr_Status vr))) s"
proof (rule wp_mono [OF reconcile_normal [OF assms]])
  fix r s'
  assume n: "normal_post env vc vr (hist s @ fetch_events ns req vr) r s'"
  then obtain c where c: "cc_Type c = SinkEmission" and o1: "obj s' = sink_written vr c"
    by (auto simp: normal_post_def initial_condition_def dest: sink_outcome_type)
  let ?old = "st_Conditions (vr_Status vr)"
  let ?cs = "upsert_at (fst (getConditionByType ?old SinkEmission)) c ?old"
  have cs: "keyed_lookup cc_Type ?cs = (keyed_lookup cc_Type ?old)(SinkEmission \<mapsto> c)"
    "filter (\<lambda>x. cc_Type x \<noteq> SinkEmission) ?cs = filter (\<lambda>x. cc_Type x \<noteq> SinkEmission) ?old"
    using type_index.lookup_upsert [where x = c and xs = ?old] type_index.others_upsert [where x = c and xs = ?old] c
    by simp_all
  have h: "vr_Hash (sink_written vr c) = vr_Hash vr" by (rule sink_written_view(4))
  from normal_post_events [OF n] obtain es where
    "hist s' = (hist s @ fetch_events ns req vr) @ es @ [EvPatchVR vr (obj s') [SinkEmission]]"
    "list_all (\<lambda>e. \<not> is_api_write e) es"
    "r = (requeue_30s, e_PatchVR env ((hist s @ fetch_events ns req vr) @ es) vr (obj s'))" by blast
  then show "\<exists>es c cs.
     hist s' = hist s @ es @ [EvPatchVR vr (obj s') [SinkEmission]] \<and>
     list_all (\<lambda>e. \<not> is_api_write e) es \<and>
     r = (requeue_30s, e_PatchVR env (hist s @ es) vr (obj s')) \<and>
     obj s' = vr\<lparr>
       vr_ObjectMeta := (vr_ObjectMeta vr)\<lparr>om_Annotations := annotated (om_Annotations (vr_ObjectMeta vr)) (vr_Hash (obj s'))\<rparr>,
       vr_Status := (vr_Status vr)\<lparr>st_Conditions := cs\<rparr>\<rparr> \<and>
     vr_Hash (obj s') = vr_Hash vr \<and>
     keyed_lookup cc_Type cs = (keyed_lookup cc_Type ?old)(SinkEmission \<mapsto> c) \<and>
     filter (\<lambda>x. cc_Type x \<noteq> SinkEmission) cs = filter (\<lambda>x. cc_Type x \<noteq> SinkEmission) ?old"
    using cs h sink_written_fields [of vr c] unfolding o1
    by (intro exI [of _ "fetch_events ns req vr @ es"] exI [of _ c] exI [of _ ?cs]) (simp add: fetch_events_def)
qed

definition sink_vc :: validator_config where
  "sink_vc = test_vc\<lparr>vc_Spec := (vc_Spec test_vc)\<lparr>vcs_Sink := Some \<lparr>sk_Type = ''slack'', sk_SecretName = ''s''\<rparr>\<rparr>\<rparr>"

definition sink_env :: env where
  "sink_env = test_env\<lparr>e_GetVC := (\<lambda>h k. Inr sink_vc),
     e_GetSecret := (\<lambda>h k. Inr \<lparr>sec_Name = ''s'', sec_Labels = None,
       sec_Data = [''apiToken'' \<mapsto> ''t'', ''channelId'' \<mapsto> ''c'']\<rparr>)\<rparr>"

lemma sink_env_fetched: "fetched sink_env ns req h sink_vc test_vr"
  by (simp add: fetched_def sink_env_def test_env_def)

theorem vr_Reconcile_patches_once_witness:
  "\<exists>s'. snd (vr_Reconcile sink_env ''validator'' (''validator'', ''vr'') (start test_vr)) = s' \<and>
     prev_hash (obj s') = Some (vr_Hash test_vr) \<and> vr_Spec (obj s') = vr_Spec test_vr"
proof -
  obtain r s' cs where "vr_Reconcile sink_env ''validator'' (''validator'', ''vr'') (start test_vr) = (r, s')"
    and "vr_Hash (obj s') = vr_Hash test_vr"
    and "obj s' = test_vr\<lparr>
       vr_ObjectMeta := (vr_ObjectMeta test_vr)\<lparr>om_Annotations :=
         annotated (om_Annotations (vr_ObjectMeta test_vr)) (vr_Hash (obj s'))\<rparr>,
       vr_Status := (vr_Status test_vr)\<lparr>st_Conditions := cs\<rparr>\<rparr>"
    using wp_returns [OF vr_Reconcile_patches_once [OF sink_env_fetched, of "''validator''"
      "(''validator'', ''vr'')" "start test_vr"]] by blast
  then show ?thesis
    by (intro exI [of _ s']) (simp add: prev_hash_def amap_get_def annotated_def ValidationResultHash_def)
qed

section \<open>How an emission ended\<close>

text \<open>
  A delivery run from \<open>s\<close>: the secret is read if one is named, the sink of the type is configured with
  its data, and then it is sent the result; \<open>err\<close> is the error of the first of these that fails, if any.
\<close>

definition delivered ::
  "env \<Rightarrow> string \<Rightarrow> sink_config \<Rightarrow> validation_result \<Rightarrow> (event, globals, validation_result) gostate \<Rightarrow>
     goerror option \<Rightarrow> (event, globals, validation_result) gostate \<Rightarrow> bool" where
  "delivered env ns sk vr s err s' \<longleftrightarrow>
     (let key = (ns, sk_SecretName sk);
          s1 = (if sk_SecretName sk = [] then s else s\<lparr>hist := hist s @ [EvGetSecret key]\<rparr>) in
      case (if sk_SecretName sk = [] then Inr Map.empty else map_sum id sec_Data (e_GetSecret env (hist s) key)) of
        Inl e \<Rightarrow> err = Some e \<and> s' = s1
      | Inr config \<Rightarrow>
          (case sink_Configure env (NewSink (sk_Type sk)) config s1 of
             (Inr (Some e, k), s2) \<Rightarrow> err = Some e \<and> s' = s2
           | (Inr (None, k), s2) \<Rightarrow> sink_Emit env k vr s2 = (Inr err, s')
           | (Inl p, s2) \<Rightarrow> False))"

lemma emitToSink_delivered:
  assumes "emitToSink env ns sk vr s = (Inr (st, err), s')"
  shows "delivered env ns sk vr s err s'"
  using assms
  by (auto simp: emitToSink_def delivered_def get_secret_def go_eval Let_def
      split: prod.splits sum.splits option.splits if_splits)

lemma emitToSink_outcome:
  "wp (emitToSink env ns sk vr) (\<lambda>(st, err) s'. st = (if err = None then SinkEmitSucceeded else SinkEmitFailed) \<and>
     (err = None \<longrightarrow> sent_since (hist s) (hist s')) \<and> obj s' = obj s \<and> delivered env ns sk vr s err s') s"
proof -
  obtain st err s' where r: "emitToSink env ns sk vr s = (Inr (st, err), s')"
    and p: "st = (if err = None then SinkEmitSucceeded else SinkEmitFailed)" "err = None \<longrightarrow> sent_since (hist s) (hist s')"
    "obj s' = obj s"
    using wp_returns [OF wp_keeps [OF emitToSink_obj emitToSink_total [of env ns sk vr s]]] by fastforce
  show ?thesis using p emitToSink_delivered [OF r] by (simp add: wp_def r)
qed

text \<open>\<open>ended\<close>: the condition that is written reports the delivery that ran.\<close>

definition ended ::
  "env \<Rightarrow> string \<Rightarrow> sink_config \<Rightarrow> validation_result \<Rightarrow> cluster_condition \<Rightarrow>
     (event, globals, validation_result) gostate \<Rightarrow> cluster_condition \<Rightarrow>
     (event, globals, validation_result) gostate \<Rightarrow> bool" where
  "ended env ns sk vr c0 s c s1 \<longleftrightarrow>
     (\<exists>err. delivered env ns sk vr s err s1 \<and> (err = None \<longrightarrow> sent_since (hist s) (hist s1)) \<and>
        c = emitted_condition err c0)"

lemma emit_step_ended:
  assumes "should_emit vc vr" and "vcs_Sink (vc_Spec vc) = Some sk"
  shows "wp (vr_emit_step env ns vc vr (vr_Hash vr) c)
     (\<lambda>c' s1. obj s1 = obj s \<and> ended env ns sk vr c s c' s1) s"
  using assms unfolding vr_emit_step_def should_emit_def
  by (auto simp: wp_rules Let_def ended_def emitted_condition_def intro!: wp_mono [OF emitToSink_outcome]
      split: option.split)

lemma body_ended:
  assumes obj: "obj s = vr" and idx: "idx = fst (getConditionByType (st_Conditions (vr_Status vr)) SinkEmission)"
    and "should_emit vc vr" and "vcs_Sink (vc_Spec vc) = Some sk"
  shows "wp (vr_reconcile_body env ns vc (vr_Hash vr) idx c)
     (\<lambda>r s'. \<exists>c' s1. ended env ns sk vr c s c' s1 \<and> hist s' = hist s1 \<and> obj s' = sink_written vr c') s"
  unfolding vr_reconcile_body_def wp_bind wp_obj obj
proof (rule wp_mono [OF emit_step_ended [OF assms(3,4)]], elim conjE)
  fix c' and s1 :: "(event, globals, validation_result) gostate"
  assume "ended env ns sk vr c s c' s1" "obj s1 = obj s"
  then show "wp (if (case prev_hash vr of None \<Rightarrow> [] | Some h \<Rightarrow> h) \<noteq> vr_Hash vr
        then go_modify (set_hash_annotation (vr_Hash vr)) else go_return ())
     (\<lambda>a. wp (go_modify (\<lambda>vr. vr_set_conditions (upsert_at idx c' (st_Conditions (vr_Status vr))) vr))
        (\<lambda>a. wp (go_return (requeue_30s, None))
          (\<lambda>r s'. \<exists>c' s1. ended env ns sk vr c s c' s1 \<and> hist s' = hist s1 \<and> obj s' = sink_written vr c'))) s1"
    using obj set_hash_annotation_same [of vr]
    by (auto simp: wp_rules idx sink_written_def set_hash_annotation_def split: if_splits
        intro!: exI [of _ c'] exI [of _ s1])
qed

lemma patched_ended:
  assumes obj: "obj s = vr" and emit: "should_emit vc vr" "vcs_Sink (vc_Spec vc) = Some sk"
  shows "wp (vr_reconcile_patched env ns vc vr) (\<lambda>r s'. \<exists>pre c0 c s1. list_all (\<lambda>e. e = EvNow) pre \<and>
     initial_condition vr c0 \<and> ended env ns sk vr c0 (s\<lparr>hist := hist s @ pre\<rparr>) c s1 \<and>
     hist s' = hist s1 @ [EvPatchVR vr (obj s') [SinkEmission]] \<and> obj s' = sink_written vr c) s"
  (is "wp _ ?Q s")
proof (rule patched_by [OF obj], unfold wp_defer)
  fix pre c0
  assume pre: "list_all (\<lambda>e. e = EvNow) pre" "initial_condition vr c0"
  let ?s = "s\<lparr>hist := hist s @ pre\<rparr>"
  have o1: "obj ?s = vr" using obj by simp
  have patch: "wp (go_bind (patchValidationResult env vr) (\<lambda>perr.
           case perr of
             Some e \<Rightarrow> go_return (res, if reterr = None then Some e else reterr)
           | None \<Rightarrow> go_return (res, reterr))) ?Q s'"
    if "ended env ns sk vr c0 ?s c s1" "hist s' = hist s1" "obj s' = sink_written vr c" for c s1 s' res reterr
    using that pre by (auto simp: patchValidationResult_def wp_rules split: option.split)
  show "wp (vr_reconcile_body env ns vc (vr_Hash vr) (fst (getConditionByType (st_Conditions (vr_Status vr)) SinkEmission)) c0)
     (\<lambda>a. wp (case a of (res, reterr) \<Rightarrow> go_bind (patchValidationResult env vr) (\<lambda>perr.
           case perr of
             Some e \<Rightarrow> go_return (res, if reterr = None then Some e else reterr)
           | None \<Rightarrow> go_return (res, reterr))) ?Q) ?s"
    by (rule wp_mono [OF body_ended [OF o1 refl emit]]) (use patch in \<open>auto split: prod.split\<close>)
qed

text \<open>C10:
  The SinkEmission condition tells how a due emission ended.  The reconciliation reads the clock at most,
  delivers the result to the configured sink, and patches.  When the delivery ends without an error,
  which it does only if a call to the sink was made, the stored condition says SinkEmitSucceeded;
  when it ends with one, SinkEmitFailed with the text of that error.  The status of the condition
  stays, and a success keeps the message that was there before.\<close>
theorem vr_Reconcile_sink_condition:
  assumes "fetched env ns req (hist s) vc vr" and "due_for vc vr" and "vcs_Sink (vc_Spec vc) = Some sk"
  shows "wp (vr_Reconcile env ns req) (\<lambda>r s'. \<exists>pre c0 c err s1. list_all (\<lambda>e. e = EvNow) pre \<and>
     delivered env ns sk vr (s\<lparr>obj := vr, hist := hist s @ fetch_events ns req vr @ pre\<rparr>) err s1 \<and>
     hist s' = hist s1 @ [EvPatchVR vr (obj s') [SinkEmission]] \<and>
     initial_condition vr c0 \<and> keyed_lookup cc_Type (st_Conditions (vr_Status (obj s'))) SinkEmission = Some c \<and>
     cc_Status c = cc_Status c0 \<and>
     (case err of
        None \<Rightarrow> cc_Reason c = SinkEmitSucceeded \<and> cc_Message c = cc_Message c0 \<and>
          (\<exists>es. hist s' = hist s @ es \<and> list_ex is_sink_event es)
      | Some e \<Rightarrow> cc_Reason c = SinkEmitFailed \<and> cc_Message c = err_text e)) s"
proof -
  let ?s = "s\<lparr>obj := vr, hist := hist s @ fetch_events ns req vr\<rparr>"
  have due: "should_emit vc vr" and o1: "obj ?s = vr" using assms(2) by (simp_all add: should_emit_due)
  have run: "wp (vr_Reconcile env ns req) Q s = wp (vr_reconcile_patched env ns vc vr) Q ?s" for Q
    using assms(1) by (simp add: vr_Reconcile_def wp_rules fetched_def fetch_events_def vc_key_def vr_key_def)
  show ?thesis unfolding run
  proof (rule wp_mono [OF patched_ended [OF o1 due assms(3)]], elim exE conjE)
    fix r s' pre c0 c and s1 :: "(event, globals, validation_result) gostate"
    assume pre: "list_all (\<lambda>e. e = EvNow) pre" and i: "initial_condition vr c0"
      and e: "ended env ns sk vr c0 (?s\<lparr>hist := hist ?s @ pre\<rparr>) c s1"
      and h: "hist s' = hist s1 @ [EvPatchVR vr (obj s') [SinkEmission]]" and o': "obj s' = sink_written vr c"
    obtain err where d: "delivered env ns sk vr (?s\<lparr>hist := hist ?s @ pre\<rparr>) err s1"
      and sent: "err = None \<longrightarrow> sent_since (hist s @ fetch_events ns req vr @ pre) (hist s1)"
      and c: "c = emitted_condition err c0"
      using e by (auto simp: ended_def)
    have "cc_Type c = SinkEmission" using i by (auto simp: c emitted_condition_def initial_condition_def split: option.split)
    then have k: "keyed_lookup cc_Type (st_Conditions (vr_Status (obj s'))) SinkEmission = Some c"
      by (simp add: o' sink_written_lookup)
    have "err = None \<longrightarrow> (\<exists>es. hist s' = hist s @ es \<and> list_ex is_sink_event es)"
      using sent h by (auto simp: sent_since_def)
    then show "\<exists>pre c0 c err s1. list_all (\<lambda>e. e = EvNow) pre \<and>
     delivered env ns sk vr (s\<lparr>obj := vr, hist := hist s @ fetch_events ns req vr @ pre\<rparr>) err s1 \<and>
     hist s' = hist s1 @ [EvPatchVR vr (obj s') [SinkEmission]] \<and>
     initial_condition vr c0 \<and> keyed_lookup cc_Type (st_Conditions (vr_Status (obj s'))) SinkEmission = Some c \<and>
     cc_Status c = cc_Status c0 \<and>
     (case err of
        None \<Rightarrow> cc_Reason c = SinkEmitSucceeded \<and> cc_Message c = cc_Message c0 \<and>
          (\<exists>es. hist s' = hist s @ es \<and> list_ex is_sink_event es)
      | Some e \<Rightarrow> cc_Reason c = SinkEmitFailed \<and> cc_Message c = err_text e)"
      using d
      by (intro exI [of _ pre] exI [of _ c0] exI [of _ c] exI [of _ err] exI [of _ s1])
        (use pre i h k in \<open>auto simp: c emitted_condition_def split: option.split\<close>)
  qed
qed

lemma sink_vc_should_emit: "should_emit sink_vc test_vr"
  by (simp add: should_emit_def vr_complete_def emit_due_def sink_vc_def test_vr_def prev_hash_def
      amap_get_def test_meta_def empty_meta_def)

theorem vr_Reconcile_sink_condition_witness:
  "\<exists>s' c. keyed_lookup cc_Type (st_Conditions (vr_Status (obj s'))) SinkEmission = Some c \<and>
     cc_Status c = ConditionTrue \<and>
     snd (vr_Reconcile sink_env ''validator'' (''validator'', ''vr'') (start test_vr)) = s'"
proof -
  have i: "initial_condition test_vr c0 \<Longrightarrow> cc_Status c0 = ConditionTrue" for c0
    by (simp add: initial_condition_def test_vr_def keyed_lookup_def)
  have d: "due_for sink_vc test_vr" using sink_vc_should_emit by (simp add: should_emit_due)
  have k: "vcs_Sink (vc_Spec sink_vc) = Some \<lparr>sk_Type = ''slack'', sk_SecretName = ''s''\<rparr>"
    by (simp add: sink_vc_def)
  show ?thesis
    using wp_returns [OF vr_Reconcile_sink_condition [where s = "start test_vr" and ns = "''validator''"
        and req = "(''validator'', ''vr'')", OF sink_env_fetched d k]] i by fastforce
qed

text \<open>C6: 
  One hash is emitted at most once.  Once a reconciliation has written a result, reconciling any object
  with the same hashed content and annotation (the validation times may be newer) sends nothing,
  however the first emission ended: a failed emission is not retried until the result changes.\<close>
theorem vr_Reconcile_no_reemission:
  assumes first: "fetched env ns req (hist s) vc vr"
    and run: "vr_Reconcile env ns req s = (r, s1)"
    and same: "hash_view vr2 = hash_view (obj s1)" "prev_hash vr2 = prev_hash (obj s1)"
    and stored: "\<forall>h k. e_GetVR env2 h k = Inr vr2"
  shows "wp (vr_Reconcile env2 ns2 req2) (\<lambda>r s'. \<exists>es. hist s' = hist s2 @ es \<and> no_sink es) s2"
proof -
  have "prev_hash (obj s1) = Some (vr_Hash (obj s1))"
    using reconcile_normal [OF first] run
    by (auto simp: wp_def normal_post_def sink_written_view split: sum.splits)
  then have p: "prev_hash vr2 = Some (vr_Hash vr2)"
    using same hash_view_cong by metis
  have no: "\<not> should_emit vc2 vr2" for vc2
    by (simp add: should_emit_def emit_due_def p)
  show ?thesis
  proof (cases "\<exists>vc vr. fetched env2 ns2 req2 (hist s2) vc vr")
    case True
    then obtain vc2 where f: "fetched env2 ns2 req2 (hist s2) vc2 vr2"
      using stored by (auto simp: fetched_def)
    show ?thesis
    proof (rule wp_mono [OF reconcile_normal [OF f]])
      fix r' s'
      assume "normal_post env2 vc2 vr2 (hist s2 @ fetch_events ns2 req2 vr2) r' s'"
      from normal_post_events [OF this] show "\<exists>es. hist s' = hist s2 @ es \<and> no_sink es"
        using no by (auto simp: fetch_events_def no_sink_def)
    qed
  next
    case False
    then show ?thesis
      using reconcile_cases [of env2 ns2 req2 s2]
      by (auto simp: no_sink_def list_all_iff elim!: wp_mono)
  qed
qed

text \<open>Reconciling twice in a row against an API server that stores the patched object.\<close>

theorem vr_Reconcile_no_reemission_witness:
  "\<exists>s1. snd (vr_Reconcile sink_env ''validator'' (''validator'', ''vr'') (start test_vr)) = s1 \<and>
     wp (vr_Reconcile (sink_env\<lparr>e_GetVR := (\<lambda>h k. Inr (obj s1))\<rparr>) ''validator'' (''validator'', ''vr''))
       (\<lambda>r s'. \<exists>es. hist s' = hist s1 @ es \<and> no_sink es) s1"
  by (rule exI, rule conjI, rule refl,
      rule vr_Reconcile_no_reemission [OF sink_env_fetched prod.collapse [symmetric]]) simp_all

text \<open>
  Errors before the normal path.  A missing ValidatorConfig or ValidationResult ends the reconciliation
  without an error; any other error of the two reads is returned as it is; a failing patch helper is
  returned with the result's name; and in these cases nothing is written.\<close>
lemma vr_Reconcile_early_errors:
  "case e_GetVC env (hist s) (vc_key ns) of
     Inl e \<Rightarrow> vr_Reconcile env ns req s =
       (Inr (no_requeue, if is_not_found e then None else Some e), s\<lparr>hist := hist s @ [EvGetVC (vc_key ns)]\<rparr>)
   | Inr vc \<Rightarrow>
     (case e_GetVR env (hist s @ [EvGetVC (vc_key ns)]) req of
        Inl e \<Rightarrow> vr_Reconcile env ns req s =
          (Inr (no_requeue, if is_not_found e then None else Some e),
           s\<lparr>hist := hist s @ [EvGetVC (vc_key ns), EvGetVR req]\<rparr>)
      | Inr vr \<Rightarrow>
        (case e_NewPatchHelper env (hist s @ [EvGetVC (vc_key ns), EvGetVR req]) (vr_key vr) of
           Some e \<Rightarrow> fst (vr_Reconcile env ns req s) = Inr (no_requeue, Some (errors_Wrap e
             (''failed to create patch helper for ValidationResult '' @ om_Name (vr_ObjectMeta vr))))
         | None \<Rightarrow> wp (vr_Reconcile env ns req) (\<lambda>(res, err) s'. res = requeue_30s) s))"
proof -
  have "wp (vr_Reconcile env ns req) (\<lambda>(res, err) s'. res = requeue_30s) s"
    if "fetched env ns req (hist s) vc vr" for vc vr
    by (rule wp_mono [OF reconcile_normal [OF that]]) (auto simp: normal_post_def)
  then show ?thesis
    by (auto simp: fetched_def vr_Reconcile_def go_eval vc_key_def vr_key_def ignore_not_found_def
        split: sum.split option.split)
qed

end
