(* ===== verification/Result_Lifecycle.thy ===== *)
theory Result_Lifecycle
  imports Validation_Result VR_Controller
begin

text \<open>
  The two writers of a ValidationResult together.  A plugin creates the object (\<^theory_text>\<open>HandleNew\<close>) and
  updates it (\<^theory_text>\<open>SafeUpdate\<close>), the controller emits it and records the hash (\<^theory_text>\<open>Reconcile\<close>), in any order,
  each from the stored object and each against an environment of its own.  The steps are those of
  the models of these functions; a write that the API server refuses leaves the stored object as it
  is.  The log of the reconciliations of an object says which of them sent something to a sink.
\<close>

section \<open>The stored object and its reconciliations\<close>

record attempt =
  at_Result :: validation_result
  at_Sent :: bool
  at_Recorded :: bool

record lifecycle =
  lc_Stored :: "validation_result option"
  lc_Attempts :: "attempt list"

definition new_events :: "('e, 'g, 'o) gostate \<Rightarrow> ('e, 'g, 'o) gostate \<Rightarrow> 'e list" where
  "new_events s s' = drop (length (hist s)) (hist s')"

text \<open>
  What the API server makes of a created object: it fills in metadata, but no annotation of the
  controller, and keeps specification and status.
\<close>

definition created_as :: "validation_result \<Rightarrow> validation_result \<Rightarrow> bool" where
  "created_as vr vr1 \<longleftrightarrow> vr_Spec vr1 = vr_Spec vr \<and> vr_Status vr1 = vr_Status vr \<and>
     prev_hash vr1 = prev_hash vr"

inductive lc_step :: "unicode_tables \<Rightarrow> lifecycle \<Rightarrow> lifecycle \<Rightarrow> bool" for ut where
  Created:
    "lc_Stored c = None \<Longrightarrow> obj s = vr_Build ut v \<Longrightarrow>
     e_CreateVR env (hist s) (obj s) = Inr vr1 \<Longrightarrow> created_as (obj s) vr1 \<Longrightarrow>
     HandleNew env s = (Inr err, s') \<Longrightarrow>
     lc_step ut c (c\<lparr>lc_Stored := Some (if err = None then obj s' else vr1)\<rparr>)"
| Updated:
    "lc_Stored c = Some (obj s) \<Longrightarrow> SafeUpdate env resp s = (Inr None, s') \<Longrightarrow>
     lc_step ut c (c\<lparr>lc_Stored := Some (obj s')\<rparr>)"
| Reconciled:
    "lc_Stored c = Some vr \<Longrightarrow> fetched env ns req (hist s) vc vr \<Longrightarrow>
     vr_Reconcile env ns req s = (Inr (res, err), s') \<Longrightarrow>
     lc_step ut c \<lparr>lc_Stored = Some (if err = None then obj s' else vr),
       lc_Attempts = lc_Attempts c @ [\<lparr>at_Result = vr, at_Sent = \<not> no_sink (new_events s s'),
         at_Recorded = (err = None)\<rparr>]\<rparr>"
| Deleted:
    "lc_step ut c \<lparr>lc_Stored = None, lc_Attempts = []\<rparr>"

inductive lc_reachable :: "unicode_tables \<Rightarrow> lifecycle \<Rightarrow> bool" for ut where
  Absent: "lc_reachable ut \<lparr>lc_Stored = None, lc_Attempts = []\<rparr>"
| Step: "lc_reachable ut c \<Longrightarrow> lc_step ut c c' \<Longrightarrow> lc_reachable ut c'"

section \<open>The invariant\<close>

text \<open>The hash that the last recorded reconciliation left behind.\<close>

fun recorded_hash :: "attempt list \<Rightarrow> string option" where
  "recorded_hash [] = None"
| "recorded_hash (a # as) =
     (case recorded_hash as of
        Some h \<Rightarrow> Some h
      | None \<Rightarrow> if at_Recorded a then Some (vr_Hash (at_Result a)) else None)"

lemma recorded_hash_snoc [simp]:
  "recorded_hash (as @ [a]) =
     (if at_Recorded a then Some (vr_Hash (at_Result a)) else recorded_hash as)"
  by (induction as) (auto split: option.splits)

text \<open>A result as the plugins write it: one condition per rule, and a failed one makes it fail.\<close>

definition sound_result :: "validation_result \<Rightarrow> bool" where
  "sound_result vr \<longleftrightarrow> distinct (map c_ValidationRule (vr_conds vr)) \<and>
     (list_ex (\<lambda>c. c_Status c = ConditionFalse) (vr_conds vr) \<longrightarrow> vr_state vr = ValidationFailed)"

text \<open>What a reconciliation after \<open>before\<close> may have sent.\<close>

definition sound_attempt :: "attempt list \<Rightarrow> attempt \<Rightarrow> bool" where
  "sound_attempt before a \<longleftrightarrow> sound_result (at_Result a) \<and>
     (at_Sent a \<longrightarrow>
        vr_complete (at_Result a) \<and>
        int (length (vr_conds (at_Result a))) = vrs_ExpectedResults (vr_Spec (at_Result a)) \<and>
        recorded_hash before \<noteq> Some (vr_Hash (at_Result a)))"

definition sound_log :: "attempt list \<Rightarrow> bool" where
  "sound_log as \<longleftrightarrow> (\<forall>i < length as. sound_attempt (take i as) (as ! i))"

lemma sound_log_Nil [simp]: "sound_log []"
  by (simp add: sound_log_def)

lemma sound_log_snoc [simp]:
  "sound_log (as @ [a]) \<longleftrightarrow> sound_log as \<and> sound_attempt as a"
  by (auto simp: sound_log_def nth_append less_Suc_eq)

definition lc_inv :: "lifecycle \<Rightarrow> bool" where
  "lc_inv c \<longleftrightarrow> sound_log (lc_Attempts c) \<and>
     (case lc_Stored c of
        None \<Rightarrow> lc_Attempts c = []
      | Some vr \<Rightarrow> sound_result vr \<and> prev_hash vr = recorded_hash (lc_Attempts c))"

section \<open>Every step keeps it\<close>

lemma vr_Build_fresh:
  "vr_conds (vr_Build ut v) = []" "prev_hash (vr_Build ut v) = None"
  by (simp_all add: vr_Build_def prev_hash_def amap_get_def empty_meta_def)

lemma handle_new_obj:
  assumes "HandleNew env s = (Inr None, s')" and "e_CreateVR env (hist s) (obj s) = Inr vr1"
  shows "obj s' = vr1\<lparr>vr_Status := in_progress_status\<rparr>"
  using assms
  by (auto simp: HandleNew_def patcher_Patch_def go_eval in_progress_status_def split: option.splits)

lemma safe_update_obj:
  assumes "SafeUpdate env resp s = (Inr None, s')"
  obtains effs where "obj s' = fold apply_effective effs (obj s)"
proof -
  obtain out s1 where f: "vr_Finalize env resp s = (Inr (None, out), s1)" and o1: "obj s' = obj s1"
    using assms vr_Finalize_run [of env resp s]
    by (fastforce simp: SafeUpdate_def patcher_Patch_def go_eval split: prod.splits sum.splits option.splits)
  from vr_Finalize_run [OF f] o1 show thesis by (auto intro: that)
qed

text \<open>An absent object can only be created, and then it has no conditions.\<close>

inductive_cases lc_step_from_absent: "lc_step ut \<lparr>lc_Stored = None, lc_Attempts = []\<rparr> c"

lemma absent_step_creates:
  assumes "lc_step ut \<lparr>lc_Stored = None, lc_Attempts = []\<rparr> c"
  shows "lc_Attempts c = [] \<and> (case lc_Stored c of None \<Rightarrow> True | Some vr \<Rightarrow> vr_conds vr = [])"
  using assms
  by (rule lc_step_from_absent)
    (auto simp: handle_new_obj in_progress_status_def created_as_def vr_Build_fresh)

lemma sound_apply_effective: "sound_result vr \<Longrightarrow> sound_result (apply_effective e vr)"
  by (simp add: sound_result_def distinct_insert_condition verdict_def)

lemma sound_fold_effective: "sound_result vr \<Longrightarrow> sound_result (fold apply_effective effs vr)"
  by (induction effs arbitrary: vr) (simp_all add: sound_apply_effective)

lemma prev_hash_fold_effective: "prev_hash (fold apply_effective effs vr) = prev_hash vr"
  by (induction effs arbitrary: vr) (simp_all add: prev_hash_def)

lemma reconcile_end:
  assumes "fetched env ns req (hist s) vc vr" and "vr_Reconcile env ns req s = (Inr (res, err), s')"
  shows "prev_hash (obj s') = Some (vr_Hash vr)" and "sound_result (obj s') = sound_result vr"
    and "\<not> no_sink (new_events s s') \<Longrightarrow> should_emit vc vr"
proof -
  have n: "normal_post env vc vr (hist s @ fetch_events ns req vr) (res, err) s'"
    using reconcile_normal [OF assms(1)] assms(2) by (simp add: wp_def)
  then obtain c where "obj s' = sink_written vr c" by (auto simp: normal_post_def)
  then show "prev_hash (obj s') = Some (vr_Hash vr)" "sound_result (obj s') = sound_result vr"
    by (simp_all add: sink_written_view sound_result_def)
  show "should_emit vc vr" if "\<not> no_sink (new_events s s')"
    using normal_post_events [OF n] that
    by (auto simp: new_events_def fetch_events_def no_sink_def list_all_iff)
qed

lemma lc_step_inv: "lc_step ut c c' \<Longrightarrow> lc_inv c \<Longrightarrow> lc_inv c'"
proof (induction rule: lc_step.induct)
  case (Created c s v env vr1 err s')
  have "sound_result vr1 \<and> prev_hash vr1 = None"
    using Created.hyps(2,4) by (simp add: created_as_def sound_result_def vr_Build_fresh)
  moreover have "sound_result (vr1\<lparr>vr_Status := in_progress_status\<rparr>)"
    "prev_hash (vr1\<lparr>vr_Status := in_progress_status\<rparr>) = prev_hash vr1"
    by (simp_all add: sound_result_def in_progress_status_def prev_hash_def)
  ultimately show ?case
    using Created.prems Created.hyps(1) handle_new_obj [of env s s' vr1] Created.hyps(3,5)
    by (auto simp: lc_inv_def)
next
  case (Updated c s env resp s')
  obtain effs where "obj s' = fold apply_effective effs (obj s)"
    using safe_update_obj [OF Updated.hyps(2)] .
  then show ?case
    using Updated.prems Updated.hyps(1)
    by (simp add: lc_inv_def sound_fold_effective prev_hash_fold_effective)
next
  case (Reconciled c vr env ns req s vc res err s')
  note run = reconcile_end [OF Reconciled.hyps(2,3)]
  have stored: "sound_log (lc_Attempts c)" "sound_result vr" "prev_hash vr = recorded_hash (lc_Attempts c)"
    using Reconciled.prems Reconciled.hyps(1) by (simp_all add: lc_inv_def)
  have "sound_attempt (lc_Attempts c) \<lparr>at_Result = vr, at_Sent = \<not> no_sink (new_events s s'),
      at_Recorded = (err = None)\<rparr>"
    using run(3) stored
    by (auto simp: sound_attempt_def should_emit_def emit_due_def split: option.splits)
  with stored run(1,2) show ?case by (simp add: lc_inv_def)
next
  case (Deleted c)
  show ?case by (simp add: lc_inv_def)
qed

lemma lc_reachable_inv: "lc_reachable ut c \<Longrightarrow> lc_inv c"
  by (induction rule: lc_reachable.induct) (auto simp: lc_inv_def [of "\<lparr>lc_Stored = None, lc_Attempts = []\<rparr>"] intro: lc_step_inv)

text \<open>C3: 
  The plugin and the controller on one ValidationResult, in any order and with any answers of the
  environment.  The stored result has at most one condition per rule and is Failed whenever one of
  its conditions failed.  Whatever was sent to a sink was a complete result with the expected number
  of conditions, one per rule, not reported as succeeded while a condition failed, and its hash was
  not the one last recorded: the same content is sent again only when the write that records it
  failed, or other content was recorded in between.\<close>
theorem lifecycle_sound:
  assumes "lc_reachable ut c"
  shows "(case lc_Stored c of None \<Rightarrow> True | Some vr \<Rightarrow> sound_result vr) \<and>
    (\<forall>i < length (lc_Attempts c). at_Sent (lc_Attempts c ! i) \<longrightarrow>
       (vr_state (at_Result (lc_Attempts c ! i)) = ValidationFailed \<or>
        vr_state (at_Result (lc_Attempts c ! i)) = ValidationSucceeded) \<and>
       int (length (vr_conds (at_Result (lc_Attempts c ! i)))) =
         vrs_ExpectedResults (vr_Spec (at_Result (lc_Attempts c ! i))) \<and>
       sound_result (at_Result (lc_Attempts c ! i)) \<and>
       recorded_hash (take i (lc_Attempts c)) \<noteq> Some (vr_Hash (at_Result (lc_Attempts c ! i))))"
  using lc_reachable_inv [OF assms]
  by (auto simp: lc_inv_def sound_log_def sound_attempt_def vr_complete_def split: option.splits)

text \<open>A run: a plugin with one rule creates its result, reports a success, and it is sent to Slack.\<close>

definition run_tables :: unicode_tables where
  "run_tables = \<lparr>ut_lower = id, ut_space = (\<lambda>_. False)\<rparr>"

definition run_plugin :: validator where
  "run_plugin = \<lparr>vd_GetKind = ''AwsValidator'', vd_PluginCode = ''AWS'', vd_ResultCount = 1,
     vd_GetNamespace = ''validator'', vd_GetName = ''aws'', vd_GetUID = ''u'',
     vd_GVK_Version = ''v1alpha1'', vd_GVK_Kind = ''AwsValidator''\<rparr>"

definition run_condition :: validation_condition where
  "run_condition = zero_condition\<lparr>c_ValidationRule := ''validation-a'', c_Status := ConditionTrue\<rparr>"

definition run_response :: validation_response where
  "run_response = \<lparr>ValidationRuleResults =
       [Some \<lparr>rr_Condition = Some run_condition, rr_State = Some ValidationSucceeded\<rparr>],
     ValidationRuleErrors = [None]\<rparr>"

definition run_created :: validation_result where
  "run_created = (vr_Build run_tables run_plugin)\<lparr>vr_Status := in_progress_status\<rparr>"

definition run_result :: validation_result where
  "run_result = run_created\<lparr>vr_Status := \<lparr>st_State = ValidationSucceeded, st_Conditions = [],
     st_ValidationConditions = [run_condition]\<rparr>\<rparr>"

definition run_env :: env where
  "run_env = sink_env\<lparr>e_GetVR := (\<lambda>h k. Inr run_result)\<rparr>"

lemma run_creates:
  "lc_step run_tables \<lparr>lc_Stored = None, lc_Attempts = []\<rparr> \<lparr>lc_Stored = Some run_created, lc_Attempts = []\<rparr>"
proof -
  obtain s' where run: "HandleNew test_env (start (vr_Build run_tables run_plugin)) = (Inr None, s')"
    and o': "obj s' = run_created"
    by (simp add: HandleNew_def patcher_Patch_def go_eval in_progress_status_def test_env_def start_def
        run_created_def)
  have "lc_step run_tables \<lparr>lc_Stored = None, lc_Attempts = []\<rparr>
      (\<lparr>lc_Stored = None, lc_Attempts = []\<rparr>\<lparr>lc_Stored := Some (if (None :: goerror option) = None then obj s'
        else vr_Build run_tables run_plugin)\<rparr>)"
    by (rule lc_step.Created [OF _ _ _ _ run]) (simp_all add: start_def test_env_def created_as_def)
  then show ?thesis by (simp add: o')
qed

lemma run_updates:
  "lc_step run_tables \<lparr>lc_Stored = Some run_created, lc_Attempts = []\<rparr> \<lparr>lc_Stored = Some run_result, lc_Attempts = []\<rparr>"
proof -
  have e: "effective zero_time (Some \<lparr>rr_Condition = Some run_condition, rr_State = Some ValidationSucceeded\<rparr>) None =
      Some (run_condition, ValidationSucceeded)"
    by (simp add: effective_def rr_Finalize_def)
  have a: "apply_effective (run_condition, ValidationSucceeded) run_created = run_result"
    by (simp add: apply_effective_def insert_condition_def run_created_def run_result_def in_progress_status_def
        run_condition_def getConditionIndexByValidationRule_def upsert_at_def verdict_def)
  obtain s' where "SafeUpdate test_env run_response (start run_created) = (Inr None, s')"
    "obj s' = run_result"
    using updateStatus_ok [OF e, of "start run_created"] a
    by (auto simp: SafeUpdate_def vr_Finalize_def run_response_def patcher_Patch_def go_eval start_def test_env_def)
  then show ?thesis
    using lc_step.Updated [of "\<lparr>lc_Stored = Some run_created, lc_Attempts = []\<rparr>" "start run_created" test_env run_response s' run_tables]
    by (simp add: start_def)
qed



lemma run_env_answers:
  "e_GetVC run_env h k = Inr sink_vc" "e_GetVR run_env h k = Inr run_result" "e_NewPatchHelper run_env h k = None"
  "e_GetSecret run_env h k = Inr \<lparr>sec_Name = ''s'', sec_Labels = None,
       sec_Data = [''apiToken'' \<mapsto> ''t'', ''channelId'' \<mapsto> ''c'']\<rparr>"
  "e_SlackAuthTest run_env h t = None" "e_SlackPost run_env h t ch bs = None" "e_PatchVR run_env h b a = None"
  by (simp_all add: run_env_def sink_env_def test_env_def)

lemma run_emits:
  obtains es where "emitToSink run_env ns \<lparr>sk_Type = ''slack'', sk_SecretName = ''s''\<rparr> vr s =
     (Inr (SinkEmitSucceeded, None), s\<lparr>hist := hist s @ es\<rparr>)" and "\<not> no_sink es"
  by (rule that [of "[EvGetSecret (ns, ''s''), EvSlackAuthTest (default_client (glob s)) ''t'',
        EvSlackPostMessage (default_client (glob s)) ''t'' ''c'' (buildSlackBlocks vr)]"])
    (simp_all add: emitToSink_def NewSink_def SinkTypeAlertmanager_def sink_Configure_def slack_Configure_def
      sink_Emit_def slack_Emit_def go_eval prim_defs run_env_answers Let_def)

lemma run_emit_wp:
  assumes "\<And>es. \<not> no_sink es \<Longrightarrow> Q (SinkEmitSucceeded, None) (s\<lparr>hist := hist s @ es\<rparr>)"
  shows "wp (emitToSink run_env ns \<lparr>sk_Type = ''slack'', sk_SecretName = ''s''\<rparr> vr) Q s"
  by (rule run_emits [of ns vr s]) (simp add: wp_def assms)

lemma run_result_facts:
  "st_Conditions (vr_Status run_result) = []" "prev_hash run_result = None" "vr_complete run_result"
  "emit_due sink_vc run_result h" "vcs_Sink (vc_Spec sink_vc) = Some \<lparr>sk_Type = ''slack'', sk_SecretName = ''s''\<rparr>"
  "vr_ObjectMeta run_result = vr_ObjectMeta (vr_Build run_tables run_plugin)"
  by (simp_all add: run_result_def run_created_def prev_hash_def amap_get_def vr_Build_def empty_meta_def
      vr_complete_def emit_due_def sink_vc_def run_plugin_def)

lemma run_sends:
  "wp (vr_Reconcile run_env ''validator'' (''validator'', ''vr''))
     (\<lambda>r s'. r = (requeue_30s, None) \<and> \<not> no_sink (hist s')) (start run_result)"
  by (simp add: vr_Reconcile_def wp_rules run_env_answers vr_reconcile_patched_def getConditionByType_def Let_def
      run_result_facts range_index.simps time_Now_def vr_reconcile_body_def vr_emit_step_def)
    (auto intro!: run_emit_wp simp: wp_rules patchValidationResult_def run_env_answers start_def)

lemma run_reaches:
  obtains vr where "lc_reachable run_tables \<lparr>lc_Stored = Some vr,
      lc_Attempts = [\<lparr>at_Result = run_result, at_Sent = True, at_Recorded = True\<rparr>]\<rparr>"
proof -
  obtain s' where run: "vr_Reconcile run_env ''validator'' (''validator'', ''vr'') (start run_result) =
      (Inr (requeue_30s, None), s')" and sent: "\<not> no_sink (hist s')"
    using wp_returns [OF run_sends] by auto
  have f: "fetched run_env ''validator'' (''validator'', ''vr'') (hist (start run_result)) sink_vc run_result"
    by (simp add: fetched_def run_env_answers)
  have "lc_step run_tables \<lparr>lc_Stored = Some run_result, lc_Attempts = []\<rparr>
      \<lparr>lc_Stored = Some (obj s'), lc_Attempts = [\<lparr>at_Result = run_result, at_Sent = True, at_Recorded = True\<rparr>]\<rparr>"
    using lc_step.Reconciled [OF _ f run, of "\<lparr>lc_Stored = Some run_result, lc_Attempts = []\<rparr>" run_tables] sent
    by (simp add: new_events_def start_def)
  then show thesis
    using lc_reachable.Absent run_creates run_updates by (blast intro: that lc_reachable.Step)
qed

theorem lifecycle_sound_witness:
  "\<exists>c. lc_reachable run_tables c \<and> length (lc_Attempts c) = 1 \<and> at_Sent (lc_Attempts c ! 0) \<and>
     (vr_state (at_Result (lc_Attempts c ! 0)) = ValidationFailed \<or>
      vr_state (at_Result (lc_Attempts c ! 0)) = ValidationSucceeded) \<and> sound_result (at_Result (lc_Attempts c ! 0))"
proof -
  obtain vr where r: "lc_reachable run_tables \<lparr>lc_Stored = Some vr,
      lc_Attempts = [\<lparr>at_Result = run_result, at_Sent = True, at_Recorded = True\<rparr>]\<rparr>"
    by (rule run_reaches)
  from lifecycle_sound [OF r] r show ?thesis by (intro exI conjI) (rule r, simp_all)
qed

end
