(* ===== verification/Helm_Client.thy ===== *)
theory Helm_Client
  imports Runtime
begin

text \<open>
  \<^theory_text>\<open>pkg/helm\<close>: the options of a Helm command (options.go) and the client that runs the helm binary
  (helm.go).  What the client prints is an \<open>EvPrint\<close>, so that the masking of the password can be
  stated; the log lines about temporary files that could not be removed are left out.  The lemmas
  give the argument vector, the masking, the life of the temporary files, the errors, and that the
  polling for the kubeconfig file ends.
\<close>

section \<open>Options\<close>

text \<open>The two maps of \<^theory_text>\<open>--set\<close> values are lists in the order in which Go ranges over them.\<close>

record helm_options =
  ho_Chart :: string
  ho_Path :: string
  ho_Registry :: string
  ho_Repo :: string
  ho_Version :: string
  ho_Values :: string
  ho_SetValues :: "(string \<times> string) list"
  ho_SetStringValues :: "(string \<times> string) list"
  ho_Username :: string
  ho_Password :: string
  ho_Atomic :: bool
  ho_Force :: bool
  ho_CreateNamespace :: bool
  ho_Untar :: bool
  ho_UntarDir :: string
  ho_CaFile :: string
  ho_InsecureSkipTLSVerify :: bool
  ho_ExtraArgs :: "string list"

definition zero_options :: helm_options where
  "zero_options = \<lparr>ho_Chart = [], ho_Path = [], ho_Registry = [], ho_Repo = [], ho_Version = [],
     ho_Values = [], ho_SetValues = [], ho_SetStringValues = [], ho_Username = [], ho_Password = [],
     ho_Atomic = False, ho_Force = False, ho_CreateNamespace = False, ho_Untar = False,
     ho_UntarDir = [], ho_CaFile = [], ho_InsecureSkipTLSVerify = False, ho_ExtraArgs = []\<rparr>"

definition ConfigureRepo :: "helm_options \<Rightarrow> string list \<Rightarrow> string list" where
  "ConfigureRepo o' args = args @ [''--repo'', ho_Registry o' @ ''/'' @ ho_Repo o']"

definition ConfigureVersion :: "helm_options \<Rightarrow> string list \<Rightarrow> string list" where
  "ConfigureVersion o' args =
     (if ho_Version o' \<noteq> [] then args @ [''--version'', ho_Version o'] else args)"

definition ConfigureArchive :: "helm_options \<Rightarrow> string list \<Rightarrow> string list" where
  "ConfigureArchive o' args =
     (let args = (if ho_Untar o' then args @ [''--untar''] else args)
      in if ho_UntarDir o' \<noteq> [] then args @ [''--untardir'', ho_UntarDir o'] else args)"

definition ConfigureAuth :: "helm_options \<Rightarrow> string list \<Rightarrow> string list" where
  "ConfigureAuth o' args =
     (let args = (if ho_Username o' \<noteq> [] then args @ [''--username'', ho_Username o'] else args)
      in if ho_Password o' \<noteq> [] then args @ [''--password'', ho_Password o'] else args)"

definition ConfigureTLS :: "helm_options \<Rightarrow> string list \<Rightarrow> string list" where
  "ConfigureTLS o' args =
     (let args = (if ho_CaFile o' \<noteq> [] then args @ [''--ca-file'', ho_CaFile o'] else args)
      in if ho_InsecureSkipTLSVerify o' then args @ [''--insecure-skip-tls-verify''] else args)"

lemmas configure_defs = ConfigureRepo_def ConfigureVersion_def ConfigureArchive_def
  ConfigureAuth_def ConfigureTLS_def

section \<open>Running helm\<close>

text \<open>The client: the binary's path, and whether an output writer is set (\<^theory_text>\<open>NewHelmClient\<close> sets none).\<close>

record cli_client =
  cli_helmPath :: string
  cli_stdout :: bool

definition NewHelmClient :: cli_client where
  "NewHelmClient = \<lparr>cli_helmPath = ''./helm'', cli_stdout = False\<rparr>"

text \<open>The loop that writes the printable arguments; its argument is \<^theory_text>\<open>mask\<close>.\<close>

fun mask_args :: "bool \<Rightarrow> string list \<Rightarrow> string" where
  "mask_args masking [] = []"
| "mask_args masking (a # args) =
     (if masking then ''***** '' @ mask_args False args
      else a @ '' '' @ mask_args (a = ''--password'') args)"

definition print_line :: "string \<Rightarrow> ('o, unit) act" where
  "print_line t = go_call (EvPrint t) (\<lambda>_. ())"

definition run_command :: "env \<Rightarrow> string \<Rightarrow> string list \<Rightarrow> ('o, string \<times> goerror option) act" where
  "run_command env path args = go_call (EvExec path args) (\<lambda>h. e_Exec env h path args)"

definition helm_exec :: "env \<Rightarrow> cli_client \<Rightarrow> string list \<Rightarrow> ('o, goerror option) act" where
  "helm_exec env c args =
     (case args of
        [] \<Rightarrow> go_return None
      | arg0 # _ \<Rightarrow>
          (let sanitizedArgs = mask_args False args in
           go_bind (print_line (''helm '' @ sanitizedArgs)) (\<lambda>_.
           if cli_stdout c then
             go_bind (run_command env (cli_helmPath c) args) (\<lambda>(output, err). go_return err)
           else
             go_bind (run_command env (cli_helmPath c) args) (\<lambda>(output, err).
             case err of
               Some e \<Rightarrow>
                 if contains output ''release: not found'' then go_return None
                 else
                   go_bind (print_line (''Error executing command: helm '' @ sanitizedArgs)) (\<lambda>_.
                   go_bind (print_line (''Output: '' @ output @ '', Error: '' @ err_text e)) (\<lambda>_.
                   go_return (Some (errors_New (''error executing helm '' @ arg0 @ '': '' @ output)))))
             | None \<Rightarrow> go_return None))))"

section \<open>The kubeconfig file\<close>

definition minute :: int where "minute = 60000000000"
definition poll_interval :: int where "poll_interval = 50000000"

definition go_sleep :: "int \<Rightarrow> ('o, unit) act" where
  "go_sleep d = go_call (EvSleep d) (\<lambda>_. ())"

definition os_Stat :: "env \<Rightarrow> string \<Rightarrow> ('o, stat_answer) act" where
  "os_Stat env f = go_call (EvStat f) (\<lambda>h. e_Stat env h f)"

text \<open>
  The loop that waits for the file: it ends when the file can be seen, when another error occurs
  (the file is removed and the error returned), or when a minute has passed.
\<close>

fun poll_kubeconfig :: "env \<Rightarrow> nat \<Rightarrow> gotime \<Rightarrow> string \<Rightarrow> ('o, goerror option) act" where
  "poll_kubeconfig env 0 now f = go_panic StillRunning"
| "poll_kubeconfig env (Suc fuel) now f =
     go_bind (time_Now env) (\<lambda>t.
     if t - now < minute then
       go_bind (os_Stat env f) (\<lambda>st.
       case st of
         StatOk \<Rightarrow> go_return None
       | StatNotExist e \<Rightarrow> go_bind (go_sleep poll_interval) (\<lambda>_. poll_kubeconfig env fuel now f)
       | StatError e \<Rightarrow> go_bind (os_Remove env f) (\<lambda>_. go_return (Some e)))
     else go_return None)"

text \<open>1200 sleeps of 50 ms make a minute.\<close>

definition poll_fuel :: nat where "poll_fuel = Suc 1200"

definition create_temp :: "env \<Rightarrow> ('o, goerror + string) act" where
  "create_temp env = go_call EvCreateTemp (e_CreateTemp env)"

definition write_temp :: "env \<Rightarrow> string \<Rightarrow> string \<Rightarrow> ('o, goerror option) act" where
  "write_temp env f d = go_call (EvWriteTemp f d) (\<lambda>h. e_WriteTemp env h f d)"

definition close_temp :: "env \<Rightarrow> string \<Rightarrow> ('o, goerror option) act" where
  "close_temp env f = go_call (EvCloseTemp f) (\<lambda>h. e_CloseTemp env h f)"

text \<open>Create, write and close a temporary file: both callers do it the same way.\<close>

definition temp_file :: "env \<Rightarrow> string \<Rightarrow> ('o, goerror + string) act" where
  "temp_file env data =
     go_bind (create_temp env) (\<lambda>created.
     case created of
       Inl e \<Rightarrow> go_return (Inl (errors_Wrap e ''create temp file''))
     | Inr f \<Rightarrow>
         go_bind (write_temp env f data) (\<lambda>werr.
         case werr of
           Some e \<Rightarrow>
             go_bind (os_Remove env f) (\<lambda>_. go_return (Inl (errors_Wrap e ''write temp file'')))
         | None \<Rightarrow>
             go_bind (close_temp env f) (\<lambda>cerr.
             case cerr of
               Some e \<Rightarrow> go_return (Inl (errors_Wrap e ''close temp file''))
             | None \<Rightarrow> go_return (Inr f))))"

definition writeKubeConfig :: "env \<Rightarrow> ('o, goerror + string) act" where
  "writeKubeConfig env =
     (case e_KubeConfig env of
        Inl e \<Rightarrow> go_return (Inl e)
      | Inr data \<Rightarrow>
          go_bind (temp_file env data) (\<lambda>tf.
          case tf of
            Inl e \<Rightarrow> go_return (Inl e)
          | Inr f \<Rightarrow>
              go_bind (time_Now env) (\<lambda>now.
              go_bind (poll_kubeconfig env poll_fuel now f) (\<lambda>perr.
              case perr of Some e \<Rightarrow> go_return (Inl e) | None \<Rightarrow> go_return (Inr f)))))"

text \<open>\<^theory_text>\<open>if !preserveFiles { defer os.Remove(f) }\<close> around the rest of the function.\<close>

definition with_cleanup ::
  "env \<Rightarrow> string \<Rightarrow> ('o, goerror option) act \<Rightarrow> ('o, goerror option) act" where
  "with_cleanup env f body =
     go_bind go_glob (\<lambda>g.
     if \<not> preserve_files g then
       go_defer None body (\<lambda>r. go_bind (os_Remove env f) (\<lambda>_. go_return r))
     else body)"

section \<open>Delete, Pull, Upgrade\<close>

definition helm_Delete ::
  "env \<Rightarrow> cli_client \<Rightarrow> string \<Rightarrow> string \<Rightarrow> ('o, goerror option) act" where
  "helm_Delete env c name namespace =
     go_bind (writeKubeConfig env) (\<lambda>k.
     case k of
       Inl e \<Rightarrow> go_return (Some e)
     | Inr kubeConfig \<Rightarrow>
         with_cleanup env kubeConfig
           (helm_exec env c [''delete'', name, ''--namespace'', namespace, ''--kubeconfig'', kubeConfig]))"

definition pull_args :: "helm_options \<Rightarrow> string list" where
  "pull_args options =
     (let args = [''pull'', ho_Repo options];
          args = ConfigureVersion options args;
          args = ConfigureArchive options args;
          args = ConfigureAuth options args
      in ConfigureTLS options args)"

definition helm_Pull :: "env \<Rightarrow> cli_client \<Rightarrow> helm_options \<Rightarrow> ('o, goerror option) act" where
  "helm_Pull env c options =
     (if ho_Repo options = [] then go_return (Some (errors_New ''chart repo cannot be null''))
      else helm_exec env c (pull_args options))"

text \<open>The arguments up to the chart, with the checks of registry and repository.\<close>

definition chart_args :: "string \<Rightarrow> string \<Rightarrow> helm_options \<Rightarrow> goerror + string list" where
  "chart_args command name options =
     (let args = [command, name] in
      if ho_Path options \<noteq> [] then Inr (args @ [ho_Path options])
      else if ho_Chart options \<noteq> [] then
        (let args = args @ [ho_Chart options] in
         if ho_Registry options = [] then Inl (errors_New ''chart registry cannot be null'')
         else if ho_Repo options = [] then Inl (errors_New ''chart repo cannot be null'')
         else
           (let args = ConfigureRepo options args;
                args = ConfigureVersion options args;
                args = ConfigureAuth options args
            in Inr (ConfigureTLS options args)))
      else Inr args)"

definition common_args ::
  "string \<Rightarrow> string \<Rightarrow> string list \<Rightarrow> helm_options \<Rightarrow> string list \<Rightarrow> string list" where
  "common_args kubeConfig namespace extraArgs options args =
     (let args = args @ [''--kubeconfig'', kubeConfig, ''--namespace'', namespace];
          args = args @ extraArgs
      in if ho_CreateNamespace options then args @ [''--create-namespace''] else args)"

fun set_string :: "string \<Rightarrow> (string \<times> string) list \<Rightarrow> string" where
  "set_string setString [] = setString"
| "set_string setString ((key, value) # kvs) =
     set_string ((if setString \<noteq> [] then setString @ '','' else setString) @ key @ ''='' @ value) kvs"

definition set_args :: "helm_options \<Rightarrow> string list \<Rightarrow> string list" where
  "set_args options args =
     (let args = (if length (ho_SetValues options) > 0
                  then args @ [''--set'', set_string [] (ho_SetValues options)] else args);
          args = (if length (ho_SetStringValues options) > 0
                  then args @ [''--set-string'', set_string [] (ho_SetStringValues options)] else args);
          args = (if ho_Force options then args @ [''--force''] else args)
      in if ho_Atomic options then args @ [''--atomic''] else args)"

text \<open>The second half of \<^theory_text>\<open>run\<close>: the values file, the remaining flags and the execution.\<close>

definition run_values :: "env \<Rightarrow> cli_client \<Rightarrow> helm_options \<Rightarrow> string list \<Rightarrow> ('o, goerror option) act" where
  "run_values env c options args =
     (if ho_Values options \<noteq> [] then
        go_bind (temp_file env (ho_Values options)) (\<lambda>tf.
        case tf of
          Inl e \<Rightarrow> go_return (Some e)
        | Inr f \<Rightarrow>
            with_cleanup env f
              (go_bind (go_sleep 1000000) (\<lambda>_.
               helm_exec env c (set_args options (args @ [''--values'', f])))))
      else helm_exec env c (set_args options args))"

definition run_body ::
  "env \<Rightarrow> cli_client \<Rightarrow> string \<Rightarrow> string \<Rightarrow> helm_options \<Rightarrow> string \<Rightarrow> string list \<Rightarrow> string \<Rightarrow>
     ('o, goerror option) act" where
  "run_body env c name namespace options command extraArgs kubeConfig =
     (case chart_args command name options of
        Inl e \<Rightarrow> go_return (Some e)
      | Inr args \<Rightarrow>
          run_values env c options (common_args kubeConfig namespace extraArgs options args))"

definition helm_run ::
  "env \<Rightarrow> cli_client \<Rightarrow> string \<Rightarrow> string \<Rightarrow> helm_options \<Rightarrow> string \<Rightarrow> string list \<Rightarrow>
     ('o, goerror option) act" where
  "helm_run env c name namespace options command extraArgs =
     go_bind (writeKubeConfig env) (\<lambda>k.
     case k of
       Inl e \<Rightarrow> go_return (Some e)
     | Inr kubeConfig \<Rightarrow>
         with_cleanup env kubeConfig
           (run_body env c name namespace options command extraArgs kubeConfig))"

definition helm_Upgrade ::
  "env \<Rightarrow> cli_client \<Rightarrow> string \<Rightarrow> string \<Rightarrow> helm_options \<Rightarrow> ('o, goerror option) act" where
  "helm_Upgrade env c name namespace options =
     (let options = options\<lparr>ho_ExtraArgs := ho_ExtraArgs options @ [''--install'']\<rparr>
      in helm_run env c name namespace options ''upgrade'' (ho_ExtraArgs options))"

lemmas helm_prims = print_line_def run_command_def go_sleep_def os_Stat_def create_temp_def
  write_temp_def close_temp_def prim_defs

section \<open>The interface of a Helm client\<close>

text \<open>
  What the controllers rely on when they call a \<^theory_text>\<open>helm.Client\<close>: it talks to the file system, the
  clock, the terminal and the helm binary only, and it touches neither the object of the caller nor
  the process globals.
\<close>

fun is_helm_event :: "event \<Rightarrow> bool" where
  "is_helm_event EvNow = True"
| "is_helm_event EvCreateTemp = True"
| "is_helm_event (EvWriteTemp f d) = True"
| "is_helm_event (EvCloseTemp f) = True"
| "is_helm_event (EvStat f) = True"
| "is_helm_event (EvRemove f) = True"
| "is_helm_event (EvSleep d) = True"
| "is_helm_event (EvPrint t) = True"
| "is_helm_event (EvExec p a) = True"
| "is_helm_event _ = False"

lemma is_helm_event_local: "is_helm_event e \<Longrightarrow> \<not> is_sink_event e \<and> \<not> is_api_write e"
  by (cases e) auto

locale helm_iface =
  fixes delete :: "string \<Rightarrow> string \<Rightarrow> ('o, goerror option) act"
    and pull :: "helm_options \<Rightarrow> ('o, goerror option) act"
    and upgrade :: "string \<Rightarrow> string \<Rightarrow> helm_options \<Rightarrow> ('o, goerror option) act"
  assumes delete_local: "emits is_helm_event (delete name ns)"
    and pull_local: "emits is_helm_event (pull opts)"
    and upgrade_local: "emits is_helm_event (upgrade name ns opts)"
    and delete_frame: "keeps obj (delete name ns)" "keeps glob (delete name ns)"
    and pull_frame: "keeps obj (pull opts)" "keeps glob (pull opts)"
    and upgrade_frame: "keeps obj (upgrade name ns opts)" "keeps glob (upgrade name ns opts)"
begin

lemma delete_no_write: "emits (\<lambda>e. \<not> is_sink_event e \<and> \<not> is_api_write e) (delete name ns)"
  by (rule emits_mono [OF delete_local]) (simp add: is_helm_event_local)

lemma upgrade_no_write: "emits (\<lambda>e. \<not> is_sink_event e \<and> \<not> is_api_write e) (upgrade name ns opts)"
  by (rule emits_mono [OF upgrade_local]) (simp add: is_helm_event_local)

lemmas frames = delete_frame pull_frame upgrade_frame

end

text \<open>\<open>quiet P\<close>: \<open>P\<close> accepts what the client does besides executing helm and printing.\<close>

definition quiet :: "(event \<Rightarrow> bool) \<Rightarrow> bool" where
  "quiet P \<longleftrightarrow>
     (\<forall>e. is_helm_event e \<and> (\<forall>p a. e \<noteq> EvExec p a) \<and> (\<forall>t. e \<noteq> EvPrint t) \<longrightarrow> P e)"

lemma quiet_helm: "quiet is_helm_event"
  by (simp add: quiet_def)

lemma quietD:
  assumes "quiet P"
  shows "P EvNow" "P EvCreateTemp" "P (EvWriteTemp f d)" "P (EvCloseTemp f)" "P (EvStat f)"
    "P (EvRemove f)" "P (EvSleep n)"
  using assms by (simp_all add: quiet_def)

text \<open>What one execution of helm prints: the masked command line, and helm's answer when it failed.\<close>

definition exec_prints :: "env \<Rightarrow> cli_client \<Rightarrow> string list \<Rightarrow> string \<Rightarrow> bool" where
  "exec_prints env c args t \<longleftrightarrow>
     t = ''helm '' @ mask_args False args
     \<or> t = ''Error executing command: helm '' @ mask_args False args
     \<or> (\<exists>h out e. e_Exec env h (cli_helmPath c) args = (out, Some e)
          \<and> t = ''Output: '' @ out @ '', Error: '' @ err_text e)"

lemma helm_exec_emits:
  assumes "args \<noteq> [] \<Longrightarrow> P (EvExec (cli_helmPath c) args)"
    and "\<And>t. args \<noteq> [] \<Longrightarrow> exec_prints env c args t \<Longrightarrow> P (EvPrint t)"
  shows "emits P (helm_exec env c args)"
proof (rule emitsI)
  fix s :: "(event, globals, 'a) gostate"
  show "\<exists>es. hist (snd (helm_exec env c args s)) = hist s @ es \<and> list_all P es"
  proof (cases args)
    case (Cons a as)
    let ?h = "hist s @ [EvPrint (''helm '' @ mask_args False args)]"
    obtain out err where x: "e_Exec env ?h (cli_helmPath c) args = (out, err)" by fastforce
    have p: "P (EvExec (cli_helmPath c) args)" "P (EvPrint (''helm '' @ mask_args False args))"
      "P (EvPrint (''Error executing command: helm '' @ mask_args False args))"
      "err = Some e \<Longrightarrow> P (EvPrint (''Output: '' @ out @ '', Error: '' @ err_text e))" for e
      by (rule assms; use Cons x in \<open>auto simp: exec_prints_def\<close>)+
    show ?thesis
      using p x unfolding Cons
      by (cases err) (auto simp: helm_exec_def helm_prims go_eval Let_def simp del: mask_args.simps)
  qed (simp add: helm_exec_def go_eval)
qed

lemma poll_emits: "quiet P \<Longrightarrow> emits P (poll_kubeconfig env n now f)"
  by (induction n)
     (auto simp: helm_prims quietD intro!: emits_intros split: stat_answer.split)

lemma temp_file_emits: "quiet P \<Longrightarrow> emits P (temp_file env d)"
  by (auto simp: temp_file_def helm_prims quietD intro!: emits_intros)

lemma writeKubeConfig_emits: "quiet P \<Longrightarrow> emits P (writeKubeConfig env)"
  by (auto simp: writeKubeConfig_def prim_defs quietD intro!: emits_intros poll_emits temp_file_emits)

lemma with_cleanup_emits: "quiet P \<Longrightarrow> emits P m \<Longrightarrow> emits P (with_cleanup env f m)"
  by (auto simp: with_cleanup_def prim_defs quietD intro!: emits_intros)

lemma helm_exec_local: "emits is_helm_event (helm_exec env c args)"
  by (rule helm_exec_emits) simp_all

lemmas helm_emits = temp_file_emits writeKubeConfig_emits with_cleanup_emits

lemmas helm_local = helm_exec_local temp_file_emits [OF quiet_helm]
  writeKubeConfig_emits [OF quiet_helm] with_cleanup_emits [OF quiet_helm]

lemma helm_exec_frame: "keeps obj (helm_exec env c args)" "keeps glob (helm_exec env c args)"
  by (auto simp: helm_exec_def helm_prims Let_def intro!: frame_intros split: list.split)

lemma poll_frame: "keeps obj (poll_kubeconfig env n now f)" "keeps glob (poll_kubeconfig env n now f)"
  by (induction n)
     (auto simp: helm_prims intro!: frame_intros split: stat_answer.split)

lemma temp_file_frame: "keeps obj (temp_file env d)" "keeps glob (temp_file env d)"
  by (auto simp: temp_file_def helm_prims intro!: frame_intros)

lemma writeKubeConfig_frame: "keeps obj (writeKubeConfig env)" "keeps glob (writeKubeConfig env)"
  by (auto simp: writeKubeConfig_def prim_defs intro!: frame_intros poll_frame temp_file_frame)

lemma with_cleanup_frame:
  "keeps obj m \<Longrightarrow> keeps obj (with_cleanup env f m)"
  "keeps glob m \<Longrightarrow> keeps glob (with_cleanup env f m)"
  by (auto simp: with_cleanup_def prim_defs intro!: frame_intros)

lemmas helm_frames = helm_exec_frame temp_file_frame writeKubeConfig_frame with_cleanup_frame

interpretation cli: helm_iface "helm_Delete env c" "helm_Pull env c" "helm_Upgrade env c"
  by unfold_locales
     (auto simp: helm_Delete_def helm_Pull_def helm_Upgrade_def helm_run_def run_body_def
       run_values_def helm_prims Let_def
       intro!: emits_intros frame_intros helm_local helm_frames)

section \<open>Polling ends, and temporary files are removed\<close>

text \<open>
  The time spent sleeping in a history.  \<open>clock_ok\<close> is the documented behaviour of \<^theory_text>\<open>time.Sleep\<close> and
  of the monotonic clock: between two readings at least the time slept in between goes by.
\<close>

fun sleep_of :: "event \<Rightarrow> int" where
  "sleep_of (EvSleep d) = d"
| "sleep_of _ = 0"

definition slept :: "event list \<Rightarrow> int" where
  "slept h = sum_list (map sleep_of h)"

definition clock_ok :: "env \<Rightarrow> bool" where
  "clock_ok env \<longleftrightarrow> (\<forall>h es. e_Now env h + slept es \<le> e_Now env (h @ es))"

text \<open>
  The files written in a history that are not removed after the last write; a removal counts only
  when \<^theory_text>\<open>os.Remove\<close> answered without an error.
\<close>

fun pending_step :: "env \<Rightarrow> event list \<Rightarrow> event \<Rightarrow> string set \<Rightarrow> string set" where
  "pending_step env h (EvWriteTemp f d) fs = insert f fs"
| "pending_step env h (EvRemove f) fs = (if e_Remove env h f = None then fs - {f} else fs)"
| "pending_step env h _ fs = fs"

fun pending_after :: "env \<Rightarrow> event list \<Rightarrow> event list \<Rightarrow> string set \<Rightarrow> string set" where
  "pending_after env h [] fs = fs"
| "pending_after env h (e # es) fs = pending_after env (h @ [e]) es (pending_step env h e fs)"

definition pending :: "env \<Rightarrow> event list \<Rightarrow> string set" where
  "pending env h = pending_after env [] h {}"

lemma pending_after_append [simp]:
  "pending_after env h (xs @ ys) fs = pending_after env (h @ xs) ys (pending_after env h xs fs)"
  by (induction xs arbitrary: h fs) simp_all

lemma pending_append [simp]: "pending env (h @ es) = pending_after env h es (pending env h)"
  by (simp add: pending_def pending_after_append)

text \<open>Removing a file succeeds.\<close>

definition remove_ok :: "env \<Rightarrow> bool" where
  "remove_ok env \<longleftrightarrow> (\<forall>h f. e_Remove env h f = None)"

lemma remove_okD [simp]: "remove_ok env \<Longrightarrow> e_Remove env h f = None"
  by (simp add: remove_ok_def)

lemma slept_simps [simp]: "slept [] = 0" "slept (xs @ ys) = slept xs + slept ys"
  "slept (e # es) = sleep_of e + slept es"
  by (simp_all add: slept_def)

lemma clock_okD: "clock_ok env \<Longrightarrow> e_Now env h + slept es \<le> e_Now env (h @ es)"
  by (simp add: clock_ok_def)

lemma poll_ends:
  assumes ck: "clock_ok env"
  shows "hist s = h0 @ es \<Longrightarrow> minute \<le> slept es + int n * poll_interval \<Longrightarrow>
     wp (poll_kubeconfig env (Suc n) (e_Now env h0) f)
       (\<lambda>r s'. (remove_ok env \<longrightarrow> pending env (hist s') = pending env (hist s) - (if r = None then {} else {f}))
               \<and> glob s' = glob s) s"
proof (induction n arbitrary: s es)
  case 0
  have "\<not> e_Now env (h0 @ es) - e_Now env h0 < minute"
    using clock_okD [OF ck, of h0 es] 0 by simp
  then show ?case using 0 by (simp add: helm_prims wp_rules)
next
  case (Suc n)
  show ?case
  proof (cases "e_Stat env (hist s @ [EvNow]) f")
    case StatOk
    then show ?thesis by (simp add: helm_prims wp_rules)
  next
    case (StatError e)
    then show ?thesis by (simp add: helm_prims wp_rules)
  next
    case (StatNotExist e)
    let ?es = "es @ [EvNow, EvStat f, EvSleep poll_interval]"
    let ?s = "s\<lparr>hist := h0 @ ?es\<rparr>"
    have "minute \<le> slept ?es + int n * poll_interval"
      using Suc.prems(2) by (simp add: algebra_simps)
    from Suc.IH [of ?s ?es, OF _ this] have
      "wp (poll_kubeconfig env (Suc n) (e_Now env h0) f)
         (\<lambda>r s'. (remove_ok env \<longrightarrow> pending env (hist s') = pending env (hist ?s) - (if r = None then {} else {f}))
               \<and> glob s' = glob ?s) ?s" by simp
    moreover have "pending env (hist ?s) = pending env (hist s)"
      using Suc.prems(1) by simp
    ultimately show ?thesis using StatNotExist Suc.prems(1)
      by (subst poll_kubeconfig.simps(2))
         (simp add: helm_prims wp_rules del: poll_kubeconfig.simps)
  qed
qed

lemma poll_from_now:
  assumes "clock_ok env"
  shows "wp (poll_kubeconfig env poll_fuel (e_Now env (hist s)) f)
      (\<lambda>r s2. (remove_ok env \<longrightarrow> pending env (hist s2) = pending env (hist s) - (if r = None then {} else {f}))
               \<and> glob s2 = glob s) (s\<lparr>hist := hist s @ [EvNow]\<rparr>)"
  using poll_ends [OF assms, of "s\<lparr>hist := hist s @ [EvNow]\<rparr>" "hist s" "[EvNow]" 1200 f]
  by (simp add: poll_fuel_def minute_def poll_interval_def del: poll_kubeconfig.simps)

text \<open>What a function that may fail leaves behind: the files of \<open>P\<close>, and on success \<open>f\<close>.\<close>

definition close_ok :: "env \<Rightarrow> bool" where
  "close_ok env \<longleftrightarrow> (\<forall>h f. e_CloseTemp env h f = None)"

fun left_by :: "goerror + string \<Rightarrow> string set" where
  "left_by (Inl e) = {}"
| "left_by (Inr f) = {f}"

lemma temp_file_pending:
  assumes "close_ok env" and "remove_ok env"
  shows "wp (temp_file env d)
     (\<lambda>r s'. pending env (hist s') \<subseteq> pending env (hist s) \<union> left_by r \<and> glob s' = glob s) s"
  using assms
  by (auto simp: temp_file_def helm_prims wp_rules close_ok_def
      split: sum.split option.split)

lemma writeKubeConfig_pending:
  assumes ck: "clock_ok env" and cl: "close_ok env" and rm: "remove_ok env"
  shows "wp (writeKubeConfig env)
     (\<lambda>r s'. pending env (hist s') \<subseteq> pending env (hist s) \<union> left_by r \<and> glob s' = glob s) s"
proof (cases "e_KubeConfig env")
  case (Inr data)
  show ?thesis
    unfolding writeKubeConfig_def Inr sum.case wp_bind
    by (rule wp_mono [OF temp_file_pending [OF cl rm]])
       (auto simp: wp_rules helm_prims rm split: sum.split option.splits intro!: wp_mono [OF poll_from_now [OF ck]])
qed (simp add: writeKubeConfig_def wp_rules)

text \<open>The triple that the proofs below compose: at most the files of \<open>P\<close> are pending at the end.\<close>

definition tidy :: "env \<Rightarrow> ('o, 'a) act \<Rightarrow> string set \<Rightarrow> (event, globals, 'o) gostate \<Rightarrow> bool" where
  "tidy env m P s \<longleftrightarrow> wp m (\<lambda>r s'. pending env (hist s') \<subseteq> P \<and> glob s' = glob s) s"

lemma helm_exec_tidy: "pending env (hist s) \<subseteq> P \<Longrightarrow> tidy env (helm_exec env c args) P s"
  by (auto simp: tidy_def helm_exec_def helm_prims wp_rules Let_def
      split: list.split option.split prod.split)

lemma with_cleanup_tidy:
  "remove_ok env \<Longrightarrow> tidy env m (insert f P) s \<Longrightarrow> \<not> preserve_files (glob s) \<Longrightarrow> tidy env (with_cleanup env f m) P s"
  unfolding tidy_def
  by (auto simp: with_cleanup_def wp_rules helm_prims elim!: wp_mono)

text \<open>Create a file with \<open>mk\<close>, use it in \<open>body\<close>, remove it.\<close>

lemma file_tidy:
  fixes s :: "(event, globals, 'o) gostate"
  assumes mk: "wp mk (\<lambda>r s'. pending env (hist s') \<subseteq> pending env (hist s) \<union> left_by r \<and> glob s' = glob s) s"
    and body: "\<And>f s'. pending env (hist s') \<subseteq> insert f P \<Longrightarrow> glob s' = glob s \<Longrightarrow>
      tidy env (body f) (insert f P) s'"
    and P: "pending env (hist s) \<subseteq> P" and pf: "\<not> preserve_files (glob s)" and rm: "remove_ok env"
  shows "tidy env (go_bind mk (\<lambda>r. case r of Inl e \<Rightarrow> go_return (Some e)
           | Inr f \<Rightarrow> with_cleanup env f (body f))) P s"
  unfolding tidy_def wp_bind
proof (rule wp_mono [OF mk])
  fix r and s' :: "(event, globals, 'o) gostate"
  assume a: "pending env (hist s') \<subseteq> pending env (hist s) \<union> left_by r \<and> glob s' = glob s"
  show "wp (case r of Inl e \<Rightarrow> go_return (Some e) | Inr f \<Rightarrow> with_cleanup env f (body f))
     (\<lambda>r s'. pending env (hist s') \<subseteq> P \<and> glob s' = glob s) s'"
  proof (cases r)
    case (Inl e)
    then show ?thesis using a P by (auto simp: wp_rules)
  next
    case (Inr f)
    then have "tidy env (with_cleanup env f (body f)) P s'"
      by (intro with_cleanup_tidy body) (use a P pf rm in auto)
    then show ?thesis using a Inr by (simp add: tidy_def)
  qed
qed

lemma run_body_tidy:
  assumes cl: "close_ok env" and rm: "remove_ok env" and P: "pending env (hist s) \<subseteq> P" and pf: "\<not> preserve_files (glob s)"
  shows "tidy env (run_body env c name namespace options command extra k) P s"
proof -
  have sleep: "tidy env (go_bind (go_sleep 1000000) (\<lambda>_. helm_exec env c a)) P' s'"
    if "pending env (hist s') \<subseteq> P'" for a P' and s' :: "(event, globals, 'a) gostate"
    using helm_exec_tidy [of env "s'\<lparr>hist := hist s' @ [EvSleep 1000000]\<rparr>" P' c a] that
    by (simp add: tidy_def go_sleep_def wp_rules)
  have "tidy env (run_values env c options args) P s" for args
    unfolding run_values_def
    by (auto intro!: file_tidy [OF temp_file_pending [OF cl rm]] sleep helm_exec_tidy P pf rm)
  then show ?thesis
    using P by (simp add: run_body_def tidy_def wp_rules split: sum.split)
qed

lemma helm_run_tidy:
  assumes "clock_ok env" "close_ok env" "remove_ok env" "\<not> preserve_files (glob s)"
  shows "tidy env (helm_run env c name namespace options command extra) (pending env (hist s)) s"
  unfolding helm_run_def
  by (intro file_tidy [OF writeKubeConfig_pending] run_body_tidy) (use assms in auto)

lemma helm_Delete_tidy:
  assumes "clock_ok env" "close_ok env" "remove_ok env" "\<not> preserve_files (glob s)"
  shows "tidy env (helm_Delete env c name namespace) (pending env (hist s)) s"
  unfolding helm_Delete_def
  by (intro file_tidy [OF writeKubeConfig_pending] helm_exec_tidy) (use assms in auto)

text \<open>C22:
  Temporary files do not pile up.  When the clock advances with the sleeps, closing and removing a
  temporary file succeed, and HELM_PRESERVE_FILES is not set, \<^theory_text>\<open>Upgrade\<close> returns (no panic, no endless
  polling) and every file it wrote, the kubeconfig and the values file, has been removed, on every
  other path, errors of the other calls included.\<close>
theorem Upgrade_leaves_no_files:
  assumes "clock_ok env" and "close_ok env" and "remove_ok env" and "\<not> preserve_files (glob s)"
  shows "wp (helm_Upgrade env c name ns o') (\<lambda>r s'. pending env (hist s') \<subseteq> pending env (hist s)) s"
  using helm_run_tidy [OF assms] unfolding helm_Upgrade_def tidy_def Let_def
  by (rule wp_mono) simp

definition helm_test_env :: env where
  "helm_test_env = test_env\<lparr>e_Now := slept\<rparr>"

lemma helm_test_env_ok: "clock_ok helm_test_env" "close_ok helm_test_env" "remove_ok helm_test_env"
  by (simp_all add: helm_test_env_def clock_ok_def close_ok_def remove_ok_def test_env_def)

text \<open>A witness in which both files are written.\<close>

theorem Upgrade_leaves_no_files_witness:
  "wp (helm_Upgrade helm_test_env NewHelmClient ''r'' ''ns'' (zero_options\<lparr>ho_Values := ''a: 1''\<rparr>))
     (\<lambda>r s'. pending helm_test_env (hist s') \<subseteq> {}) (start ())"
  using Upgrade_leaves_no_files [OF helm_test_env_ok, of "start ()" NewHelmClient "''r''" "''ns''"
      "zero_options\<lparr>ho_Values := ''a: 1''\<rparr>"]
  by (simp add: start_def test_globals_def pending_def)

lemma writeKubeConfig_total:
  assumes "clock_ok env"
  shows "wp (writeKubeConfig env) (\<lambda>r s'. True) s"
proof -
  have poll: "wp (go_bind (time_Now env) (\<lambda>now. go_bind (poll_kubeconfig env poll_fuel now f) (\<lambda>perr.
      case perr of Some e \<Rightarrow> go_return (Inl e) | None \<Rightarrow> go_return (Inr f)))) (\<lambda>r s'. True) s'"
    for f and s' :: "(event, globals, 'a) gostate"
    unfolding prim_defs wp_bind wp_call
    by (rule wp_mono [OF poll_from_now [OF assms]]) (simp add: wp_rules split: option.split)
  have tf: "wp (temp_file env d) (\<lambda>r s'. True) s'" for d and s' :: "(event, globals, 'a) gostate"
    by (auto simp: temp_file_def helm_prims wp_rules split: sum.split option.split)
  show ?thesis
  proof (cases "e_KubeConfig env")
    case (Inr data)
    show ?thesis unfolding writeKubeConfig_def Inr sum.case wp_bind [of "temp_file _ _"]
      by (rule wp_mono [OF tf]) (simp add: wp_case_sum wp_return poll split: sum.split)
  qed (simp add: writeKubeConfig_def wp_return)
qed

lemma helm_exec_total: "wp (helm_exec env c args) (\<lambda>r s'. True) s"
  by (rule wp_mono [OF helm_exec_tidy [of env s "pending env (hist s)", unfolded tidy_def]]) simp_all

lemma with_cleanup_total:
  "wp m (\<lambda>r s'. True) s \<Longrightarrow> wp (with_cleanup env f m) (\<lambda>r s'. True) s"
  by (auto simp: with_cleanup_def wp_rules helm_prims elim!: wp_mono)

lemma temp_file_total: "wp (temp_file env d) (\<lambda>r s'. True) s"
  by (auto simp: temp_file_def helm_prims wp_rules split: sum.split option.split)

lemma file_total:
  assumes mk: "wp mk (\<lambda>r s'. True) s" and body: "\<And>f s'. wp (body f) (\<lambda>r s'. True) s'"
  shows "wp (go_bind mk (\<lambda>r. case r of Inl e \<Rightarrow> go_return (Some e)
           | Inr f \<Rightarrow> with_cleanup env f (body f))) (\<lambda>r s'. True) s"
  unfolding wp_bind
  by (rule wp_mono [OF mk]) (auto simp: wp_return wp_case_sum with_cleanup_total body split: sum.split)

lemma run_body_total: "wp (run_body env c name ns opts cmd x k) (\<lambda>r s'. True) s"
proof -
  have "wp (go_bind (go_sleep 1000000) (\<lambda>_. helm_exec env c a)) (\<lambda>r s'. True) s" for a
    and s :: "(event, globals, 'a) gostate"
    by (simp add: wp_bind go_sleep_def wp_call helm_exec_total)
  then have "wp (run_values env c opts args) (\<lambda>r s'. True) s" for args
    unfolding run_values_def by (auto intro!: file_total temp_file_total helm_exec_total)
  then show ?thesis by (simp add: run_body_def wp_return wp_case_sum split: sum.split)
qed

lemma helm_Upgrade_total: "clock_ok env \<Longrightarrow> wp (helm_Upgrade env c name ns opts) (\<lambda>r s'. True) s"
  unfolding helm_Upgrade_def helm_run_def Let_def
  by (intro file_total writeKubeConfig_total run_body_total)

lemma helm_Delete_total: "clock_ok env \<Longrightarrow> wp (helm_Delete env c name ns) (\<lambda>r s'. True) s"
  unfolding helm_Delete_def
  by (intro file_total writeKubeConfig_total helm_exec_total)

text \<open>C25: 
  Waiting for the kubeconfig file ends.  If the clock advances with the sleeps, \<^theory_text>\<open>writeKubeConfig\<close> makes
  at most 1200 rounds: it returns, with no panic, and never runs out of the model's fuel.\<close>
theorem writeKubeConfig_returns:
  assumes "clock_ok env"
  shows "wp (writeKubeConfig env) (\<lambda>r s'. True) s"
  by (rule writeKubeConfig_total [OF assms])

text \<open>A witness in which the file never appears.\<close>

definition absent_env :: env where
  "absent_env = helm_test_env\<lparr>e_Stat := (\<lambda>h f. StatNotExist (GoError ''no such file'' False))\<rparr>"

theorem writeKubeConfig_returns_witness:
  "wp (writeKubeConfig absent_env) (\<lambda>r s'. True) (start ())"
  by (rule writeKubeConfig_returns)
     (simp add: absent_env_def helm_test_env_def clock_ok_def)

section \<open>The argument vector\<close>

definition flag :: "string \<Rightarrow> string \<Rightarrow> string list" where
  "flag f v = (if v = [] then [] else [f, v])"

definition switch :: "string \<Rightarrow> bool \<Rightarrow> string list" where
  "switch f b = (if b then [f] else [])"

lemma chart_args_table:
  "chart_args command name opts =
     (if ho_Path opts \<noteq> [] then Inr [command, name, ho_Path opts]
      else if ho_Chart opts = [] then Inr [command, name]
      else if ho_Registry opts = [] then Inl (errors_New ''chart registry cannot be null'')
      else if ho_Repo opts = [] then Inl (errors_New ''chart repo cannot be null'')
      else Inr ([command, name, ho_Chart opts, ''--repo'', ho_Registry opts @ ''/'' @ ho_Repo opts]
          @ flag ''--version'' (ho_Version opts) @ flag ''--username'' (ho_Username opts)
          @ flag ''--password'' (ho_Password opts) @ flag ''--ca-file'' (ho_CaFile opts)
          @ switch ''--insecure-skip-tls-verify'' (ho_InsecureSkipTLSVerify opts)))"
  by (simp add: chart_args_def configure_defs flag_def switch_def Let_def)

definition pairs :: "string \<Rightarrow> (string \<times> string) list \<Rightarrow> string list" where
  "pairs f kvs = (if kvs = [] then [] else [f, join (map (\<lambda>(k, v). k @ ''='' @ v) kvs) '',''])"

text \<open>What \<^theory_text>\<open>helm upgrade\<close> is called with, as a table of flags.\<close>

definition upgrade_argv :: "string \<Rightarrow> string \<Rightarrow> helm_options \<Rightarrow> string \<Rightarrow> string option \<Rightarrow> string list" where
  "upgrade_argv name ns opts k v =
     [''upgrade'', name]
     @ (if ho_Path opts \<noteq> [] then [ho_Path opts]
        else if ho_Chart opts \<noteq> [] then
          [ho_Chart opts, ''--repo'', ho_Registry opts @ ''/'' @ ho_Repo opts]
          @ flag ''--version'' (ho_Version opts)
          @ flag ''--username'' (ho_Username opts) @ flag ''--password'' (ho_Password opts)
          @ flag ''--ca-file'' (ho_CaFile opts)
          @ switch ''--insecure-skip-tls-verify'' (ho_InsecureSkipTLSVerify opts)
        else [])
     @ [''--kubeconfig'', k, ''--namespace'', ns] @ ho_ExtraArgs opts @ [''--install'']
     @ switch ''--create-namespace'' (ho_CreateNamespace opts)
     @ (case v of None \<Rightarrow> [] | Some f \<Rightarrow> [''--values'', f])
     @ pairs ''--set'' (ho_SetValues opts) @ pairs ''--set-string'' (ho_SetStringValues opts)
     @ switch ''--force'' (ho_Force opts) @ switch ''--atomic'' (ho_Atomic opts)"

lemma set_string_acc:
  "set_string acc kvs = (if kvs = [] then acc else
     (if acc \<noteq> [] then acc @ '','' else []) @ join (map (\<lambda>(k, v). k @ ''='' @ v) kvs) '','')"
proof (induction kvs arbitrary: acc)
  case (Cons kv kvs)
  then show ?case by (cases kv; cases kvs) auto
qed simp

definition chart_located :: "helm_options \<Rightarrow> bool" where
  "chart_located opts \<longleftrightarrow>
     (ho_Path opts = [] \<and> ho_Chart opts \<noteq> [] \<longrightarrow> ho_Registry opts \<noteq> [] \<and> ho_Repo opts \<noteq> [])"

lemma upgrade_args_table:
  "chart_args ''upgrade'' name opts = Inr as \<Longrightarrow>
     chart_located opts \<and>
     set_args opts (common_args k ns (ho_ExtraArgs opts) opts as @ (case v of None \<Rightarrow> [] | Some f \<Rightarrow> [''--values'', f]))
       = upgrade_argv name ns (opts\<lparr>ho_ExtraArgs := butlast (ho_ExtraArgs opts)\<rparr>) k v"
  if "ho_ExtraArgs opts = xs @ [''--install'']"
  using that
  by (cases v)
     (auto simp: chart_args_table chart_located_def common_args_def set_args_def upgrade_argv_def
        pairs_def switch_def set_string_acc Let_def split: if_splits)

text \<open>All that \<^theory_text>\<open>Upgrade\<close> does, given what is known of the commands it runs and of what they print.\<close>

lemma helm_Upgrade_emits:
  assumes q: "quiet P"
    and ex: "\<And>k v. chart_located opts \<Longrightarrow> (v = None \<longleftrightarrow> ho_Values opts = []) \<Longrightarrow>
      P (EvExec (cli_helmPath c) (upgrade_argv name ns opts k v))"
    and pr: "\<And>k v t. exec_prints env c (upgrade_argv name ns opts k v) t \<Longrightarrow> P (EvPrint t)"
  shows "emits P (helm_Upgrade env c name ns opts)"
proof -
  let ?o = "opts\<lparr>ho_ExtraArgs := ho_ExtraArgs opts @ [''--install'']\<rparr>"
  have run: "emits P (helm_exec env c (set_args ?o
        (common_args k ns (ho_ExtraArgs ?o) ?o as @ (case v of None \<Rightarrow> [] | Some f \<Rightarrow> [''--values'', f]))))"
    if "chart_args ''upgrade'' name ?o = Inr as" "v = None \<longleftrightarrow> ho_Values opts = []" for as k v
  proof -
    have loc: "chart_located opts"
      using upgrade_args_table [OF _ that(1), of "ho_ExtraArgs opts" k ns v]
      by (simp add: chart_located_def)
    have "emits P (helm_exec env c (upgrade_argv name ns opts k v))"
      by (rule helm_exec_emits) (auto intro: ex [OF loc that(2)] pr)
    then show ?thesis
      using upgrade_args_table [OF _ that(1), of "ho_ExtraArgs opts" k ns v] by simp
  qed
  have "emits P (run_values env c ?o (common_args k ns (ho_ExtraArgs ?o) ?o as))"
    if "chart_args ''upgrade'' name ?o = Inr as" for as k
    using run [OF that, of None k] run [OF that, of "Some f" k for f]
    by (auto simp: run_values_def go_sleep_def quietD [OF q] intro!: emits_intros helm_emits q)
  then show ?thesis
    by (auto simp: helm_Upgrade_def helm_run_def run_body_def Let_def
        intro!: emits_intros helm_emits q)
qed

definition upgrade_event :: "cli_client \<Rightarrow> string \<Rightarrow> string \<Rightarrow> helm_options \<Rightarrow> event \<Rightarrow> bool" where
  "upgrade_event c name ns opts e \<longleftrightarrow>
     (case e of
        EvExec p a \<Rightarrow> p = cli_helmPath c \<and> chart_located opts \<and>
          (\<exists>k v. a = upgrade_argv name ns opts k v \<and> (v = None \<longleftrightarrow> ho_Values opts = []))
      | _ \<Rightarrow> is_helm_event e)"

text \<open>C24: 
  The argument vector of \<^theory_text>\<open>Upgrade\<close>.  The only command it runs is the client's helm binary with the
  arguments of the table \<open>upgrade_argv\<close>: chart and credentials only when no path is given, the
  maps of \<^theory_text>\<open>--set\<close> joined by commas, the values file exactly when values are given, \<^theory_text>\<open>--install\<close>
  always; and it runs nothing when a chart is named without its registry and repository.\<close>
theorem Upgrade_argv:
  "emits (upgrade_event c name ns opts) (helm_Upgrade env c name ns opts)"
proof (rule helm_Upgrade_emits)
  show "quiet (upgrade_event c name ns opts)"
    by (auto simp: quiet_def upgrade_event_def split: event.split)
qed (auto simp: upgrade_event_def)

section \<open>The password on the terminal\<close>












text \<open>
  The masking is by position only: with the username \<^theory_text>\<open>--password\<close> it is the flag itself that is
  masked, and the password is printed.\<close>
lemma password_mask_by_position:
  "contains (mask_args False (ConfigureAuth
     (zero_options\<lparr>ho_Username := ''--password'', ho_Password := CHR ''x'' # p\<rparr>) [])) (CHR ''x'' # p)"
  unfolding contains_iff
  by (rule exI [of _ "''--username --password ***** ''"], rule exI [of _ "'' ''"])
     (simp add: ConfigureAuth_def zero_options_def)

end
