(* ===== verification/Helm_Release.thy ===== *)
theory Helm_Release
  imports Runtime
begin

text \<open>
  \<^theory_text>\<open>pkg/helm/release\<close>: reading Helm releases from the cluster's secrets (release.go, types.go).
  Base64 is decoded in the model; decompression and JSON decoding are the functions of a
  \<open>release_codec\<close>, which the definitions take as an argument.  The log lines are left out.  The lemmas say which releases a listing returns, that \<open>Get\<close> returns the
  first one of the highest version, and that decoding inverts encoding.
\<close>

section \<open>types.go\<close>

datatype json =
    JNull
  | JBool bool
  | JNumber string
  | JString string
  | JArray "json list"
  | JObject "(string \<times> json) list"

record release_info =
  ri_FirstDeployed :: gotime
  ri_LastDeployed :: gotime
  ri_Deleted :: gotime
  ri_Description :: string
  ri_Status :: string
  ri_Notes :: string

record maintainer =
  mt_Name :: string
  mt_Email :: string
  mt_URL :: string

record chart_metadata =
  cm_Name :: string
  cm_Home :: string
  cm_Sources :: "string list"
  cm_Version :: string
  cm_Description :: string
  cm_Keywords :: "string list"
  cm_Maintainers :: "maintainer option list"
  cm_Icon :: string
  cm_APIVersion :: string
  cm_Condition :: string
  cm_Tags :: string
  cm_AppVersion :: string
  cm_Deprecated :: bool
  cm_Annotations :: annotations
  cm_KubeVersion :: string
  cm_Type :: string
  cm_Urls :: "string list"

record release_chart =
  ch_Metadata :: "chart_metadata option"

record release =
  rls_Name :: string
  rls_Info :: "release_info option"
  rls_Chart :: "release_chart option"
  rls_Config :: "string \<rightharpoonup> json"
  rls_Version :: int
  rls_Namespace :: string
  rls_Secret :: "secret option"

section \<open>Decoding\<close>

text \<open>
  \<^theory_text>\<open>gzip.NewReader\<close> followed by \<^theory_text>\<open>io.ReadAll\<close>, \<^theory_text>\<open>json.Unmarshal\<close> into a fresh \<^theory_text>\<open>Release\<close>, and the
  text of the base64 error.
\<close>

record release_codec =
  cd_gunzip :: "nat list \<Rightarrow> goerror + nat list"
  cd_unmarshal :: "nat list \<Rightarrow> goerror + release"
  cd_b64_error :: "string \<Rightarrow> goerror"

definition magicGzip :: "nat list" where
  "magicGzip = [31, 139, 8]"

definition decodeRelease :: "release_codec \<Rightarrow> secret \<Rightarrow> string \<Rightarrow> goerror + release" where
  "decodeRelease cd sec data =
     (case b64_decode data of
        None \<Rightarrow> Inl (cd_b64_error cd data)
      | Some b \<Rightarrow>
          if length b < 3 then Inl (errors_New (''unexpected secret content: '' @ data))
          else
            (case (if take 3 b = magicGzip then cd_gunzip cd b else Inr b) of
               Inl e \<Rightarrow> Inl e
             | Inr b \<Rightarrow>
                 (case cd_unmarshal cd b of
                    Inl e \<Rightarrow> Inl (errors_New (''error decoding Helm release '' @ string_of_bytes b @
                                '': '' @ err_text e))
                  | Inr rls \<Rightarrow> Inr (rls\<lparr>rls_Secret := Some sec\<rparr>))))"

section \<open>List and Get\<close>

text \<open>
  A label selector is the list of its requirements \<^theory_text>\<open>key = value\<close>; \<open>None\<close> is the nil selector.
\<close>

type_synonym selector = "(string \<times> string) list"

fun release_items :: "release_codec \<Rightarrow> secret list \<Rightarrow> release list \<Rightarrow> release list" where
  "release_items cd [] releases = releases"
| "release_items cd (item # items) releases =
     (case decodeRelease cd item (case sec_Data item ''release'' of None \<Rightarrow> [] | Some d \<Rightarrow> d) of
        Inl e \<Rightarrow> release_items cd items releases
      | Inr rls \<Rightarrow>
          (case rls_Chart rls of
             None \<Rightarrow> release_items cd items releases
           | Some ch \<Rightarrow>
               if ch_Metadata ch = None \<or> rls_Info rls = None then release_items cd items releases
               else release_items cd items (releases @ [rls])))"

definition release_List ::
  "env \<Rightarrow> release_codec \<Rightarrow> selector option \<Rightarrow> string \<Rightarrow> ('o, goerror + release list) act" where
  "release_List env cd labels namespace =
     (let labels = (case labels of None \<Rightarrow> [] | Some l \<Rightarrow> l);
          labels = labels @ [(''owner'', ''helm'')] in
      go_bind (go_call (EvListSecrets labels namespace) (\<lambda>h. e_ListSecrets env h labels namespace)) (\<lambda>got.
      case got of
        Inl e \<Rightarrow> go_return (Inl e)
      | Inr items \<Rightarrow> go_return (Inr (release_items cd items []))))"

fun latest_release :: "release option \<Rightarrow> release list \<Rightarrow> release option" where
  "latest_release latest [] = latest"
| "latest_release latest (rls # rs) =
     latest_release
       (case latest of
          None \<Rightarrow> Some rls
        | Some l \<Rightarrow> if rls_Version l < rls_Version rls then Some rls else latest) rs"

definition release_Get ::
  "env \<Rightarrow> release_codec \<Rightarrow> string \<Rightarrow> string \<Rightarrow> ('o, goerror + release) act" where
  "release_Get env cd name namespace =
     go_bind (release_List env cd (Some [(''name'', name)]) namespace) (\<lambda>got.
     case got of
       Inl e \<Rightarrow> go_return (Inl e)
     | Inr releaseList \<Rightarrow>
         (case latest_release None releaseList of
            None \<Rightarrow> go_return (Inl (e_NewNotFound env ''Secret'' name))
          | Some rls \<Rightarrow> go_return (Inr rls)))"

section \<open>Lemmas\<close>

text \<open>The releases a listing keeps, as a filter.\<close>

definition usable :: "release \<Rightarrow> bool" where
  "usable rls \<longleftrightarrow> (case rls_Chart rls of None \<Rightarrow> False | Some ch \<Rightarrow> ch_Metadata ch \<noteq> None) \<and> rls_Info rls \<noteq> None"

definition item_release :: "release_codec \<Rightarrow> secret \<Rightarrow> release option" where
  "item_release cd item =
     (case decodeRelease cd item (case sec_Data item ''release'' of None \<Rightarrow> [] | Some d \<Rightarrow> d) of
        Inl e \<Rightarrow> None
      | Inr rls \<Rightarrow> if usable rls then Some rls else None)"

lemma release_items_filter: "release_items cd items acc = acc @ List.map_filter (item_release cd) items"
  by (induction items arbitrary: acc)
     (auto simp: item_release_def usable_def List.map_filter_def split: sum.split option.split)

lemma decodeRelease_secret: "decodeRelease cd sec d = Inr rls \<Longrightarrow> rls_Secret rls = Some sec"
  by (auto simp: decodeRelease_def split: option.splits sum.splits if_splits)

lemma item_release_secret: "item_release cd item = Some rls \<Longrightarrow> rls_Secret rls = Some item \<and> usable rls"
  by (auto simp: item_release_def dest: decodeRelease_secret split: sum.splits if_splits)

text \<open>The first element of the highest version.\<close>

definition first_max :: "release list \<Rightarrow> release \<Rightarrow> bool" where
  "first_max rs r \<longleftrightarrow> (\<exists>pre post. rs = pre @ r # post \<and>
     list_all (\<lambda>x. rls_Version x < rls_Version r) pre \<and> list_all (\<lambda>x. rls_Version x \<le> rls_Version r) post)"

lemma latest_release_from:
  "\<exists>r. latest_release (Some l) rs = Some r \<and> first_max (l # rs) r"
proof (induction rs arbitrary: l)
  case Nil
  show ?case by (auto simp: first_max_def intro!: exI [of _ "[]"])
next
  case (Cons x rs)
  show ?case
  proof (cases "rls_Version l < rls_Version x")
    case True
    from Cons [of x] obtain r pre post where r: "latest_release (Some x) rs = Some r"
      and s: "x # rs = pre @ r # post" "list_all (\<lambda>y. rls_Version y < rls_Version r) pre"
        "list_all (\<lambda>y. rls_Version y \<le> rls_Version r) post"
      by (auto simp: first_max_def)
    have "rls_Version x \<le> rls_Version r" using s by (cases pre) auto
    then have "first_max (l # x # rs) r" unfolding first_max_def using s True
      by (intro exI [of _ "l # pre"] exI [of _ post]) auto
    then show ?thesis using r True by simp
  next
    case False
    from Cons [of l] obtain r pre post where r: "latest_release (Some l) rs = Some r"
      and s: "l # rs = pre @ r # post" "list_all (\<lambda>y. rls_Version y < rls_Version r) pre"
        "list_all (\<lambda>y. rls_Version y \<le> rls_Version r) post"
      by (auto simp: first_max_def)
    have "first_max (l # x # rs) r"
    proof (cases pre)
      case Nil
      then show ?thesis unfolding first_max_def using s False
        by (intro exI [of _ "[]"] exI [of _ "x # rs"]) auto
    next
      case (Cons a pre')
      then show ?thesis unfolding first_max_def using s False
        by (intro exI [of _ "l # x # pre'"] exI [of _ post]) auto
    qed
    then show ?thesis using r False by simp
  qed
qed

lemma latest_release_None:
  "latest_release None rs = (if rs = [] then None else latest_release (Some (hd rs)) (tl rs))"
  by (cases rs) auto

lemma latest_release_first_max: "latest_release None rs = Some r \<Longrightarrow> first_max rs r"
  using latest_release_from [of "hd rs" "tl rs"]
  by (cases rs) (auto simp: latest_release_None)

section \<open>The interface of a release client\<close>

text \<open>
  What the ValidatorConfig controller relies on: a lookup only lists secrets, changes nothing in the
  process, and the release it returns carries the secret it was read from.
\<close>

locale release_iface =
  fixes get :: "string \<Rightarrow> string \<Rightarrow> ('o, goerror + release) act"
  assumes get_local: "emits (\<lambda>e. \<exists>l. e = EvListSecrets l ns) (get name ns)"
    and get_frame: "keeps obj (get name ns)" "keeps glob (get name ns)"
    and get_total: "wp (get name ns) (\<lambda>r s'. \<forall>rls. r = Inr rls \<longrightarrow> rls_Secret rls \<noteq> None) s"
begin

lemma get_no_write: "emits (\<lambda>e. \<not> is_sink_event e \<and> \<not> is_api_write e) (get name ns)"
  by (rule emits_mono [OF get_local]) auto

end

lemma release_Get_run:
  "release_Get env cd name ns s =
     (Inr (case e_ListSecrets env (hist s) [(''name'', name), (''owner'', ''helm'')] ns of
             Inl e \<Rightarrow> Inl e
           | Inr items \<Rightarrow>
               (case latest_release None (List.map_filter (item_release cd) items) of
                  None \<Rightarrow> Inl (e_NewNotFound env ''Secret'' name) | Some r \<Rightarrow> Inr r)),
      s\<lparr>hist := hist s @ [EvListSecrets [(''name'', name), (''owner'', ''helm'')] ns]\<rparr>)"
  by (simp add: release_Get_def release_List_def go_eval release_items_filter Let_def
      split: sum.split option.split)

lemma first_max_in: "first_max rs r \<Longrightarrow> r \<in> set rs"
  by (auto simp: first_max_def)

lemma map_filter_secret: "r \<in> set (List.map_filter (item_release cd) items) \<Longrightarrow>
    \<exists>item \<in> set items. rls_Secret r = Some item \<and> usable r"
  using item_release_secret by (force simp: List.map_filter_def)

interpretation helm_releases: release_iface "release_Get env cd"
proof
  fix ns name and s :: "(event, globals, 'a) gostate"
  show "emits (\<lambda>e. \<exists>l. e = EvListSecrets l ns) (release_Get env cd name ns)"
    by (auto simp: release_Get_def release_List_def Let_def intro!: emits_intros)
  show "keeps obj (release_Get env cd name ns)" "keeps glob (release_Get env cd name ns)"
    by (auto simp: release_Get_def release_List_def Let_def intro!: frame_intros)
  show "wp (release_Get env cd name ns) (\<lambda>r s'. \<forall>rls. r = Inr rls \<longrightarrow> rls_Secret rls \<noteq> None) s"
    unfolding wp_def release_Get_run
    by (auto split: sum.splits option.splits
        dest!: latest_release_first_max first_max_in map_filter_secret)
qed

section \<open>Properties\<close>

text \<open>C28: 
  \<^theory_text>\<open>Get\<close> asks for the secrets of the namespace that carry the release's name and Helm's owner label,
  and returns the first release of the highest version among those that decode and have chart
  metadata and info; the release carries the secret it was decoded from.  It reports NotFound
  exactly when there is none, and passes on an error of the API server.\<close>
theorem release_Get_latest:
  "wp (release_Get env cd name ns) (\<lambda>r s'.
     hist s' = hist s @ [EvListSecrets [(''name'', name), (''owner'', ''helm'')] ns] \<and>
     (case e_ListSecrets env (hist s) [(''name'', name), (''owner'', ''helm'')] ns of
        Inl e \<Rightarrow> r = Inl e
      | Inr items \<Rightarrow>
          (case r of
             Inl e \<Rightarrow> List.map_filter (item_release cd) items = [] \<and> e = e_NewNotFound env ''Secret'' name
           | Inr rls \<Rightarrow> first_max (List.map_filter (item_release cd) items) rls \<and> usable rls \<and>
               (\<exists>item. item \<in> set items \<and> rls_Secret rls = Some item)))) s"
proof -
  have key: "case case latest_release None (List.map_filter (item_release cd) items) of
            None \<Rightarrow> Inl (e_NewNotFound env ''Secret'' name) | Some r \<Rightarrow> Inr r of
          Inl e \<Rightarrow> List.map_filter (item_release cd) items = [] \<and> e = e_NewNotFound env ''Secret'' name
        | Inr rls \<Rightarrow> first_max (List.map_filter (item_release cd) items) rls \<and> usable rls \<and>
            (\<exists>item. item \<in> set items \<and> rls_Secret rls = Some item)" for items
  proof (cases "latest_release None (List.map_filter (item_release cd) items)")
    case None
    then show ?thesis
      using latest_release_from [of "hd (List.map_filter (item_release cd) items)"]
      by (auto simp: latest_release_None split: if_splits) (metis option.distinct(1))
  next
    case (Some r)
    from map_filter_secret [OF first_max_in [OF latest_release_first_max [OF Some]]] show ?thesis
      using Some latest_release_first_max [OF Some] by auto
  qed
  show ?thesis unfolding wp_def release_Get_run
    by (cases "e_ListSecrets env (hist s) [(''name'', name), (''owner'', ''helm'')] ns") (simp_all add: key)
qed

text \<open>
  How Helm stores a release: as base64 of the JSON text, compressed unless an old Helm wrote it.  The
  compressor and Helm's JSON encoder are arguments.  A gzip stream starts with the two identification
  bytes and the number of the deflate method, and decompressing gives back what was compressed; the
  JSON text of a release starts with its name, and what this program reads of the text is its view of
  Helm's release.
\<close>

definition helm_encode :: "(nat list \<Rightarrow> nat list) \<Rightarrow> ('h \<Rightarrow> nat list) \<Rightarrow> 'h \<Rightarrow> string" where
  "helm_encode gzip marshal x = b64_encode (gzip (marshal x))"

definition gzip_format :: "(nat list \<Rightarrow> nat list) \<Rightarrow> (nat list \<Rightarrow> goerror + nat list) \<Rightarrow> bool" where
  "gzip_format gzip gunzip \<longleftrightarrow> (\<forall>b. list_all (\<lambda>x. x < 256) b \<longrightarrow> list_all (\<lambda>x. x < 256) (gzip b) \<and>
     (\<exists>rest. gzip b = 0x1F # 0x8B # 8 # rest) \<and> gunzip (gzip b) = Inr b)"

text \<open>The bytes of the text that opens a brace, the key \<^theory_text>\<open>name\<close> in double quotes, a colon and a double quote.\<close>

definition json_name_start :: "nat list" where
  "json_name_start = [123, 34, 110, 97, 109, 101, 34, 58, 34]"

definition json_format :: "('h \<Rightarrow> nat list) \<Rightarrow> (nat list \<Rightarrow> goerror + release) \<Rightarrow> ('h \<Rightarrow> release) \<Rightarrow> bool" where
  "json_format marshal unmarshal view \<longleftrightarrow> (\<forall>x. rls_Name (view x) \<noteq> [] \<longrightarrow>
     list_all (\<lambda>x. x < 256) (marshal x) \<and> (\<exists>rest. marshal x = json_name_start @ rest) \<and>
     unmarshal (marshal x) = Inr (view x))"

text \<open>C33:
  Decoding inverts Helm's encoding, the present one and the one of releases that were stored before
  compression was introduced.  If the compressor follows the gzip format and the JSON encoder writes
  the name of a release first, then decoding what Helm stored for a release with a name gives this
  program's view of it, with the secret attached, whether or not it was compressed.\<close>
theorem decodeRelease_roundtrip:
  assumes gz: "gzip_format gzip (cd_gunzip cd)" and js: "json_format marshal (cd_unmarshal cd) view"
    and name: "rls_Name (view x) \<noteq> []"
  shows "decodeRelease cd sec (helm_encode gzip marshal x) = Inr ((view x)\<lparr>rls_Secret := Some sec\<rparr>) \<and>
    decodeRelease cd sec (helm_encode id marshal x) = Inr ((view x)\<lparr>rls_Secret := Some sec\<rparr>)"
proof -
  obtain rest where m: "list_all (\<lambda>x. x < 256) (marshal x)" "marshal x = json_name_start @ rest"
    "cd_unmarshal cd (marshal x) = Inr (view x)" using js name unfolding json_format_def by blast
  obtain rest' where z: "list_all (\<lambda>x. x < 256) (gzip (marshal x))" "gzip (marshal x) = 0x1F # 0x8B # 8 # rest'"
    "cd_gunzip cd (gzip (marshal x)) = Inr (marshal x)" using gz m(1) unfolding gzip_format_def by blast
  have d: "b64_decode (helm_encode gzip marshal x) = Some (gzip (marshal x))"
    "b64_decode (helm_encode id marshal x) = Some (marshal x)"
    using m(1) z(1) by (simp_all add: helm_encode_def b64_decode_encode)
  have "take 3 (gzip (marshal x)) = magicGzip" "3 \<le> length (gzip (marshal x))"
    unfolding z(2) by (simp_all add: magicGzip_def)
  moreover have "take 3 (marshal x) \<noteq> magicGzip" "3 \<le> length (marshal x)"
    unfolding m(2) by (simp_all add: magicGzip_def json_name_start_def)
  ultimately show ?thesis by (simp add: decodeRelease_def d z(3) m(3))
qed

definition test_release :: release where
  "test_release = \<lparr>rls_Name = ''aws'', rls_Info = None, rls_Chart = None, rls_Config = Map.empty,
     rls_Version = 1, rls_Namespace = ''ns'', rls_Secret = None\<rparr>"

definition test_codec :: release_codec where
  "test_codec = \<lparr>cd_gunzip = (\<lambda>b. Inr (drop 3 b)), cd_unmarshal = (\<lambda>b. Inr test_release),
     cd_b64_error = (\<lambda>s. errors_New ''illegal base64 data'')\<rparr>"

definition test_secret :: secret where
  "test_secret = \<lparr>sec_Name = ''s'', sec_Labels = Some [''owner'' \<mapsto> ''helm''], sec_Data = Map.empty\<rparr>"

text \<open>A witness in which a release is only its name and compressing only adds the header.\<close>

definition name_codec :: release_codec where
  "name_codec = test_codec\<lparr>cd_unmarshal := (\<lambda>b. Inr (test_release\<lparr>rls_Name := string_of_bytes (drop 9 b)\<rparr>))\<rparr>"

theorem decodeRelease_roundtrip_witness:
  "decodeRelease name_codec test_secret
       (helm_encode ((@) [31, 139, 8]) (\<lambda>n. json_name_start @ bytes_of n) ''oci'') =
     Inr (test_release\<lparr>rls_Name := ''oci'', rls_Secret := Some test_secret\<rparr>)"
  using decodeRelease_roundtrip [of "(@) [31, 139, 8]" name_codec "\<lambda>n. json_name_start @ bytes_of n"
      "\<lambda>n. test_release\<lparr>rls_Name := n\<rparr>" "''oci''" test_secret]
  by (simp add: gzip_format_def json_format_def name_codec_def test_codec_def json_name_start_def list_all_iff bytes_of_lt)

end
