(* ===== verification/VC_Controller.thy ===== *)
theory VC_Controller
  imports Helm_Client Helm_Release VR_Controller
begin

text \<open>
  \<^theory_text>\<open>internal/controller/validatorconfig_controller.go\<close>: the controller that installs, upgrades and
  removes the Helm releases of the plugins.  The ValidatorConfig behind the pointer is the \<open>obj\<close> of
  the state; log lines are left out.  The Helm client is the CLI client of \<^theory_text>\<open>Helm_Client\<close> and the
  release client the one of \<^theory_text>\<open>Helm_Release\<close>, as \<^theory_text>\<open>cmd/main.go\<close> wires them.  This theory holds the model,
  the frames of its operations and what a reconciliation of a live object writes; \<^theory_text>\<open>VC_Redeploy\<close> has
  the deployment, \<^theory_text>\<open>VC_Deletion\<close> the deletion.
\<close>

section \<open>Constants and helpers\<close>

definition CleanupFinalizer :: string where
  "CleanupFinalizer = ''validator/cleanup''"

definition PluginValuesHash :: string where
  "PluginValuesHash = ''validator/plugin-values''"

definition getPluginHashKey :: "string \<Rightarrow> string" where
  "getPluginHashKey pluginName = PluginValuesHash @ ''-'' @ pluginName"

definition plugin_name :: "plugin_release \<Rightarrow> string" where
  "plugin_name p = hc_Name (pr_Chart p)"

definition vc_namespace :: "validator_config \<Rightarrow> string" where
  "vc_namespace vc = om_Namespace (vc_ObjectMeta vc)"

abbreviation vc_annotations :: "validator_config \<Rightarrow> annotations" where
  "vc_annotations vc \<equiv> om_Annotations (vc_ObjectMeta vc)"

text \<open>Assigning to a nil map panics.\<close>

definition updatePluginHash :: "plugin_release \<Rightarrow> (validator_config, bool) act" where
  "updatePluginHash p =
     (let pluginValuesHashLatestB64 = sha256_b64 (pr_Values p);
          key = getPluginHashKey (plugin_name p) in
      go_bind go_obj (\<lambda>vc.
      let valuesUnchanged =
        (case amap_get (vc_annotations vc) key of
           None \<Rightarrow> False
         | Some pluginValuesHash \<Rightarrow> pluginValuesHash = pluginValuesHashLatestB64) in
      case vc_annotations vc of
        None \<Rightarrow> go_panic NilMapWrite
      | Some m \<Rightarrow>
          go_bind (go_modify (vc_set_annotations (Some (m(key \<mapsto> pluginValuesHashLatestB64))))) (\<lambda>_.
          go_return valuesUnchanged)))"

definition conditionIndex :: "plugin_condition list \<Rightarrow> string \<Rightarrow> string \<Rightarrow> int" where
  "conditionIndex conditions chartName conditionType =
     range_index (\<lambda>c. pc_Type c = conditionType \<and> pc_PluginName c = chartName) 0 conditions"

definition isConditionTrue :: "validator_config \<Rightarrow> string \<Rightarrow> string \<Rightarrow> plugin_condition \<times> bool" where
  "isConditionTrue vc chartName conditionType =
     (let idx = conditionIndex (vc_Conditions vc) chartName conditionType in
      if idx = -1 then (zero_plugin_condition, False)
      else (vc_Conditions vc ! nat idx, pc_Status (vc_Conditions vc ! nat idx) = ConditionTrue))"

definition buildHelmChartCondition ::
  "env \<Rightarrow> string \<Rightarrow> goerror option \<Rightarrow> ('o, plugin_condition) act" where
  "buildHelmChartCondition env chartName err =
     go_bind (time_Now env) (\<lambda>now.
     let c = \<lparr>pc_Type = HelmChartDeployedCondition, pc_PluginName = chartName, pc_Status = ConditionTrue,
       pc_Message = ''Plugin chart '' @ chartName @ '' is installed/upgraded'', pc_LastTransitionTime = now\<rparr> in
     case err of
       None \<Rightarrow> go_return c
     | Some e \<Rightarrow> go_return (c\<lparr>pc_Status := ConditionFalse, pc_Message := err_text e\<rparr>))"

definition ensureFinalizer :: "string \<Rightarrow> validator_config \<Rightarrow> validator_config" where
  "ensureFinalizer finalizer vc =
     (let currentFinalizers = om_Finalizers (vc_ObjectMeta vc) in
      if finalizer \<notin> set currentFinalizers
      then vc_set_finalizers (currentFinalizers @ [finalizer]) vc
      else vc)"

definition removeFinalizer :: "env \<Rightarrow> string \<Rightarrow> (validator_config, goerror option) act" where
  "removeFinalizer env finalizer =
     go_bind go_obj (\<lambda>vc.
     let finalizers = om_Finalizers (vc_ObjectMeta vc) in
     if length finalizers > 0 then
       (let newFinalizers = filter (\<lambda>f. f \<noteq> finalizer) finalizers in
        if length newFinalizers \<noteq> length finalizers then
          go_bind (go_modify (vc_set_finalizers newFinalizers)) (\<lambda>_.
          go_bind go_obj (\<lambda>vc.
          go_bind (go_call (EvUpdateVC vc) (\<lambda>h. e_UpdateVC env h vc)) (\<lambda>err.
          case err of Some e \<Rightarrow> go_return (Some e) | None \<Rightarrow> go_return None)))
        else go_return None)
     else go_return None)"

definition patchValidatorConfig ::
  "env \<Rightarrow> validator_config \<Rightarrow> (validator_config, goerror option) act" where
  "patchValidatorConfig env before =
     go_bind go_obj (\<lambda>vc. go_call (EvPatchVC before vc) (\<lambda>h. e_PatchVC env h before vc))"

section \<open>Helm options\<close>

definition plugin_opts :: "helm_config \<Rightarrow> plugin_release \<Rightarrow> helm_options" where
  "plugin_opts helmConfig p =
     zero_options\<lparr>ho_Chart := plugin_name p, ho_Repo := hc_Repository (pr_Chart p),
       ho_Registry := hcfg_Registry helmConfig, ho_Version := hc_Version (pr_Chart p),
       ho_Values := pr_Values p,
       ho_InsecureSkipTLSVerify := hcfg_InsecureSkipTLSVerify helmConfig\<rparr>"

definition secret_error :: "helm_options \<Rightarrow> string \<Rightarrow> goerror" where
  "secret_error opts key =
     errors_New (''auth secret for chart '' @ ho_Chart opts @ '' in repo '' @ ho_Repo opts @
       '' missing required key: '' @ [CHR 0x27] @ key @ [CHR 0x27])"

definition configureHelmOpts ::
  "env \<Rightarrow> nsname \<Rightarrow> helm_options \<Rightarrow> ('o, goerror option \<times> helm_options) act" where
  "configureHelmOpts env nn opts =
     go_bind (get_secret env nn) (\<lambda>got.
     case got of
       Inl e \<Rightarrow> go_return (Some (errors_New (''failed to get auth secret '' @ snd nn @ '' in namespace '' @
           fst nn @ '' for chart '' @ ho_Chart opts @ '' in repo '' @ ho_Repo opts @ '': '' @ err_text e)), opts)
     | Inr sec \<Rightarrow>
         (case sec_Data sec ''username'' of
            None \<Rightarrow> go_return (Some (secret_error opts ''username''), opts)
          | Some username \<Rightarrow>
              (let opts = opts\<lparr>ho_Username := username\<rparr> in
               case sec_Data sec ''password'' of
                 None \<Rightarrow> go_return (Some (secret_error opts ''password''), opts)
               | Some password \<Rightarrow>
                   (let opts = opts\<lparr>ho_Password := password\<rparr> in
                    case sec_Data sec ''caCert'' of
                      None \<Rightarrow> go_return (None, opts)
                    | Some caCert \<Rightarrow>
                        (let caFile = ''/etc/ssl/certs/'' @ ho_Chart opts @ ''-ca.crt'' in
                         go_bind (go_call (EvWriteFile caFile caCert) (\<lambda>h. e_WriteFile env h caFile caCert)) (\<lambda>werr.
                         case werr of
                           Some e \<Rightarrow> go_return (Some (errors_Wrap e ''failed to write Helm CA file''), opts)
                         | None \<Rightarrow> go_return (None, opts\<lparr>ho_CaFile := caFile\<rparr>)))))))"

text \<open>Pulling the chart from an OCI registry; the options then name the local archive.\<close>

definition pull_oci :: "env \<Rightarrow> helm_options \<Rightarrow> ('o, goerror option \<times> helm_options) act" where
  "pull_oci env opts =
     (let opts = opts\<lparr>ho_Path := ''/charts/'' @ ho_Chart opts, ho_Version := trim_prefix (ho_Version opts) ''v''\<rparr> in
      go_bind (go_call (EvNewOCIClient (ho_Username opts) (ho_Password opts) (ho_Registry opts)
                  (ho_InsecureSkipTLSVerify opts) (ho_CaFile opts))
          (\<lambda>h. e_NewOCIClient env h (ho_Username opts) (ho_Password opts) (ho_Registry opts)
                  (ho_InsecureSkipTLSVerify opts) (ho_CaFile opts))) (\<lambda>err.
      case err of
        Some e \<Rightarrow> go_return (Some e, opts)
      | None \<Rightarrow>
          (let ref = trim_prefix (ho_Registry opts) (e_OCIScheme env) @ ''/'' @ ho_Repo opts @ '':'' @ ho_Version opts in
           go_bind (go_call (EvPullChart ref (ho_Path opts) (ho_Chart opts))
             (\<lambda>h. e_PullChart env h ref (ho_Path opts) (ho_Chart opts))) (\<lambda>err.
           case err of
             Some e \<Rightarrow> go_return (Some e, opts)
           | None \<Rightarrow> go_return (None, opts\<lparr>ho_Path := ho_Path opts @ ''/'' @ ho_Chart opts @ ''.tgz'',
               ho_Chart := []\<rparr>)))))"

section \<open>redeployIfNeeded\<close>

definition upgrade_plugin ::
  "env \<Rightarrow> cli_client \<Rightarrow> string \<Rightarrow> string \<Rightarrow> helm_options \<Rightarrow> bool \<Rightarrow> ('o, plugin_condition) act" where
  "upgrade_plugin env c namespace name opts cleanupLocalChart =
     go_bind (helm_Upgrade env c name namespace opts) (\<lambda>err.
     go_bind
       (case err of
          None \<Rightarrow> go_return ()
        | Some e \<Rightarrow>
            if contains (err_text e) ''has no deployed releases''
            then go_bind (helm_Delete env c name namespace) (\<lambda>_. go_return ())
            else go_return ()) (\<lambda>_.
     go_bind (buildHelmChartCondition env name err) (\<lambda>cond.
     go_bind
       (if cleanupLocalChart then
          go_bind (go_call (EvRemoveAll (ho_Path opts)) (\<lambda>h. e_RemoveAll env h (ho_Path opts))) (\<lambda>_. go_return ())
        else go_return ()) (\<lambda>_.
     go_return cond))))"

definition deploy_plugin ::
  "env \<Rightarrow> cli_client \<Rightarrow> validator_config \<Rightarrow> plugin_release \<Rightarrow> ('o, plugin_condition) act" where
  "deploy_plugin env c vc p =
     (let helmConfig = vcs_HelmConfig (vc_Spec vc);
          name = plugin_name p in
      go_bind
        (if hcfg_AuthSecretName helmConfig \<noteq> []
         then configureHelmOpts env (vc_namespace vc, hcfg_AuthSecretName helmConfig) (plugin_opts helmConfig p)
         else go_return (None, plugin_opts helmConfig p)) (\<lambda>(err, opts).
      case err of
        Some e \<Rightarrow> buildHelmChartCondition env name (Some e)
      | None \<Rightarrow>
          if has_prefix (hcfg_Registry helmConfig) (e_OCIScheme env) then
            go_bind (pull_oci env opts) (\<lambda>(err, opts).
            case err of
              Some e \<Rightarrow> buildHelmChartCondition env name (Some e)
            | None \<Rightarrow> upgrade_plugin env c (vc_namespace vc) name opts True)
          else upgrade_plugin env c (vc_namespace vc) name opts False))"

text \<open>One round of the loop over the plugins; it returns the entry for \<^theory_text>\<open>conditions[i]\<close>.\<close>

definition redeploy_step ::
  "env \<Rightarrow> cli_client \<Rightarrow> plugin_release \<Rightarrow> (validator_config, plugin_condition) act" where
  "redeploy_step env c p =
     go_bind (updatePluginHash p) (\<lambda>valuesUnchanged.
     go_bind go_obj (\<lambda>vc.
     let (condition, ok) = isConditionTrue vc (plugin_name p) HelmChartDeployedCondition in
     if ok \<and> valuesUnchanged then go_return condition
     else deploy_plugin env c vc p))"

fun redeploy_loop ::
  "env \<Rightarrow> cli_client \<Rightarrow> plugin_release list \<Rightarrow> (validator_config, plugin_condition list) act" where
  "redeploy_loop env c [] = go_return []"
| "redeploy_loop env c (p # ps) =
     go_bind (redeploy_step env c p) (\<lambda>cond.
     go_bind (redeploy_loop env c ps) (\<lambda>conds. go_return (cond # conds)))"

definition deletePlugin :: "env \<Rightarrow> cli_client \<Rightarrow> string \<Rightarrow> string \<Rightarrow> ('o, unit) act" where
  "deletePlugin env c namespace name =
     go_bind (helm_Delete env c name namespace) (\<lambda>err. go_return ())"

definition removed_plugin :: "string list \<Rightarrow> plugin_condition \<Rightarrow> bool" where
  "removed_plugin specPlugins c \<longleftrightarrow> pc_PluginName c \<notin> set specPlugins \<and>
     pc_Type c = HelmChartDeployedCondition \<and> pc_Status c = ConditionTrue"

definition delete_annotation :: "string \<Rightarrow> validator_config \<Rightarrow> validator_config" where
  "delete_annotation key vc = vc_set_annotations (amap_delete (vc_annotations vc) key) vc"

definition redeployIfNeeded :: "env \<Rightarrow> cli_client \<Rightarrow> (validator_config, unit) act" where
  "redeployIfNeeded env c =
     go_bind go_obj (\<lambda>vc.
     let specPlugins = map plugin_name (vcs_Plugins (vc_Spec vc)) in
     go_bind (redeploy_loop env c (vcs_Plugins (vc_Spec vc))) (\<lambda>conditions.
     go_bind
       (go_for (vc_Conditions vc) (\<lambda>cnd.
          if removed_plugin specPlugins cnd then
            go_bind (deletePlugin env c (vc_namespace vc) (pc_PluginName cnd)) (\<lambda>_.
            go_modify (delete_annotation (getPluginHashKey (pc_PluginName cnd))))
          else go_return ())) (\<lambda>_.
     go_modify (\<lambda>vc. vc\<lparr>vc_Conditions := conditions\<rparr>))))"

section \<open>deletePlugins\<close>

text \<open>
  The goroutines that \<^theory_text>\<open>deletePlugins\<close> starts run when the scheduler lets them, while the main
  goroutine goes on: a schedule says for every point of the main goroutine, the calls of the API
  server and the returns, which of the pending ones have their turn just before it, each number picking
  from those that are left.  Each runs as one step, and at \<^theory_text>\<open>wg.Wait()\<close> all that are left run.  Those
  still pending when \<^theory_text>\<open>Reconcile\<close> returns, which is possible after an early return of \<^theory_text>\<open>deletePlugins\<close>, run
  later or never and are not part of its history.
\<close>

datatype point = Before_Get nat | At_Wait | Before_Update | Before_Cleanup | Before_Return

type_synonym schedule = "point \<Rightarrow> nat list"

fun run_picked ::
  "env \<Rightarrow> cli_client \<Rightarrow> string \<Rightarrow> nat list \<Rightarrow> string list \<Rightarrow> ('o, string list) act" where
  "run_picked env c namespace [] waiting = go_return waiting"
| "run_picked env c namespace (k # ks) waiting =
     (if k < length waiting then
        go_bind (deletePlugin env c namespace (waiting ! k)) (\<lambda>_.
        run_picked env c namespace ks (take k waiting @ drop (Suc k) waiting))
      else run_picked env c namespace ks waiting)"

text \<open>
  The loop that starts a goroutine per plugin, up to the return: the error it returns with, and the
  goroutines that are still pending.  The number counts the calls of \<^theory_text>\<open>Get\<close>.
\<close>

fun delete_scan ::
  "env \<Rightarrow> release_codec \<Rightarrow> cli_client \<Rightarrow> schedule \<Rightarrow> string \<Rightarrow> plugin_release list \<Rightarrow> nat \<Rightarrow> string list \<Rightarrow>
     ('o, goerror option \<times> string list) act" where
  "delete_scan env cd c sched namespace [] i waiting =
     go_bind (run_picked env c namespace (sched At_Wait) waiting) (\<lambda>waiting.
     go_bind (go_for waiting (deletePlugin env c namespace)) (\<lambda>_.
     go_return (None, [])))"
| "delete_scan env cd c sched namespace (p # ps) i waiting =
     go_bind (run_picked env c namespace (sched (Before_Get i)) waiting) (\<lambda>waiting.
     go_bind (release_Get env cd (plugin_name p) namespace) (\<lambda>got.
     case got of
       Inl e \<Rightarrow> go_return (if \<not> is_not_found e then Some e else None, waiting)
     | Inr release \<Rightarrow>
         (case rls_Secret release of
            None \<Rightarrow> go_panic NilDereference
          | Some sec \<Rightarrow>
              if amap_get (sec_Labels sec) ''owner'' \<noteq> Some ''helm''
              then go_return (None, waiting)
              else delete_scan env cd c sched namespace ps (Suc i) (waiting @ [plugin_name p]))))"

definition deletePlugins ::
  "env \<Rightarrow> release_codec \<Rightarrow> cli_client \<Rightarrow> schedule \<Rightarrow>
     (validator_config, goerror option \<times> string list) act" where
  "deletePlugins env cd c sched =
     go_bind go_obj (\<lambda>vc. delete_scan env cd c sched (vc_namespace vc) (vcs_Plugins (vc_Spec vc)) 0 [])"

section \<open>emitFinalizeCleanup and Reconcile\<close>

definition atoi_error_text :: "env \<Rightarrow> string \<Rightarrow> atoi_error \<Rightarrow> string" where
  "atoi_error_text env s e =
     ''strconv.Atoi: parsing '' @ e_Quote env s @ '': '' @
     (case e of ErrSyntax \<Rightarrow> ''invalid syntax'' | ErrRange \<Rightarrow> ''value out of range'')"

definition emitFinalizeCleanup :: "env \<Rightarrow> ('o, goerror option) act" where
  "emitFinalizeCleanup env =
     (let grpcEnabled = e_Getenv env ''CLEANUP_GRPC_SERVER_ENABLED'' in
      if grpcEnabled \<noteq> ''true'' then go_return None
      else
        (let host = e_Getenv env ''CLEANUP_GRPC_SERVER_HOST'' in
         if host = [] then go_return (Some (errors_New ''CLEANUP_GRPC_SERVER_HOST is invalid''))
         else
           (let port = e_Getenv env ''CLEANUP_GRPC_SERVER_PORT'' in
            case atoi port of
              Inl err \<Rightarrow> go_return (Some (errors_New
                (''CLEANUP_GRPC_SERVER_PORT is invalid: '' @ atoi_error_text env port err)))
            | Inr _ \<Rightarrow>
                (let url = ''http://'' @ host @ '':'' @ port in
                 go_bind go_glob (\<lambda>g.
                 go_bind (go_call (EvFinalizeCleanup (default_client g) url) (\<lambda>h. e_FinalizeCleanup env h url)) (\<lambda>err.
                 case err of
                   Some e \<Rightarrow> go_return (Some (GoError (''FinalizeCleanup request to '' @ url @ '' failed: '' @
                               err_text e) (is_not_found e)))
                 | None \<Rightarrow> go_return None))))))"

definition vc_reconcile_delete ::
  "env \<Rightarrow> release_codec \<Rightarrow> cli_client \<Rightarrow> schedule \<Rightarrow> nsname \<Rightarrow>
     (validator_config, ctrl_result \<times> goerror option) act" where
  "vc_reconcile_delete env cd c sched req =
     go_bind (go_call (EvGetNamespace (fst req)) (\<lambda>h. e_GetNamespace env h (fst req))) (\<lambda>ns.
     case ns of
       Inl e \<Rightarrow> go_return (no_requeue, None)
     | Inr (Some t) \<Rightarrow>
         go_bind (removeFinalizer env CleanupFinalizer) (\<lambda>err. go_return (no_requeue, err))
     | Inr None \<Rightarrow>
         go_bind go_obj (\<lambda>vc.
         go_bind (deletePlugins env cd c sched) (\<lambda>(derr, waiting).
         case derr of
           Some e \<Rightarrow>
             go_bind (run_picked env c (vc_namespace vc) (sched Before_Return) waiting) (\<lambda>_.
             go_return (no_requeue, Some e))
         | None \<Rightarrow>
             go_bind (run_picked env c (vc_namespace vc) (sched Before_Update) waiting) (\<lambda>waiting.
             go_bind (removeFinalizer env CleanupFinalizer) (\<lambda>err.
             go_bind (run_picked env c (vc_namespace vc) (sched Before_Cleanup) waiting) (\<lambda>waiting.
             go_bind (emitFinalizeCleanup env) (\<lambda>_.
             go_bind (run_picked env c (vc_namespace vc) (sched Before_Return) waiting) (\<lambda>_.
             go_return (no_requeue, err)))))))))"

definition vc_reconcile_deploy ::
  "env \<Rightarrow> cli_client \<Rightarrow> validator_config \<Rightarrow> (validator_config, ctrl_result \<times> goerror option) act" where
  "vc_reconcile_deploy env c before =
     go_defer (no_requeue, None)
       (go_bind (redeployIfNeeded env c) (\<lambda>_.
        go_bind (go_modify (ensureFinalizer CleanupFinalizer)) (\<lambda>_.
        go_return (requeue_30s, None))))
       (\<lambda>(res, reterr).
          go_bind (patchValidatorConfig env before) (\<lambda>perr.
          case perr of
            Some e \<Rightarrow> go_return (res, if reterr = None then Some e else reterr)
          | None \<Rightarrow> go_return (res, reterr)))"

definition vc_obj_key :: "validator_config \<Rightarrow> nsname" where
  "vc_obj_key vc = (om_Namespace (vc_ObjectMeta vc), om_Name (vc_ObjectMeta vc))"

text \<open>Making the annotations map before it is used.\<close>

definition ensure_annotations :: "validator_config \<Rightarrow> validator_config" where
  "ensure_annotations vc =
     (if vc_annotations vc = None then vc_set_annotations (Some Map.empty) vc else vc)"

definition vc_Reconcile ::
  "env \<Rightarrow> release_codec \<Rightarrow> cli_client \<Rightarrow> schedule \<Rightarrow> nsname \<Rightarrow>
     (validator_config, ctrl_result \<times> goerror option) act" where
  "vc_Reconcile env cd c sched req =
     go_bind (go_call (EvGetVC req) (\<lambda>h. e_GetVC env h req)) (\<lambda>gotvc.
     case gotvc of
       Inl e \<Rightarrow> go_return (no_requeue, ignore_not_found e)
     | Inr vc \<Rightarrow>
         go_bind (go_set vc) (\<lambda>_.
         go_bind (go_call (EvNewPatchHelper (vc_obj_key vc)) (\<lambda>h. e_NewPatchHelper env h (vc_obj_key vc))) (\<lambda>perr.
         case perr of
           Some e \<Rightarrow> go_return (no_requeue, Some (errors_Wrap e
             (''failed to create patch helper for ValidatorConfig '' @ om_Name (vc_ObjectMeta vc))))
         | None \<Rightarrow>
             go_bind (go_modify ensure_annotations) (\<lambda>_.
             if om_DeletionTimestamp (vc_ObjectMeta vc) \<noteq> None
             then vc_reconcile_delete env cd c sched req
             else vc_reconcile_deploy env c vc))))"

section \<open>Frames\<close>

interpretation plugin_index: keyed_upsert
  "\<lambda>k cs. conditionIndex cs (snd k) (fst k)" "\<lambda>k c. pc_Type c = fst k \<and> pc_PluginName c = snd k"
  "\<lambda>c. (pc_Type c, pc_PluginName c)"
  by unfold_locales
    (auto simp: conditionIndex_def range_index_Cons simp del: range_index.simps(2))

lemmas vc_step_defs = buildHelmChartCondition_def configureHelmOpts_def pull_oci_def upgrade_plugin_def
  deploy_plugin_def deletePlugin_def get_secret_def time_Now_def

text \<open>Calls that neither write to the API server nor reach a sink.\<close>

definition harmless :: "event \<Rightarrow> bool" where
  "harmless e \<longleftrightarrow> \<not> is_sink_event e \<and> \<not> is_api_write e"

lemma harmless_simps [simp]:
  "harmless EvNow" "harmless (EvGetSecret k)" "harmless (EvWriteFile f d)" "harmless (EvRemoveAll f)"
  "harmless (EvNewOCIClient u p r i f)" "harmless (EvPullChart r d f)" "harmless (EvListSecrets l n)"
  "harmless (EvGetNamespace n)" "harmless (EvFinalizeCleanup g u)" "harmless (EvGetVC k)"
  "harmless (EvNewPatchHelper k)"
  by (simp_all add: harmless_def)

lemma helm_harmless: "emits harmless (helm_Upgrade env c n ns opts)" "emits harmless (helm_Delete env c n ns)"
  unfolding harmless_def by (rule cli.upgrade_no_write cli.delete_no_write)+

lemma deploy_plugin_harmless: "emits harmless (deploy_plugin env c vc p)"
  unfolding vc_step_defs Let_def by (auto intro!: emits_intros helm_harmless)

lemma deploy_plugin_obj: "keeps obj (deploy_plugin env c vc p)"
  unfolding vc_step_defs Let_def by (auto intro!: frame_intros cli.frames)

lemma deletePlugin_harmless: "emits harmless (deletePlugin env c ns n)"
  unfolding deletePlugin_def by (auto intro!: emits_intros helm_harmless)

lemma deletePlugin_obj: "keeps obj (deletePlugin env c ns n)"
  unfolding deletePlugin_def by (auto intro!: frame_intros cli.frames)

lemma updatePluginHash_harmless: "emits P (updatePluginHash p)"
  unfolding updatePluginHash_def Let_def by (auto intro!: emits_intros)

lemma redeploy_step_harmless: "emits harmless (redeploy_step env c p)"
  unfolding redeploy_step_def Let_def
  by (auto intro!: emits_intros updatePluginHash_harmless deploy_plugin_harmless)

lemma redeploy_loop_harmless: "emits harmless (redeploy_loop env c ps)"
  by (induction ps) (auto intro!: emits_intros redeploy_step_harmless)

lemma redeployIfNeeded_harmless: "emits harmless (redeployIfNeeded env c)"
  unfolding redeployIfNeeded_def Let_def
  by (auto intro!: emits_intros redeploy_loop_harmless deletePlugin_harmless)

section \<open>Running the steps\<close>

text \<open>What a condition reports, and what running a plugin's deployment gives.\<close>

definition condition_for :: "string \<Rightarrow> plugin_condition \<Rightarrow> bool" where
  "condition_for name c \<longleftrightarrow> pc_Type c = HelmChartDeployedCondition \<and> pc_PluginName c = name"

lemma buildHelmChartCondition_run:
  "wp (buildHelmChartCondition env name err) (\<lambda>c s'. condition_for name c \<and>
     (pc_Status c = ConditionTrue \<longleftrightarrow> err = None)) s"
  by (auto simp: buildHelmChartCondition_def time_Now_def wp_rules condition_for_def Let_def split: option.split)

lemma upgrade_plugin_run:
  assumes ck: "clock_ok env"
  shows "wp (upgrade_plugin env c ns name opts cl) (\<lambda>cnd s'. condition_for name cnd) s"
  unfolding upgrade_plugin_def wp_bind
proof (rule wp_mono [OF helm_Upgrade_total [OF ck]])
  fix err and s1 :: "(event, globals, 'a) gostate"
  have del: "wp (case err of None \<Rightarrow> go_return () | Some e \<Rightarrow>
            if contains (err_text e) ''has no deployed releases''
            then go_bind (helm_Delete env c name ns) (\<lambda>_. go_return ()) else go_return ()) (\<lambda>_ _. True) s1"
    by (auto simp: wp_rules split: option.split intro!: wp_mono [OF helm_Delete_total [OF ck]])
  show "wp (case err of None \<Rightarrow> go_return () | Some e \<Rightarrow>
            if contains (err_text e) ''has no deployed releases''
            then go_bind (helm_Delete env c name ns) (\<lambda>_. go_return ()) else go_return ())
     (\<lambda>_. wp (buildHelmChartCondition env name err)
        (\<lambda>cond. wp (if cl then go_bind (go_call (EvRemoveAll (ho_Path opts)) (\<lambda>h. e_RemoveAll env h (ho_Path opts)))
                       (\<lambda>_. go_return ()) else go_return ())
           (\<lambda>_. wp (go_return cond) (\<lambda>cnd s'. condition_for name cnd)))) s1"
    by (rule wp_mono [OF del], rule wp_mono [OF buildHelmChartCondition_run]) (simp add: wp_rules)
qed

lemma deploy_plugin_run:
  assumes ck: "clock_ok env"
  shows "wp (deploy_plugin env c vc p) (\<lambda>cnd s'. condition_for (plugin_name p) cnd) s"
proof -
  let ?Q = "\<lambda>cnd s'. condition_for (plugin_name p) cnd"
  have build: "wp (buildHelmChartCondition env (plugin_name p) err) ?Q s" for err and s :: "(event, globals, 'a) gostate"
    by (rule wp_mono [OF buildHelmChartCondition_run]) simp
  have oci: "wp (go_bind (pull_oci env opts) (\<lambda>(err, opts).
            case err of
              Some e \<Rightarrow> buildHelmChartCondition env (plugin_name p) (Some e)
            | None \<Rightarrow> upgrade_plugin env c (vc_namespace vc) (plugin_name p) opts True)) ?Q s"
    for opts and s :: "(event, globals, 'a) gostate"
  proof -
    have "wp (pull_oci env opts) (\<lambda>_ _. True) s"
      by (auto simp: pull_oci_def wp_rules Let_def split: option.split)
    from wp_mono [OF this] show ?thesis
      by (auto simp: wp_bind upgrade_plugin_run [OF ck] build split: option.split)
  qed
  have opts: "wp (if hcfg_AuthSecretName h \<noteq> [] then configureHelmOpts env k (plugin_opts h p)
      else go_return (None, plugin_opts h p)) (\<lambda>_ _. True) s" for h k and s :: "(event, globals, 'a) gostate"
    by (auto simp: configureHelmOpts_def get_secret_def wp_rules Let_def split: option.split sum.split)
  show ?thesis
    unfolding deploy_plugin_def Let_def wp_bind
    by (rule wp_mono [OF opts]) (auto simp: build oci upgrade_plugin_run [OF ck] split: option.split)
qed

section \<open>The redeployment as a whole\<close>

definition plugin_key :: "plugin_release \<Rightarrow> string" where
  "plugin_key p = getPluginHashKey (plugin_name p)"

lemma getPluginHashKey_inj [simp]: "getPluginHashKey a = getPluginHashKey b \<longleftrightarrow> a = b"
  by (simp add: getPluginHashKey_def)

definition hash_plugin :: "plugin_release \<Rightarrow> (string \<rightharpoonup> string) \<Rightarrow> (string \<rightharpoonup> string)" where
  "hash_plugin p m = m(plugin_key p \<mapsto> sha256_b64 (pr_Values p))"

text \<open>The plugin was deployed before with the same values, so the round is skipped.\<close>

definition up_to_date :: "validator_config \<Rightarrow> plugin_release \<Rightarrow> bool" where
  "up_to_date vc p \<longleftrightarrow>
     snd (isConditionTrue vc (plugin_name p) HelmChartDeployedCondition) \<and>
     amap_get (vc_annotations vc) (plugin_key p) = Some (sha256_b64 (pr_Values p))"

lemma isConditionTrue_cong: "vc_Conditions a = vc_Conditions b \<Longrightarrow> isConditionTrue a = isConditionTrue b"
  by (simp add: isConditionTrue_def fun_eq_iff Let_def)

lemma redeploy_step_unfold:
  assumes m: "vc_annotations (obj s) = Some m"
  shows "redeploy_step env c p s =
     (let s1 = s\<lparr>obj := vc_set_annotations (Some (hash_plugin p m)) (obj s)\<rparr> in
      if up_to_date (obj s) p
      then (Inr (fst (isConditionTrue (obj s) (plugin_name p) HelmChartDeployedCondition)), s1)
      else deploy_plugin env c (obj s1) p s1)"
proof -
  have "isConditionTrue (vc_set_annotations a vc) = isConditionTrue vc" for a vc
    by (rule isConditionTrue_cong) simp
  then show ?thesis using m
    by (auto simp: redeploy_step_def updatePluginHash_def go_eval up_to_date_def plugin_key_def
        hash_plugin_def amap_get_def Let_def split: prod.split option.splits)
qed

lemma isConditionTrue_condition_for:
  "snd (isConditionTrue vc name HelmChartDeployedCondition) \<Longrightarrow>
     condition_for name (fst (isConditionTrue vc name HelmChartDeployedCondition)) \<and>
     pc_Status (fst (isConditionTrue vc name HelmChartDeployedCondition)) = ConditionTrue"
  using plugin_index.idx_hit [where k = "(HelmChartDeployedCondition, name)" and xs = "vc_Conditions vc"]
  by (auto simp: isConditionTrue_def condition_for_def Let_def split: if_splits)

lemma redeploy_step_run:
  assumes ck: "clock_ok env" and m: "vc_annotations (obj s) = Some m"
  shows "wp (redeploy_step env c p) (\<lambda>cnd s'. condition_for (plugin_name p) cnd \<and>
     obj s' = vc_set_annotations (Some (hash_plugin p m)) (obj s)) s"
proof (cases "up_to_date (obj s) p")
  case True
  then show ?thesis
    by (auto simp: wp_def redeploy_step_unfold [OF m] Let_def up_to_date_def isConditionTrue_condition_for)
next
  case False
  define s1 where "s1 = s\<lparr>obj := vc_set_annotations (Some (hash_plugin p m)) (obj s)\<rparr>"
  have "wp (deploy_plugin env c (obj s1) p) (\<lambda>cnd s'. condition_for (plugin_name p) cnd \<and> obj s' = obj s1) s1"
    by (rule wp_keeps [OF deploy_plugin_obj deploy_plugin_run [OF ck]])
  then show ?thesis using False
    by (simp add: wp_def redeploy_step_unfold [OF m] s1_def Let_def)
qed

lemma redeploy_loop_run:
  assumes ck: "clock_ok env"
  shows "vc_annotations (obj s) = Some m \<Longrightarrow>
     wp (redeploy_loop env c ps) (\<lambda>cs s'. list_all2 condition_for (map plugin_name ps) cs \<and>
       obj s' = vc_set_annotations (Some (fold hash_plugin ps m)) (obj s)) s"
proof (induction ps arbitrary: s m)
  case Nil
  have "vc_set_annotations (Some m) (obj s) = obj s"
    using Nil by (simp add: vc_set_annotations_def)
  then show ?case by (simp add: wp_rules)
next
  case (Cons p ps)
  show ?case unfolding redeploy_loop.simps wp_bind
  proof (rule wp_mono [OF redeploy_step_run [OF ck Cons.prems]], clarify)
    fix cnd and s1 :: "(event, globals, validator_config) gostate"
    assume c: "condition_for (plugin_name p) cnd"
      and o1: "obj s1 = vc_set_annotations (Some (hash_plugin p m)) (obj s)"
    then have "vc_annotations (obj s1) = Some (hash_plugin p m)" by simp
    from Cons.IH [OF this] show "wp (redeploy_loop env c ps) (\<lambda>a. wp (go_return (cnd # a))
        (\<lambda>cs s'. list_all2 condition_for (map plugin_name (p # ps)) cs \<and>
          obj s' = vc_set_annotations (Some (fold hash_plugin (p # ps) m)) (obj s))) s1"
      by (rule wp_mono) (auto simp: wp_rules c o1 vc_set_annotations_def)
  qed
qed

definition unhash :: "string list \<Rightarrow> plugin_condition \<Rightarrow> (string \<rightharpoonup> string) \<Rightarrow> (string \<rightharpoonup> string)" where
  "unhash names c m = (if removed_plugin names c then m(getPluginHashKey (pc_PluginName c) := None) else m)"

definition delete_removed ::
  "env \<Rightarrow> cli_client \<Rightarrow> string \<Rightarrow> string list \<Rightarrow> plugin_condition \<Rightarrow> (validator_config, unit) act" where
  "delete_removed env c ns names cnd =
     (if removed_plugin names cnd then
        go_bind (deletePlugin env c ns (pc_PluginName cnd)) (\<lambda>_.
        go_modify (delete_annotation (getPluginHashKey (pc_PluginName cnd))))
      else go_return ())"

lemma deletePlugin_total: "clock_ok env \<Longrightarrow> wp (deletePlugin env c ns n) (\<lambda>_ _. True) s"
  unfolding deletePlugin_def wp_bind
  by (rule wp_mono [OF helm_Delete_total]) (simp_all add: wp_rules)

lemma delete_removed_run:
  assumes ck: "clock_ok env" and m: "vc_annotations (obj s) = Some m"
  shows "wp (delete_removed env c ns names cnd)
     (\<lambda>_ s'. obj s' = vc_set_annotations (Some (unhash names cnd m)) (obj s)) s"
proof (cases "removed_plugin names cnd")
  case True
  then show ?thesis unfolding delete_removed_def using m
    by (simp add: wp_bind, intro wp_mono [OF wp_keeps [OF deletePlugin_obj deletePlugin_total [OF ck]]])
       (simp add: wp_rules delete_annotation_def amap_delete_def unhash_def)
next
  case False
  have "vc_set_annotations (Some m) (obj s) = obj s" using m by (simp add: vc_set_annotations_def)
  with False show ?thesis by (simp add: delete_removed_def unhash_def wp_rules)
qed

lemma delete_loop_run:
  assumes ck: "clock_ok env"
  shows "vc_annotations (obj s) = Some m \<Longrightarrow>
     wp (go_for cnds (delete_removed env c ns names))
       (\<lambda>_ s'. obj s' = vc_set_annotations (Some (fold (unhash names) cnds m)) (obj s)) s"
proof (induction cnds arbitrary: s m)
  case Nil
  then show ?case by (simp add: wp_rules vc_set_annotations_def)
next
  case (Cons cnd cnds)
  show ?case unfolding go_for.simps wp_bind
  proof (rule wp_mono [OF delete_removed_run [OF ck Cons.prems]])
    fix s1 :: "(event, globals, validator_config) gostate"
    assume o1: "obj s1 = vc_set_annotations (Some (unhash names cnd m)) (obj s)"
    then have "vc_annotations (obj s1) = Some (unhash names cnd m)" by simp
    from Cons.IH [OF this] show "wp (go_for cnds (delete_removed env c ns names))
        (\<lambda>_ s'. obj s' = vc_set_annotations (Some (fold (unhash names) (cnd # cnds) m)) (obj s)) s1"
      by (rule wp_mono) (simp add: o1 vc_set_annotations_def)
  qed
qed

definition spec_names :: "validator_config \<Rightarrow> string list" where
  "spec_names vc = map plugin_name (vcs_Plugins (vc_Spec vc))"

lemma redeployIfNeeded_split:
  "redeployIfNeeded env c =
     go_bind go_obj (\<lambda>vc.
     go_bind (redeploy_loop env c (vcs_Plugins (vc_Spec vc))) (\<lambda>conditions.
     go_bind (go_for (vc_Conditions vc) (delete_removed env c (vc_namespace vc) (spec_names vc))) (\<lambda>_.
     go_modify (\<lambda>vc. vc\<lparr>vc_Conditions := conditions\<rparr>))))"
  by (simp add: redeployIfNeeded_def delete_removed_def [abs_def] spec_names_def Let_def)

definition final_hashes :: "validator_config \<Rightarrow> (string \<rightharpoonup> string) \<Rightarrow> (string \<rightharpoonup> string)" where
  "final_hashes vc m =
     fold (unhash (spec_names vc)) (vc_Conditions vc) (fold hash_plugin (vcs_Plugins (vc_Spec vc)) m)"

lemma redeployIfNeeded_run:
  assumes ck: "clock_ok env" and m: "vc_annotations (obj s) = Some m"
  shows "wp (redeployIfNeeded env c) (\<lambda>_ s'. \<exists>cs. list_all2 condition_for (spec_names (obj s)) cs \<and>
     obj s' = (vc_set_annotations (Some (final_hashes (obj s) m)) (obj s))\<lparr>vc_Conditions := cs\<rparr>) s"
  unfolding redeployIfNeeded_split wp_bind wp_obj
proof (rule wp_mono [OF redeploy_loop_run [OF ck m]], clarify)
  fix cs and s1 :: "(event, globals, validator_config) gostate"
  let ?m1 = "fold hash_plugin (vcs_Plugins (vc_Spec (obj s))) m"
  assume cs: "list_all2 condition_for (map plugin_name (vcs_Plugins (vc_Spec (obj s)))) cs"
    and o1: "obj s1 = vc_set_annotations (Some ?m1) (obj s)"
  then have "vc_annotations (obj s1) = Some ?m1" by simp
  from delete_loop_run [OF ck this] show "wp (go_for (vc_Conditions (obj s))
        (delete_removed env c (vc_namespace (obj s)) (spec_names (obj s))))
     (\<lambda>_. wp (go_modify (\<lambda>vc. vc\<lparr>vc_Conditions := cs\<rparr>))
        (\<lambda>_ s'. \<exists>cs. list_all2 condition_for (spec_names (obj s)) cs \<and>
          obj s' = (vc_set_annotations (Some (final_hashes (obj s) m)) (obj s))\<lparr>vc_Conditions := cs\<rparr>)) s1"
    by (rule wp_mono)
       (use cs in \<open>auto simp: wp_rules o1 final_hashes_def spec_names_def vc_set_annotations_def\<close>)
qed

text \<open>Every plugin's annotation is the hash of its values, if no two plugins share a name.\<close>

lemma fold_hash_plugin_other:
  "key \<notin> plugin_key ` set ps \<Longrightarrow> fold hash_plugin ps m key = m key"
  by (induction ps arbitrary: m) (auto simp: hash_plugin_def)

lemma hash_plugin_same: "hash_plugin p m (plugin_key p) = Some (sha256_b64 (pr_Values p))"
  by (simp add: hash_plugin_def)

lemma fold_hash_plugin:
  "distinct (map plugin_name ps) \<Longrightarrow> p \<in> set ps \<Longrightarrow>
     fold hash_plugin ps m (plugin_key p) = Some (sha256_b64 (pr_Values p))"
proof (induction ps arbitrary: m)
  case (Cons q ps)
  show ?case
  proof (cases "p = q")
    case True
    then have "plugin_key p \<notin> plugin_key ` set ps"
      using Cons.prems by (auto simp: plugin_key_def)
    from fold_hash_plugin_other [OF this, of "hash_plugin q m"] show ?thesis
      using True by (simp add: hash_plugin_same)
  qed (use Cons in auto)
qed simp

lemma fold_unhash_keep:
  "name \<in> set names \<Longrightarrow> fold (unhash names) cnds m (getPluginHashKey name) = m (getPluginHashKey name)"
  by (induction cnds arbitrary: m) (auto simp: unhash_def removed_plugin_def)

lemma final_hashes_plugin:
  assumes "distinct (spec_names vc)" and "p \<in> set (vcs_Plugins (vc_Spec vc))"
  shows "final_hashes vc m (plugin_key p) = Some (sha256_b64 (pr_Values p))"
proof -
  have "plugin_name p \<in> set (spec_names vc)" using assms(2) by (simp add: spec_names_def)
  then show ?thesis using assms
    by (simp add: final_hashes_def plugin_key_def fold_unhash_keep fold_hash_plugin [unfolded plugin_key_def] spec_names_def)
qed

section \<open>The deployment path of Reconcile\<close>

definition vc_fetched :: "env \<Rightarrow> nsname \<Rightarrow> event list \<Rightarrow> validator_config \<Rightarrow> bool" where
  "vc_fetched env req h vc \<longleftrightarrow>
     e_GetVC env h req = Inr vc \<and> e_NewPatchHelper env (h @ [EvGetVC req]) (vc_obj_key vc) = None"

definition vc_deleted :: "validator_config \<Rightarrow> bool" where
  "vc_deleted vc \<longleftrightarrow> om_DeletionTimestamp (vc_ObjectMeta vc) \<noteq> None"

lemma ensure_annotations_facts:
  "\<exists>m. vc_annotations (ensure_annotations vc) = Some m"
  "vc_Spec (ensure_annotations vc) = vc_Spec vc" "vc_Conditions (ensure_annotations vc) = vc_Conditions vc"
  "om_Finalizers (vc_ObjectMeta (ensure_annotations vc)) = om_Finalizers (vc_ObjectMeta vc)"
  "vc_annotations vc = Some m \<Longrightarrow> ensure_annotations vc = vc"
  by (cases "vc_annotations vc"; simp add: ensure_annotations_def)+

definition fetch_vc_events :: "nsname \<Rightarrow> validator_config \<Rightarrow> event list" where
  "fetch_vc_events req vc = [EvGetVC req, EvNewPatchHelper (vc_obj_key vc)]"

lemma vc_Reconcile_fetched:
  assumes "vc_fetched env req (hist s) vc"
  shows "vc_Reconcile env cd c sched req s =
     (if vc_deleted vc then vc_reconcile_delete env cd c sched req else vc_reconcile_deploy env c vc)
       (s\<lparr>hist := hist s @ fetch_vc_events req vc, obj := ensure_annotations vc\<rparr>)"
  using assms by (simp add: vc_Reconcile_def go_eval vc_fetched_def fetch_vc_events_def vc_deleted_def)

lemma ensureFinalizer_facts:
  "f \<in> set (om_Finalizers (vc_ObjectMeta (ensureFinalizer f vc)))"
  "vc_Spec (ensureFinalizer f vc) = vc_Spec vc" "vc_Conditions (ensureFinalizer f vc) = vc_Conditions vc"
  "vc_annotations (ensureFinalizer f vc) = vc_annotations vc"
  by (auto simp: ensureFinalizer_def vc_set_finalizers_def Let_def)

text \<open>What the deployment path leaves: \<open>vc\<close> is the object with its annotations map made.\<close>

definition deployed ::
  "env \<Rightarrow> validator_config \<Rightarrow> validator_config \<Rightarrow> (string \<rightharpoonup> string) \<Rightarrow> event list \<Rightarrow>
     ctrl_result \<times> goerror option \<Rightarrow> (event, globals, validator_config) gostate \<Rightarrow> bool" where
  "deployed env before vc m h r s' \<longleftrightarrow>
     (\<exists>es cs. hist s' = h @ es @ [EvPatchVC before (obj s')] \<and> list_all harmless es \<and>
        list_all2 condition_for (spec_names vc) cs \<and>
        obj s' = ensureFinalizer CleanupFinalizer
          ((vc_set_annotations (Some (final_hashes vc m)) vc)\<lparr>vc_Conditions := cs\<rparr>) \<and>
        r = (requeue_30s, e_PatchVC env (h @ es) before (obj s')))"

lemma deploy_run:
  assumes ck: "clock_ok env" and m: "vc_annotations (obj s) = Some m"
  shows "wp (vc_reconcile_deploy env c before) (deployed env before (obj s) m (hist s)) s"
  unfolding vc_reconcile_deploy_def wp_defer wp_bind
proof (rule wp_mono [OF wp_emits [OF redeployIfNeeded_harmless redeployIfNeeded_run [OF ck m]]], clarify)
  fix cs es and s1 :: "(event, globals, validator_config) gostate"
  assume "list_all2 condition_for (spec_names (obj s)) cs"
    and "obj s1 = (vc_set_annotations (Some (final_hashes (obj s) m)) (obj s))\<lparr>vc_Conditions := cs\<rparr>"
    and "hist s1 = hist s @ es" "list_all harmless es"
  then show "wp (go_modify (ensureFinalizer CleanupFinalizer)) (\<lambda>a. wp (go_return (requeue_30s, None))
      (\<lambda>a. wp (case a of (res, reterr) \<Rightarrow> go_bind (patchValidatorConfig env before) (\<lambda>perr.
          case perr of
            Some e \<Rightarrow> go_return (res, if reterr = None then Some e else reterr)
          | None \<Rightarrow> go_return (res, reterr))) (deployed env before (obj s) m (hist s)))) s1"
    by (auto simp: wp_rules patchValidatorConfig_def deployed_def split: option.split
        intro!: exI [of _ es] exI [of _ cs])
qed

lemma condition_for_list: "list_all2 condition_for ns cs \<longleftrightarrow>
    map pc_PluginName cs = ns \<and> list_all (\<lambda>c. pc_Type c = HelmChartDeployedCondition) cs"
proof (induction ns arbitrary: cs)
  case (Cons n ns)
  then show ?case by (cases cs) (auto simp: condition_for_def)
qed auto

text \<open>C11: 
  What a reconciliation of a live ValidatorConfig writes.  It patches the object exactly once, at the
  end, and returns the patch's error; the patched object has exactly one condition per plugin of the
  specification, in its order, the cleanup finalizer, and the same specification; nothing else is
  written to the API server.  The clock must advance with the sleeps of the Helm client.\<close>
theorem vc_Reconcile_deploys:
  assumes "clock_ok env" and "vc_fetched env req (hist s) vc" and "\<not> vc_deleted vc"
  shows "wp (vc_Reconcile env cd c sched req) (\<lambda>r s'. \<exists>es.
     hist s' = hist s @ es @ [EvPatchVC vc (obj s')] \<and> list_all (\<lambda>e. \<not> is_sink_event e \<and> \<not> is_api_write e) es \<and>
     r = (requeue_30s, e_PatchVC env (hist s @ es) vc (obj s')) \<and>
     vc_Spec (obj s') = vc_Spec vc \<and>
     map pc_PluginName (vc_Conditions (obj s')) = map (\<lambda>p. hc_Name (pr_Chart p)) (vcs_Plugins (vc_Spec vc)) \<and>
     list_all (\<lambda>c. pc_Type c = HelmChartDeployedCondition) (vc_Conditions (obj s')) \<and>
     CleanupFinalizer \<in> set (om_Finalizers (vc_ObjectMeta (obj s')))) s"
proof -
  let ?s = "s\<lparr>hist := hist s @ fetch_vc_events req vc, obj := ensure_annotations vc\<rparr>"
  obtain m where m: "vc_annotations (obj ?s) = Some m"
    using ensure_annotations_facts(1) [of vc] by auto
  have "wp (vc_reconcile_deploy env c vc) (\<lambda>r s'. \<exists>es.
     hist s' = hist s @ es @ [EvPatchVC vc (obj s')] \<and> list_all (\<lambda>e. \<not> is_sink_event e \<and> \<not> is_api_write e) es \<and>
     r = (requeue_30s, e_PatchVC env (hist s @ es) vc (obj s')) \<and>
     vc_Spec (obj s') = vc_Spec vc \<and>
     map pc_PluginName (vc_Conditions (obj s')) = map (\<lambda>p. hc_Name (pr_Chart p)) (vcs_Plugins (vc_Spec vc)) \<and>
     list_all (\<lambda>c. pc_Type c = HelmChartDeployedCondition) (vc_Conditions (obj s')) \<and>
     CleanupFinalizer \<in> set (om_Finalizers (vc_ObjectMeta (obj s')))) ?s"
  proof (rule wp_mono [OF deploy_run [OF assms(1) m]])
    fix r s'
    assume "deployed env vc (obj ?s) m (hist ?s) r s'"
    then obtain es cs where "hist s' = hist ?s @ es @ [EvPatchVC vc (obj s')]" "list_all harmless es"
        "list_all2 condition_for (spec_names (obj ?s)) cs"
      and o1: "obj s' = ensureFinalizer CleanupFinalizer
          ((vc_set_annotations (Some (final_hashes (obj ?s) m)) (obj ?s))\<lparr>vc_Conditions := cs\<rparr>)"
      and "r = (requeue_30s, e_PatchVC env (hist ?s @ es) vc (obj s'))"
      by (auto simp: deployed_def)
    then show "\<exists>es.
     hist s' = hist s @ es @ [EvPatchVC vc (obj s')] \<and> list_all (\<lambda>e. \<not> is_sink_event e \<and> \<not> is_api_write e) es \<and>
     r = (requeue_30s, e_PatchVC env (hist s @ es) vc (obj s')) \<and>
     vc_Spec (obj s') = vc_Spec vc \<and>
     map pc_PluginName (vc_Conditions (obj s')) = map (\<lambda>p. hc_Name (pr_Chart p)) (vcs_Plugins (vc_Spec vc)) \<and>
     list_all (\<lambda>c. pc_Type c = HelmChartDeployedCondition) (vc_Conditions (obj s')) \<and>
     CleanupFinalizer \<in> set (om_Finalizers (vc_ObjectMeta (obj s')))"
      by (intro exI [of _ "fetch_vc_events req vc @ es"])
         (auto simp: condition_for_list spec_names_def plugin_name_def ensureFinalizer_facts
            ensure_annotations_facts fetch_vc_events_def harmless_def [abs_def])
  qed
  then show ?thesis using assms(3) by (simp add: wp_def vc_Reconcile_fetched [OF assms(2)])
qed

definition two_plugins_vc :: validator_config where
  "two_plugins_vc = test_vc\<lparr>vc_Spec := (vc_Spec test_vc)\<lparr>vcs_Plugins :=
     [\<lparr>pr_Chart = \<lparr>hc_Name = ''aws'', hc_Repository = ''r'', hc_Version = ''v1''\<rparr>, pr_Values = ''a: 1''\<rparr>,
      \<lparr>pr_Chart = \<lparr>hc_Name = ''oci'', hc_Repository = ''r'', hc_Version = ''v1''\<rparr>, pr_Values = []\<rparr>]\<rparr>\<rparr>"

definition deploy_env :: env where
  "deploy_env = helm_test_env\<lparr>e_GetVC := (\<lambda>h k. Inr two_plugins_vc)\<rparr>"

lemma deploy_env_ok:
  "clock_ok deploy_env" "vc_fetched deploy_env req h two_plugins_vc" "\<not> vc_deleted two_plugins_vc"
  using helm_test_env_ok
  by (simp_all add: deploy_env_def vc_fetched_def clock_ok_def vc_deleted_def two_plugins_vc_def
      test_vc_def test_meta_def empty_meta_def helm_test_env_def test_env_def)

theorem vc_Reconcile_deploys_witness:
  "\<exists>s'. map pc_PluginName (vc_Conditions (obj s')) = [''aws'', ''oci''] \<and>
     snd (vc_Reconcile deploy_env test_codec NewHelmClient (\<lambda>pt. []) (''validator'', ''vc'') (start test_vc)) = s'"
  using wp_returns [OF vc_Reconcile_deploys [OF deploy_env_ok, where req = "(''validator'', ''vc'')"
     and s = "start test_vc" and cd = test_codec and c = NewHelmClient and sched = "\<lambda>pt. []"]]
  by (fastforce simp: two_plugins_vc_def)

section \<open>Skipping, convergence, removal\<close>

text \<open>Every plugin of the specification is up to date and the conditions are exactly theirs.\<close>

definition settled :: "validator_config \<Rightarrow> bool" where
  "settled vc \<longleftrightarrow> distinct (spec_names vc) \<and> list_all2 condition_for (spec_names vc) (vc_Conditions vc) \<and>
     list_all (\<lambda>c. pc_Status c = ConditionTrue) (vc_Conditions vc) \<and>
     (\<exists>m. vc_annotations vc = Some m \<and>
       list_all (\<lambda>p. m (plugin_key p) = Some (sha256_b64 (pr_Values p))) (vcs_Plugins (vc_Spec vc)))"

lemma isConditionTrue_lookup:
  "isConditionTrue vc name ty =
     (case keyed_lookup (\<lambda>c. (pc_Type c, pc_PluginName c)) (vc_Conditions vc) (ty, name) of
        None \<Rightarrow> (zero_plugin_condition, False)
      | Some c \<Rightarrow> (c, pc_Status c = ConditionTrue))"
  using plugin_index.lookup_idx [where xs = "vc_Conditions vc" and k = "(ty, name)"]
  by (simp add: isConditionTrue_def Let_def)

lemma isConditionTrue_at:
  assumes d: "distinct ns" and c: "list_all2 condition_for ns (vc_Conditions vc)" and i: "i < length ns"
    and t: "list_all (\<lambda>c. pc_Status c = ConditionTrue) (vc_Conditions vc)"
  shows "isConditionTrue vc (ns ! i) HelmChartDeployedCondition = (vc_Conditions vc ! i, True)"
proof -
  let ?cs = "vc_Conditions vc"
  have l: "length ?cs = length ns" and ty: "list_all (\<lambda>c. pc_Type c = HelmChartDeployedCondition) ?cs"
    and nm: "map pc_PluginName ?cs = ns"
    using c condition_for_list list_all2_lengthD [OF c] by auto
  have "distinct (map (\<lambda>c. (pc_Type c, pc_PluginName c)) ?cs)"
    using d nm by (auto simp: distinct_map inj_on_def)
  moreover have "?cs ! i \<in> set ?cs" using i l by simp
  moreover have "pc_Type (?cs ! i) = HelmChartDeployedCondition" and t': "pc_Status (?cs ! i) = ConditionTrue"
    using ty t i l by (simp_all add: list_all_length)
  moreover have "pc_PluginName (?cs ! i) = ns ! i"
    using nth_map [of i ?cs pc_PluginName] i l nm by simp
  ultimately have "keyed_lookup (\<lambda>c. (pc_Type c, pc_PluginName c)) ?cs (HelmChartDeployedCondition, ns ! i) = Some (?cs ! i)"
    by (intro plugin_index.lookup_distinct [THEN iffD2] conjI) simp_all
  then show ?thesis using t' by (simp add: isConditionTrue_lookup)
qed

lemma redeploy_loop_settled:
  assumes st: "settled (obj s)" and ps: "vcs_Plugins (vc_Spec (obj s)) = pre @ ps"
  shows "redeploy_loop env c ps s = (Inr (drop (length pre) (vc_Conditions (obj s))), s)"
  using ps
proof (induction ps arbitrary: pre)
  case Nil
  have "length (vc_Conditions (obj s)) = length (spec_names (obj s))"
    using st by (auto simp: settled_def dest: list_all2_lengthD)
  then show ?case using Nil by (simp add: go_eval spec_names_def)
next
  case (Cons p ps)
  obtain m where m: "vc_annotations (obj s) = Some m"
    and h: "m (plugin_key p) = Some (sha256_b64 (pr_Values p))"
    using st Cons.prems by (auto simp: settled_def)
  have len: "length (vc_Conditions (obj s)) = length (spec_names (obj s))"
    using st by (auto simp: settled_def dest: list_all2_lengthD)
  have i: "length pre < length (spec_names (obj s))" "spec_names (obj s) ! length pre = plugin_name p"
    using Cons.prems by (simp_all add: spec_names_def nth_append)
  have ct: "isConditionTrue (obj s) (plugin_name p) HelmChartDeployedCondition = (vc_Conditions (obj s) ! length pre, True)"
    using isConditionTrue_at [of "spec_names (obj s)" "obj s" "length pre"] st i by (simp add: settled_def)
  have same: "hash_plugin p m = m" using h by (auto simp: hash_plugin_def)
  have "vc_set_annotations (Some m) (obj s) = obj s" using m by (simp add: vc_set_annotations_def)
  then have "redeploy_step env c p s = (Inr (vc_Conditions (obj s) ! length pre), s)"
    using ct h m by (simp add: redeploy_step_unfold [OF m] up_to_date_def same amap_get_def)
  moreover have "redeploy_loop env c ps s = (Inr (drop (length (pre @ [p])) (vc_Conditions (obj s))), s)"
    using Cons.IH [of "pre @ [p]"] Cons.prems by simp
  moreover have "vc_Conditions (obj s) ! length pre # drop (Suc (length pre)) (vc_Conditions (obj s)) =
      drop (length pre) (vc_Conditions (obj s))"
    using i len by (simp add: Cons_nth_drop_Suc)
  ultimately show ?case by (simp add: go_eval)
qed

lemma go_for_skip: "list_all (\<lambda>x. body x = go_return ()) xs \<Longrightarrow> go_for xs body = go_return ()"
  by (induction xs) auto

lemma redeployIfNeeded_settled:
  assumes st: "settled (obj s)"
  shows "redeployIfNeeded env c s = (Inr (), s)"
proof -
  have "list_all (\<lambda>cnd. delete_removed env c (vc_namespace (obj s)) (spec_names (obj s)) cnd = go_return ())
     (vc_Conditions (obj s))"
  proof -
    have nm: "map pc_PluginName (vc_Conditions (obj s)) = spec_names (obj s)"
      using st condition_for_list [of "spec_names (obj s)" "vc_Conditions (obj s)"]
      by (simp add: settled_def)
    have "pc_PluginName cnd \<in> set (spec_names (obj s))" if "cnd \<in> set (vc_Conditions (obj s))" for cnd
      using that by (simp flip: nm)
    then show ?thesis by (auto simp: list_all_iff delete_removed_def removed_plugin_def)
  qed
  from go_for_skip [OF this] redeploy_loop_settled [OF st, of "[]" _ env c]
  show ?thesis by (simp add: redeployIfNeeded_split go_eval)
qed

lemma deployed_settled:
  assumes d: "deployed env before vc m h r s'" and nd: "distinct (spec_names vc)"
    and ok: "list_all (\<lambda>c. pc_Status c = ConditionTrue) (vc_Conditions (obj s'))"
  shows "settled (obj s') \<and> CleanupFinalizer \<in> set (om_Finalizers (vc_ObjectMeta (obj s')))"
proof -
  obtain cs where cs: "list_all2 condition_for (spec_names vc) cs"
    and o1: "obj s' = ensureFinalizer CleanupFinalizer
          ((vc_set_annotations (Some (final_hashes vc m)) vc)\<lparr>vc_Conditions := cs\<rparr>)"
    using d by (auto simp: deployed_def)
  have sp: "vc_Spec (obj s') = vc_Spec vc" "vc_Conditions (obj s') = cs"
    "vc_annotations (obj s') = Some (final_hashes vc m)"
    by (simp_all add: o1 ensureFinalizer_facts)
  have "spec_names (obj s') = spec_names vc" by (simp add: spec_names_def sp)
  then show ?thesis using nd cs ok final_hashes_plugin [OF nd]
    by (auto simp: settled_def sp list_all_iff) (simp add: o1 ensureFinalizer_facts)
qed

end
