(* ===== verification/VC_Redeploy.thy ===== *)
theory VC_Redeploy
  imports VC_Controller
begin

text \<open>
  The deployment side of the ValidatorConfig controller: when a plugin is redeployed and when it is
  skipped, what missing credentials do, and the liveness properties: a reconciliation installs every
  plugin when helm and the registry work, and reconciling what a successful reconciliation stored
  changes nothing.
\<close>

section \<open>When everything outside works\<close>

text \<open>A cluster, a registry and a helm binary that do what they are asked.\<close>

definition helm_works :: "env \<Rightarrow> bool" where
  "helm_works env \<longleftrightarrow> (\<exists>d. e_KubeConfig env = Inr d) \<and> (\<forall>h. \<exists>f. e_CreateTemp env h = Inr f) \<and>
     (\<forall>h f d. e_WriteTemp env h f d = None) \<and> close_ok env \<and> (\<forall>h f. e_Stat env h f = StatOk) \<and>
     (\<forall>h p a. snd (e_Exec env h p a) = None)"

definition registry_works :: "env \<Rightarrow> bool" where
  "registry_works env \<longleftrightarrow>
     (\<forall>h k. \<exists>sec. e_GetSecret env h k = Inr sec \<and> sec_Data sec ''username'' \<noteq> None \<and> sec_Data sec ''password'' \<noteq> None) \<and>
     (\<forall>h f d. e_WriteFile env h f d = None) \<and>
     (\<forall>h u p r i f. e_NewOCIClient env h u p r i f = None) \<and>
     (\<forall>h r d f. e_PullChart env h r d f = None)"

lemma helm_exec_works:
  assumes "helm_works env" and "args \<noteq> []" and "P (EvExec (cli_helmPath c) args)"
  shows "wp (helm_exec env c args) (\<lambda>r s'. r = None \<and> saw P (hist s) (hist s')) s"
  using assms unfolding helm_works_def
  by (cases args) (auto simp: helm_exec_def helm_prims wp_rules saw_def Let_def split: prod.split option.split,
     (metis snd_conv option.distinct(1))+)

lemma temp_file_works: "helm_works env \<Longrightarrow> wp (temp_file env d) (\<lambda>r s'. \<exists>f. r = Inr f) s"
  unfolding helm_works_def close_ok_def
  by (auto simp: temp_file_def helm_prims wp_rules split: sum.split option.split)
     (metis Inl_Inr_False)

lemma poll_works: "helm_works env \<Longrightarrow> wp (poll_kubeconfig env poll_fuel now f) (\<lambda>r s'. r = None) s"
  unfolding poll_fuel_def poll_kubeconfig.simps(2)
  by (auto simp: helm_works_def helm_prims wp_rules)

lemma writeKubeConfig_works:
  assumes hw: "helm_works env"
  shows "wp (writeKubeConfig env) (\<lambda>r s'. \<exists>f. r = Inr f) s"
proof -
  obtain d where d: "e_KubeConfig env = Inr d" using hw by (auto simp: helm_works_def)
  show ?thesis unfolding writeKubeConfig_def d sum.case wp_bind [of "temp_file _ _"]
    by (rule wp_mono [OF temp_file_works [OF hw]])
       (auto simp: wp_rules helm_prims intro!: wp_mono [OF poll_works [OF hw]])
qed

text \<open>A step that makes a file and runs the helm binary, with the file removed afterwards.\<close>

lemma with_cleanup_works:
  "wp m (\<lambda>r s'. r = None \<and> saw P (hist s) (hist s')) s \<Longrightarrow>
     wp (with_cleanup env f m) (\<lambda>r s'. r = None \<and> saw P (hist s) (hist s')) s"
  by (auto simp: with_cleanup_def wp_rules helm_prims saw_after elim!: wp_mono)

lemma file_works:
  assumes mk: "emits T mk" "wp mk (\<lambda>r s'. \<exists>f. r = Inr f) s"
    and body: "\<And>f s'. wp (body f) (\<lambda>r s''. r = None \<and> saw P (hist s') (hist s'')) s'"
  shows "wp (go_bind mk (\<lambda>r. case r of Inl e \<Rightarrow> go_return (Some e)
           | Inr f \<Rightarrow> with_cleanup env f (body f))) (\<lambda>r s'. r = None \<and> saw P (hist s) (hist s')) s"
  by (rule wp_saw_then [OF mk]) (auto intro!: with_cleanup_works body)

lemma common_args_extends: "\<exists>xs. common_args k ns x opts as = as @ xs"
  by (simp add: common_args_def Let_def)

lemma set_args_extends: "\<exists>xs. set_args opts as = as @ xs"
  by (simp add: set_args_def Let_def)

lemma run_values_works:
  assumes hw: "helm_works env" and as: "as \<noteq> []" and P: "\<And>xs. P (EvExec (cli_helmPath c) (as @ xs))"
  shows "wp (run_values env c opts as) (\<lambda>r s'. r = None \<and> saw P (hist s) (hist s')) s"
proof -
  have ex: "wp (helm_exec env c (set_args opts (as @ xs))) (\<lambda>r s'. r = None \<and> saw P (hist s) (hist s')) s"
    for xs and s :: "(event, globals, 'a) gostate"
    using set_args_extends [of opts "as @ xs"] as P by (auto intro!: helm_exec_works [OF hw])
  have "wp (go_bind (go_sleep 1000000) (\<lambda>_. helm_exec env c (set_args opts (as @ [''--values'', f]))))
      (\<lambda>r s'. r = None \<and> saw P (hist s) (hist s')) s" for f and s :: "(event, globals, 'a) gostate"
    by (rule wp_saw_then [where T = "\<lambda>_. True" and R = "\<lambda>_ _. True"])
      (auto simp: go_sleep_def wp_rules intro!: emits_intros ex)
  then show ?thesis unfolding run_values_def using ex [of "[]"]
    by (auto intro!: file_works temp_file_works [OF hw] helm_local)
qed

text \<open>The helm command that installs or upgrades the release of a plugin.\<close>

definition upgrade_run :: "cli_client \<Rightarrow> string \<Rightarrow> event \<Rightarrow> bool" where
  "upgrade_run c name e \<longleftrightarrow> (\<exists>as. e = EvExec (cli_helmPath c) (''upgrade'' # name # as))"

lemma helm_Upgrade_works:
  assumes hw: "helm_works env" and cl: "chart_located opts"
  shows "wp (helm_Upgrade env c name ns opts)
     (\<lambda>r s'. r = None \<and> saw (upgrade_run c name) (hist s) (hist s')) s"
proof -
  let ?o = "opts\<lparr>ho_ExtraArgs := ho_ExtraArgs opts @ [''--install'']\<rparr>"
  have "\<exists>as. chart_args ''upgrade'' name ?o = Inr (''upgrade'' # name # as)"
    using cl by (simp add: chart_args_table chart_located_def)
  then obtain as where as: "chart_args ''upgrade'' name ?o = Inr (''upgrade'' # name # as)" by blast
  have "wp (run_body env c name ns ?o ''upgrade'' (ho_ExtraArgs ?o) k)
      (\<lambda>r s'. r = None \<and> saw (upgrade_run c name) (hist s) (hist s')) s"
    for k and s :: "(event, globals, 'a) gostate"
  proof -
    obtain xs where "common_args k ns (ho_ExtraArgs ?o) ?o (''upgrade'' # name # as) = (''upgrade'' # name # as) @ xs"
      using common_args_extends by blast
    then show ?thesis by (simp add: run_body_def as upgrade_run_def run_values_works [OF hw])
  qed
  then show ?thesis unfolding helm_Upgrade_def helm_run_def Let_def
    by (rule file_works [OF helm_local(3) writeKubeConfig_works [OF hw]])
qed

section \<open>Installing\<close>

text \<open>Every plugin of the specification names its chart completely.\<close>

definition charts_named :: "validator_config \<Rightarrow> bool" where
  "charts_named vc \<longleftrightarrow> (\<forall>p \<in> set (vcs_Plugins (vc_Spec vc)). plugin_name p \<noteq> [] \<longrightarrow>
     hcfg_Registry (vcs_HelmConfig (vc_Spec vc)) \<noteq> [] \<and> hc_Repository (pr_Chart p) \<noteq> [])"

lemma buildHelmChartCondition_ok:
  "wp (buildHelmChartCondition env name None) (\<lambda>cnd s'. pc_Status cnd = ConditionTrue) s"
  by (simp add: buildHelmChartCondition_def time_Now_def wp_rules Let_def)

lemma buildHelmChartCondition_harmless: "emits harmless (buildHelmChartCondition env name err)"
  by (auto simp: buildHelmChartCondition_def time_Now_def harmless_def Let_def intro!: emits_intros)

lemma upgrade_plugin_works:
  assumes "helm_works env" and "chart_located opts"
  shows "wp (upgrade_plugin env c ns name opts cl)
     (\<lambda>cnd s'. pc_Status cnd = ConditionTrue \<and> saw (upgrade_run c name) (hist s) (hist s')) s"
  unfolding upgrade_plugin_def
  by (rule wp_saw_first [OF helm_Upgrade_works [OF assms], where T = harmless])
     (auto simp: wp_rules harmless_def intro!: emits_intros helm_harmless buildHelmChartCondition_harmless
       wp_mono [OF buildHelmChartCondition_ok])

lemma configureHelmOpts_harmless: "emits harmless (configureHelmOpts env nn opts)"
  unfolding configureHelmOpts_def get_secret_def Let_def by (auto intro!: emits_intros)

lemma configureHelmOpts_works:
  assumes rw: "registry_works env"
  shows "wp (configureHelmOpts env nn opts)
     (\<lambda>r s'. fst r = None \<and> chart_located (snd r) = chart_located opts) s"
proof -
  obtain sec where sec: "e_GetSecret env (hist s) nn = Inr sec" 
      "sec_Data sec ''username'' \<noteq> None" "sec_Data sec ''password'' \<noteq> None"
    using rw unfolding registry_works_def by blast
  then obtain u p where up: "sec_Data sec ''username'' = Some u" "sec_Data sec ''password'' = Some p"
    by (meson not_Some_eq)
  have wf: "e_WriteFile env h f d = None" for h f d using rw by (simp add: registry_works_def)
  show ?thesis
    by (simp add: configureHelmOpts_def get_secret_def wp_rules sec(1) up wf Let_def chart_located_def
        split: option.split)
qed

lemma pull_oci_works:
  "registry_works env \<Longrightarrow> wp (pull_oci env opts) (\<lambda>r s'. fst r = None \<and> ho_Path (snd r) \<noteq> []) s"
  by (simp add: pull_oci_def wp_rules Let_def registry_works_def)

lemma pull_oci_harmless: "emits harmless (pull_oci env opts)"
  unfolding pull_oci_def Let_def by (auto intro!: emits_intros)

lemma deploy_plugin_works:
  assumes hw: "helm_works env" and rw: "registry_works env" and cn: "charts_named vc"
    and p: "p \<in> set (vcs_Plugins (vc_Spec vc))"
  shows "wp (deploy_plugin env c vc p) (\<lambda>cnd s'. pc_Status cnd = ConditionTrue \<and>
     saw (upgrade_run c (plugin_name p)) (hist s) (hist s')) s"
proof -
  let ?h = "vcs_HelmConfig (vc_Spec vc)"
  let ?Q = "\<lambda>s cnd s'. pc_Status cnd = ConditionTrue \<and> saw (upgrade_run c (plugin_name p)) (hist s) (hist s')"
  have loc: "chart_located (plugin_opts ?h p)"
    using cn p by (simp add: chart_located_def charts_named_def plugin_opts_def zero_options_def)
  have path: "ho_Path opts \<noteq> [] \<Longrightarrow> chart_located opts" for opts by (simp add: chart_located_def)
  have "wp (go_bind (pull_oci env opts) (\<lambda>(err, opts).
            case err of
              Some e \<Rightarrow> buildHelmChartCondition env (plugin_name p) (Some e)
            | None \<Rightarrow> upgrade_plugin env c (vc_namespace vc) (plugin_name p) opts True)) (?Q s) s"
    for opts and s :: "(event, globals, 'a) gostate"
    by (rule wp_saw_then [OF pull_oci_harmless pull_oci_works [OF rw]])
      (auto intro!: upgrade_plugin_works [OF hw] path)
  then have rest: "wp (if has_prefix (hcfg_Registry ?h) (e_OCIScheme env) then
            go_bind (pull_oci env opts) (\<lambda>(err, opts).
            case err of
              Some e \<Rightarrow> buildHelmChartCondition env (plugin_name p) (Some e)
            | None \<Rightarrow> upgrade_plugin env c (vc_namespace vc) (plugin_name p) opts True)
          else upgrade_plugin env c (vc_namespace vc) (plugin_name p) opts False) (?Q s) s"
    if "chart_located opts" for opts and s :: "(event, globals, 'a) gostate"
    using that by (simp add: upgrade_plugin_works [OF hw])
  have "wp (if hcfg_AuthSecretName ?h \<noteq> [] then configureHelmOpts env k (plugin_opts ?h p)
      else go_return (None, plugin_opts ?h p)) (\<lambda>r s'. fst r = None \<and> chart_located (snd r)) s" for k
    by (auto simp: wp_return loc intro: wp_mono [OF configureHelmOpts_works [OF rw]])
  then show ?thesis unfolding deploy_plugin_def Let_def
    by (rule wp_saw_then [where T = harmless, rotated])
      (auto simp: Let_def split del: if_split intro: rest intro!: emits_intros configureHelmOpts_harmless)
qed

definition all_deployed :: "plugin_condition list \<Rightarrow> bool" where
  "all_deployed cs \<longleftrightarrow> list_all (\<lambda>c. pc_Status c = ConditionTrue) cs"

text \<open>No condition of the object says that the plugin is deployed.\<close>

definition undeployed :: "validator_config \<Rightarrow> plugin_release \<Rightarrow> bool" where
  "undeployed vc p \<longleftrightarrow>
     (\<forall>cnd \<in> set (vc_Conditions vc). pc_PluginName cnd = plugin_name p \<longrightarrow> pc_Status cnd \<noteq> ConditionTrue)"

lemma isConditionTrue_in:
  "snd (isConditionTrue vc name t) \<Longrightarrow> fst (isConditionTrue vc name t) \<in> set (vc_Conditions vc)"
  using plugin_index.idx_lt [where k = "(t, name)" and xs = "vc_Conditions vc"]
  by (auto simp: isConditionTrue_def Let_def split: if_splits)

lemma undeployed_not_up_to_date: "undeployed vc p \<Longrightarrow> \<not> up_to_date vc p"
  using isConditionTrue_condition_for [of vc "plugin_name p"] isConditionTrue_in [of vc "plugin_name p"]
  by (auto simp: undeployed_def up_to_date_def condition_for_def)

text \<open>Every undeployed plugin of \<open>ps\<close> has been upgraded after the history \<open>h\<close>.\<close>

definition all_upgraded ::
  "cli_client \<Rightarrow> validator_config \<Rightarrow> plugin_release list \<Rightarrow> event list \<Rightarrow> event list \<Rightarrow> bool" where
  "all_upgraded c vc ps h h' \<longleftrightarrow> (\<forall>p \<in> set ps. undeployed vc p \<longrightarrow> saw (upgrade_run c (plugin_name p)) h h')"

lemma all_upgraded_after: "all_upgraded c vc ps h h' \<Longrightarrow> all_upgraded c vc ps h (h' @ es)"
  by (simp add: all_upgraded_def saw_after)

lemma all_upgraded_before: "all_upgraded c vc ps (h @ es) h' \<Longrightarrow> all_upgraded c vc ps h h'"
  by (auto simp: all_upgraded_def intro: saw_before)

lemma all_upgraded_Cons:
  "all_upgraded c vc [p] h (h @ es) \<Longrightarrow> all_upgraded c vc ps (h @ es) (h @ es @ es') \<Longrightarrow>
     all_upgraded c vc (p # ps) h (h @ es @ es')"
  by (auto simp: all_upgraded_def saw_def)

lemma redeploy_step_works:
  assumes hw: "helm_works env" and rw: "registry_works env" and cn: "charts_named (obj s)"
    and p: "p \<in> set (vcs_Plugins (vc_Spec (obj s)))" and m: "vc_annotations (obj s) = Some m"
  shows "wp (redeploy_step env c p) (\<lambda>cnd s'. pc_Status cnd = ConditionTrue \<and>
     all_upgraded c (obj s) [p] (hist s) (hist s')) s"
proof (cases "up_to_date (obj s) p")
  case True
  then show ?thesis using isConditionTrue_condition_for undeployed_not_up_to_date [of "obj s" p]
    by (auto simp: wp_def redeploy_step_unfold [OF m] Let_def up_to_date_def all_upgraded_def)
next
  case False
  define s1 where "s1 = s\<lparr>obj := vc_set_annotations (Some (hash_plugin p m)) (obj s)\<rparr>"
  have "charts_named (obj s1)" "p \<in> set (vcs_Plugins (vc_Spec (obj s1)))"
    using cn p by (simp_all add: s1_def charts_named_def)
  from deploy_plugin_works [OF hw rw this, of c s1] show ?thesis using False
    by (auto simp: wp_def redeploy_step_unfold [OF m] s1_def Let_def all_upgraded_def split: prod.splits sum.splits)
qed

lemma redeploy_loop_works:
  assumes ck: "clock_ok env" and hw: "helm_works env" and rw: "registry_works env"
  shows "charts_named (obj s) \<Longrightarrow> set ps \<subseteq> set (vcs_Plugins (vc_Spec (obj s))) \<Longrightarrow>
     vc_annotations (obj s) = Some m \<Longrightarrow>
     wp (redeploy_loop env c ps) (\<lambda>cs s'. all_deployed cs \<and> all_upgraded c (obj s) ps (hist s) (hist s')) s"
proof (induction ps arbitrary: s m)
  case (Cons p ps)
  have p: "p \<in> set (vcs_Plugins (vc_Spec (obj s)))" using Cons.prems by simp
  show ?case unfolding redeploy_loop.simps wp_bind
  proof (rule wp_mono [OF wp_grow [OF redeploy_step_harmless wp_conj [OF redeploy_step_works [OF hw rw Cons.prems(1) p Cons.prems(3)]
        redeploy_step_run [OF ck Cons.prems(3)]]]], clarify)
    fix cnd :: plugin_condition and s1 :: "(event, globals, validator_config) gostate" and es
    assume ok: "pc_Status cnd = ConditionTrue" "all_upgraded c (obj s) [p] (hist s) (hist s1)"
      and h: "hist s1 = hist s @ es"
      and o1: "obj s1 = vc_set_annotations (Some (hash_plugin p m)) (obj s)"
    have "charts_named (obj s1)" "set ps \<subseteq> set (vcs_Plugins (vc_Spec (obj s1)))"
      "vc_annotations (obj s1) = Some (hash_plugin p m)" "undeployed (obj s1) = undeployed (obj s)"
      using Cons.prems by (simp_all add: o1 charts_named_def undeployed_def fun_eq_iff)
    then show "wp (redeploy_loop env c ps) (\<lambda>a. wp (go_return (cnd # a))
        (\<lambda>cs s'. all_deployed cs \<and> all_upgraded c (obj s) (p # ps) (hist s) (hist s'))) s1"
      by (auto intro!: wp_mono [OF wp_grow [OF redeploy_loop_harmless Cons.IH]]
          simp: wp_rules all_deployed_def)
        (use ok h in \<open>auto intro: all_upgraded_Cons simp: all_upgraded_def [of _ "obj s1"] all_upgraded_def [of _ "obj s" ps]\<close>)
  qed
qed (simp add: wp_rules all_deployed_def all_upgraded_def)

lemma emits_delete_removed: "emits harmless (go_for cs (delete_removed env c ns names))"
  by (induction cs) (auto simp: delete_removed_def intro!: emits_intros deletePlugin_harmless)

lemma vc_reconcile_deploy_works:
  assumes ck: "clock_ok env" and hw: "helm_works env" and rw: "registry_works env"
    and cn: "charts_named (obj s)" and m: "vc_annotations (obj s) = Some m"
  shows "wp (vc_reconcile_deploy env c before)
     (\<lambda>r s'. all_deployed (vc_Conditions (obj s')) \<and>
        all_upgraded c (obj s) (vcs_Plugins (vc_Spec (obj s))) (hist s) (hist s')) s"
  unfolding vc_reconcile_deploy_def redeployIfNeeded_split wp_defer wp_bind wp_obj
proof (rule wp_mono [OF wp_conj [OF redeploy_loop_works [OF ck hw rw cn subset_refl m] redeploy_loop_run [OF ck m]]], clarify)
  fix cs :: "plugin_condition list" and s1 :: "(event, globals, validator_config) gostate"
  let ?m1 = "fold hash_plugin (vcs_Plugins (vc_Spec (obj s))) m"
  assume cs: "all_deployed cs" "all_upgraded c (obj s) (vcs_Plugins (vc_Spec (obj s))) (hist s) (hist s1)"
    and o1: "obj s1 = vc_set_annotations (Some ?m1) (obj s)"
  then have "vc_annotations (obj s1) = Some ?m1" by simp
  from delete_loop_run [OF ck this] show "wp (go_for (vc_Conditions (obj s))
         (delete_removed env c (vc_namespace (obj s)) (spec_names (obj s))))
     (\<lambda>a. wp (go_modify (\<lambda>vc. vc\<lparr>vc_Conditions := cs\<rparr>))
       (\<lambda>a. wp (go_modify (ensureFinalizer CleanupFinalizer))
         (\<lambda>a. wp (go_return (requeue_30s, None))
           (\<lambda>a. wp (case a of (res, reterr) \<Rightarrow> go_bind (patchValidatorConfig env before) (\<lambda>perr.
                case perr of
                  Some e \<Rightarrow> go_return (res, if reterr = None then Some e else reterr)
                | None \<Rightarrow> go_return (res, reterr)))
             (\<lambda>r s'. all_deployed (vc_Conditions (obj s')) \<and>
                all_upgraded c (obj s) (vcs_Plugins (vc_Spec (obj s))) (hist s) (hist s')))))) s1"
    by (rule wp_mono [OF wp_grow [OF emits_delete_removed]])
       (use cs in \<open>auto simp: wp_rules patchValidatorConfig_def ensureFinalizer_facts all_upgraded_after split: option.split\<close>)
qed

section \<open>Installation and convergence\<close>

lemma undeployed_ensure: "all_upgraded c (ensure_annotations vc) = all_upgraded c vc"
  by (simp add: all_upgraded_def undeployed_def ensure_annotations_facts fun_eq_iff)

lemma vc_Reconcile_works:
  assumes ck: "clock_ok env" and hw: "helm_works env" and rw: "registry_works env" and cn: "charts_named vc"
    and f: "vc_fetched env req (hist s) vc" and live: "\<not> vc_deleted vc"
  shows "wp (vc_Reconcile env cd c sched req) (\<lambda>r s'. all_deployed (vc_Conditions (obj s')) \<and>
     all_upgraded c vc (vcs_Plugins (vc_Spec vc)) (hist s) (hist s') \<and>
     map pc_PluginName (vc_Conditions (obj s')) = spec_names vc) s"
proof -
  let ?s = "s\<lparr>hist := hist s @ fetch_vc_events req vc, obj := ensure_annotations vc\<rparr>"
  obtain m where m: "vc_annotations (obj ?s) = Some m"
    using ensure_annotations_facts(1) [of vc] by auto
  have cn': "charts_named (obj ?s)" using cn by (simp add: charts_named_def ensure_annotations_facts)
  have "wp (vc_reconcile_deploy env c vc) (\<lambda>r s'. all_deployed (vc_Conditions (obj s')) \<and>
     all_upgraded c vc (vcs_Plugins (vc_Spec vc)) (hist s) (hist s') \<and>
     map pc_PluginName (vc_Conditions (obj s')) = spec_names vc) ?s"
    by (rule wp_mono [OF wp_conj [OF vc_reconcile_deploy_works [OF ck hw rw cn' m] deploy_run [OF ck m]]])
       (auto simp: deployed_def condition_for_list ensureFinalizer_facts spec_names_def ensure_annotations_facts
         undeployed_ensure dest!: all_upgraded_before)
  then show ?thesis using live by (simp add: wp_def vc_Reconcile_fetched [OF f])
qed

text \<open>C7: 
  Reconciling installs.  If helm, the registry and the secret behave and every chart is named
  completely, one reconciliation of a live ValidatorConfig, from any state and with any number of
  plugins, leaves exactly one condition per plugin and every one of them is True; and for every
  plugin that no condition reported as deployed before, \<^theory_text>\<open>helm upgrade\<close> has been run.\<close>
theorem vc_Reconcile_installs:
  assumes "clock_ok env" and "helm_works env" and "registry_works env"
    and "vc_fetched env req (hist s) vc" and "\<not> vc_deleted vc" and "charts_named vc"
  shows "wp (vc_Reconcile env cd c sched req) (\<lambda>r s'.
     map pc_PluginName (vc_Conditions (obj s')) = map (\<lambda>p. hc_Name (pr_Chart p)) (vcs_Plugins (vc_Spec vc)) \<and>
     list_all (\<lambda>cnd. pc_Status cnd = ConditionTrue) (vc_Conditions (obj s')) \<and>
     (\<forall>p \<in> set (vcs_Plugins (vc_Spec vc)). undeployed vc p \<longrightarrow>
        (\<exists>es as. hist s' = hist s @ es \<and>
           EvExec (cli_helmPath c) (''upgrade'' # hc_Name (pr_Chart p) # as) \<in> set es))) s"
  by (rule wp_mono [OF vc_Reconcile_works [OF assms(1-3,6,4,5)]])
     (fastforce simp: all_deployed_def spec_names_def plugin_name_def all_upgraded_def saw_def upgrade_run_def list_ex_iff)

definition works_env :: env where
  "works_env = helm_test_env\<lparr>e_GetVC := (\<lambda>h k. Inr two_plugins_vc),
     e_GetSecret := (\<lambda>h k. Inr (test_secret\<lparr>sec_Data := [''username'' \<mapsto> ''u'', ''password'' \<mapsto> ''p'']\<rparr>))\<rparr>"

lemma works_env_ok:
  "clock_ok works_env" "helm_works works_env" "registry_works works_env"
  "vc_fetched works_env req h two_plugins_vc" "\<not> vc_deleted two_plugins_vc" "charts_named two_plugins_vc"
  "e_NewPatchHelper works_env h k = None" "e_PatchVC works_env h a b = None"
  using helm_test_env_ok
  by (simp_all add: works_env_def helm_works_def registry_works_def vc_fetched_def clock_ok_def close_ok_def
      vc_deleted_def helm_test_env_def test_env_def two_plugins_vc_def test_vc_def test_meta_def empty_meta_def
      charts_named_def test_secret_def)

theorem vc_Reconcile_installs_witness:
  "wp (vc_Reconcile works_env test_codec NewHelmClient (\<lambda>pt. []) (''validator'', ''vc''))
     (\<lambda>r s'. map pc_Status (vc_Conditions (obj s')) = [ConditionTrue, ConditionTrue] \<and>
        (\<exists>as. EvExec ''./helm'' (''upgrade'' # ''aws'' # as) \<in> set (hist s'))) (start test_vc)"
  by (rule wp_mono [OF vc_Reconcile_installs [OF works_env_ok(1-6)]])
     (auto simp: two_plugins_vc_def list_all_iff undeployed_def test_vc_def NewHelmClient_def)

text \<open>C12: 
  Reconciling converges.  If a reconciliation of a ValidatorConfig whose plugins have distinct names
  ends with every condition True, then reconciling the object it stored runs no helm command and
  changes nothing: it reads the object, and patches it with itself.\<close>
theorem vc_Reconcile_converges:
  assumes ck: "clock_ok env" and first: "vc_fetched env req (hist s) vc" and live: "\<not> vc_deleted vc"
    and names: "distinct (map (\<lambda>p. hc_Name (pr_Chart p)) (vcs_Plugins (vc_Spec vc)))"
    and run: "vc_Reconcile env cd c sched req s = (r, s1)"
    and ok: "list_all (\<lambda>c. pc_Status c = ConditionTrue) (vc_Conditions (obj s1))"
    and again: "vc_fetched env2 req (hist s2) (obj s1)"
  shows "vc_Reconcile env2 cd c sched req s2 =
     (let h = hist s2 @ [EvGetVC req, EvNewPatchHelper (vc_obj_key (obj s1))] in
      (Inr (requeue_30s, e_PatchVC env2 h (obj s1) (obj s1)),
       s2\<lparr>hist := h @ [EvPatchVC (obj s1) (obj s1)], obj := obj s1\<rparr>))"
proof -
  let ?vc = "ensure_annotations vc"
  let ?s = "s\<lparr>hist := hist s @ fetch_vc_events req vc, obj := ?vc\<rparr>"
  obtain m where m: "vc_annotations (obj ?s) = Some m"
    using ensure_annotations_facts(1) [of vc] by auto
  have "vc_reconcile_deploy env c vc ?s = (r, s1)"
    using run live by (simp add: vc_Reconcile_fetched [OF first])
  with deploy_run [OF ck m, of c vc] obtain r' where d: "deployed env vc ?vc m (hist ?s) r' s1"
    by (auto simp: wp_def split: sum.splits)
  have nd: "distinct (spec_names ?vc)"
    using names by (simp add: spec_names_def ensure_annotations_facts plugin_name_def [abs_def])
  from deployed_settled [OF d nd ok] have st: "settled (obj s1)"
    and f: "CleanupFinalizer \<in> set (om_Finalizers (vc_ObjectMeta (obj s1)))" by auto
  have live2: "\<not> vc_deleted (obj s1)"
    using d live by (auto simp: deployed_def vc_deleted_def ensureFinalizer_def ensure_annotations_def
        vc_set_annotations_def vc_set_finalizers_def Let_def)
  obtain m2 where "vc_annotations (obj s1) = Some m2" using st by (auto simp: settled_def)
  then have ea: "ensure_annotations (obj s1) = obj s1" by (simp add: ensure_annotations_facts)
  have "ensureFinalizer CleanupFinalizer (obj s1) = obj s1" using f by (simp add: ensureFinalizer_def)
  then show ?thesis
    using redeployIfNeeded_settled [of "s2\<lparr>hist := hist s2 @ fetch_vc_events req (obj s1), obj := obj s1\<rparr>" env2 c] st live2
    by (simp add: vc_Reconcile_fetched [OF again] ea vc_reconcile_deploy_def go_eval patchValidatorConfig_def
        fetch_vc_events_def Let_def split: option.split)
qed

theorem vc_Reconcile_converges_witness:
  "let s1 = snd (vc_Reconcile works_env test_codec NewHelmClient (\<lambda>pt. []) (''validator'', ''vc'') (start test_vc)) in
     fst (vc_Reconcile (works_env\<lparr>e_GetVC := \<lambda>h k. Inr (obj s1)\<rparr>) test_codec NewHelmClient (\<lambda>pt. [])
       (''validator'', ''vc'') (start test_vc)) = Inr (requeue_30s, None)"
proof -
  let ?run = "\<lambda>env. vc_Reconcile env test_codec NewHelmClient (\<lambda>pt. []) (''validator'', ''vc'') (start test_vc)"
  obtain r s1 where run: "?run works_env = (r, s1)" by fastforce
  then have "all_deployed (vc_Conditions (obj s1))"
    using vc_Reconcile_works [OF works_env_ok(1-3) works_env_ok(6) works_env_ok(4,5), where req = "(''validator'', ''vc'')"
        and s = "start test_vc" and cd = test_codec and c = NewHelmClient and sched = "\<lambda>pt. []"]
    by (auto simp: wp_def split: sum.splits)
  then show ?thesis
    using vc_Reconcile_converges [OF works_env_ok(1,4,5) _ run,
        where ?env2.0 = "works_env\<lparr>e_GetVC := \<lambda>h k. Inr (obj s1)\<rparr>" and ?s2.0 = "start test_vc"]
    by (simp add: run all_deployed_def vc_fetched_def works_env_ok two_plugins_vc_def)
qed

section \<open>When a plugin is redeployed\<close>

lemma wp_grows: "emits P m \<Longrightarrow> wp m Q s \<Longrightarrow> wp m (\<lambda>a s'. length (hist s) \<le> length (hist s')) s"
  by (drule (1) wp_emits, erule wp_mono) auto

lemma wp_grow_bind:
  assumes "wp m (\<lambda>a s'. length (hist s) \<le> length (hist s')) s"
    and "\<And>a s'. wp (f a) (\<lambda>b s''. length (hist s') < length (hist s'')) s'"
  shows "wp (go_bind m f) (\<lambda>b s'. length (hist s) < length (hist s')) s"
  unfolding wp_bind by (rule wp_mono [OF assms(1)], rule wp_mono [OF assms(2)]) simp

lemma build_logged:
  "wp (buildHelmChartCondition env name err) (\<lambda>cnd s'. length (hist s) < length (hist s')) s"
  by (simp add: buildHelmChartCondition_def time_Now_def wp_rules Let_def split: option.split)

lemma upgrade_plugin_logged:
  assumes ck: "clock_ok env"
  shows "wp (upgrade_plugin env c ns name opts cl) (\<lambda>cnd s'. length (hist s) < length (hist s')) s"
  unfolding upgrade_plugin_def
proof (rule wp_grow_bind [OF wp_grows [OF helm_harmless(1) helm_Upgrade_total [OF ck]]], rule wp_grow_bind)
  fix err and s :: "(event, globals, 'a) gostate"
  show "wp (case err of None \<Rightarrow> go_return ()
        | Some e \<Rightarrow>
            if contains (err_text e) ''has no deployed releases''
            then go_bind (helm_Delete env c name ns) (\<lambda>_. go_return ())
            else go_return ()) (\<lambda>a s'. length (hist s) \<le> length (hist s')) s"
    by (auto simp: wp_return wp_bind split: option.split
        intro!: wp_mono [OF wp_grows [OF helm_harmless(2) helm_Delete_total [OF ck]]])
  show "wp (go_bind (buildHelmChartCondition env name err) (\<lambda>cond.
     go_bind
       (if cl then
          go_bind (go_call (EvRemoveAll (ho_Path opts)) (\<lambda>h. e_RemoveAll env h (ho_Path opts))) (\<lambda>_. go_return ())
        else go_return ()) (\<lambda>_. go_return cond))) (\<lambda>b s'. length (hist s) < length (hist s')) s" for s :: "(event, globals, 'a) gostate"
    unfolding wp_bind by (rule wp_mono [OF build_logged]) (simp add: wp_rules)
qed

lemma configureHelmOpts_total: "wp (configureHelmOpts env nn opts) (\<lambda>_ _. True) s"
  by (auto simp: configureHelmOpts_def get_secret_def wp_rules Let_def split: option.split sum.split)

lemma pull_oci_grows: "wp (pull_oci env opts) (\<lambda>r s'. length (hist s) \<le> length (hist s')) s"
  by (auto simp: pull_oci_def wp_rules Let_def split: option.split)

lemma deploy_plugin_logged:
  assumes ck: "clock_ok env"
  shows "wp (deploy_plugin env c vc p) (\<lambda>cnd s'. length (hist s) < length (hist s')) s"
  unfolding deploy_plugin_def Let_def
proof (rule wp_grow_bind)
  show "wp (if hcfg_AuthSecretName (vcs_HelmConfig (vc_Spec vc)) \<noteq> []
        then configureHelmOpts env k (plugin_opts (vcs_HelmConfig (vc_Spec vc)) p)
        else go_return (None, plugin_opts (vcs_HelmConfig (vc_Spec vc)) p))
     (\<lambda>a s'. length (hist s) \<le> length (hist s')) s" for k
    by (auto simp: wp_return intro: wp_grows [OF configureHelmOpts_harmless configureHelmOpts_total])
  have oci: "wp (go_bind (pull_oci env opts) (\<lambda>(err, opts).
            case err of
              Some e \<Rightarrow> buildHelmChartCondition env (plugin_name p) (Some e)
            | None \<Rightarrow> upgrade_plugin env c (vc_namespace vc) (plugin_name p) opts True))
       (\<lambda>b s'. length (hist s) < length (hist s')) s" for opts and s :: "(event, globals, 'a) gostate"
    by (rule wp_grow_bind [OF pull_oci_grows])
       (auto simp: build_logged upgrade_plugin_logged [OF ck] split: option.split)
  show "wp (case a of (err, opts) \<Rightarrow>
      case err of
        Some e \<Rightarrow> buildHelmChartCondition env (plugin_name p) (Some e)
      | None \<Rightarrow>
          if has_prefix (hcfg_Registry (vcs_HelmConfig (vc_Spec vc))) (e_OCIScheme env) then
            go_bind (pull_oci env opts) (\<lambda>(err, opts).
            case err of
              Some e \<Rightarrow> buildHelmChartCondition env (plugin_name p) (Some e)
            | None \<Rightarrow> upgrade_plugin env c (vc_namespace vc) (plugin_name p) opts True)
          else upgrade_plugin env c (vc_namespace vc) (plugin_name p) opts False)
     (\<lambda>b s'. length (hist s) < length (hist s')) s" for a and s :: "(event, globals, 'a) gostate"
    by (cases a) (auto simp: build_logged upgrade_plugin_logged [OF ck] oci split: option.split)
qed

text \<open>C19: 
  When a plugin is redeployed.  A round for a plugin calls the outside world exactly unless the
  plugin's last deployment is reported as True and the annotation holds the hash of its present
  values; a skipped round keeps the old condition; in both cases the annotation holds the new hash
  afterwards and nothing else of the object changes.\<close>
theorem redeploy_step_skips_iff:
  assumes ck: "clock_ok env" and m: "vc_annotations (obj s) = Some m"
  shows "wp (redeploy_step env c p) (\<lambda>cnd s'.
     (hist s' = hist s \<longleftrightarrow> snd (isConditionTrue (obj s) (plugin_name p) HelmChartDeployedCondition) \<and>
        m (getPluginHashKey (plugin_name p)) = Some (sha256_b64 (pr_Values p))) \<and>
     (hist s' = hist s \<longrightarrow> cnd = fst (isConditionTrue (obj s) (plugin_name p) HelmChartDeployedCondition)) \<and>
     obj s' = vc_set_annotations (Some (m(getPluginHashKey (plugin_name p) \<mapsto> sha256_b64 (pr_Values p)))) (obj s)) s"
proof -
  have u: "up_to_date (obj s) p \<longleftrightarrow> snd (isConditionTrue (obj s) (plugin_name p) HelmChartDeployedCondition) \<and>
        m (getPluginHashKey (plugin_name p)) = Some (sha256_b64 (pr_Values p))"
    by (simp add: up_to_date_def m amap_get_def plugin_key_def)
  show ?thesis
  proof (cases "up_to_date (obj s) p")
    case True
    then show ?thesis
      by (simp add: wp_def redeploy_step_unfold [OF m] Let_def u [symmetric] hash_plugin_def plugin_key_def)
  next
    case False
    define s1 where "s1 = s\<lparr>obj := vc_set_annotations (Some (hash_plugin p m)) (obj s)\<rparr>"
    have "wp (deploy_plugin env c (obj s1) p) (\<lambda>cnd s'. length (hist s1) < length (hist s') \<and> obj s' = obj s1) s1"
      by (rule wp_keeps [OF deploy_plugin_obj deploy_plugin_logged [OF ck]])
    then have "wp (deploy_plugin env c (obj s1) p) (\<lambda>cnd s'. hist s' \<noteq> hist s \<and> obj s' = obj s1) s1"
      by (rule wp_mono) (auto simp: s1_def)
    then show ?thesis using False
      by (simp add: wp_def redeploy_step_unfold [OF m] s1_def Let_def u [symmetric] hash_plugin_def plugin_key_def
          split: prod.splits sum.splits)
  qed
qed

theorem redeploy_step_skips_iff_witness:
  "wp (redeploy_step works_env NewHelmClient (hd (vcs_Plugins (vc_Spec two_plugins_vc))))
     (\<lambda>cnd s'. hist s' \<noteq> []) (start (ensure_annotations two_plugins_vc))"
  by (rule wp_mono [OF redeploy_step_skips_iff [where m = Map.empty]])
     (simp_all add: works_env_ok start_def ensure_annotations_def two_plugins_vc_def test_vc_def test_meta_def empty_meta_def)

text \<open>
  The values are all that counts: a plugin that is up to date stays as it is, with no call to
  Helm, when the version or the repository of its chart is changed in the specification.\<close>
lemma chart_change_ignored:
  assumes m: "vc_annotations (obj s) = Some m"
    and deployed: "isConditionTrue (obj s) (plugin_name p) HelmChartDeployedCondition = (cnd, True)"
    and hash: "m (getPluginHashKey (plugin_name p)) = Some (sha256_b64 (pr_Values p))"
  shows "redeploy_step env c (p\<lparr>pr_Chart := (pr_Chart p)\<lparr>hc_Repository := r, hc_Version := v\<rparr>\<rparr>) s = (Inr cnd, s)"
proof -
  let ?p = "p\<lparr>pr_Chart := (pr_Chart p)\<lparr>hc_Repository := r, hc_Version := v\<rparr>\<rparr>"
  have n: "plugin_name ?p = plugin_name p" by (simp add: plugin_name_def)
  have same: "hash_plugin ?p m = m" using hash by (auto simp: hash_plugin_def plugin_key_def n)
  have "vc_set_annotations (Some m) (obj s) = obj s" using m by (simp add: vc_set_annotations_def)
  then show ?thesis using deployed hash
    by (simp add: redeploy_step_unfold [OF m] up_to_date_def same amap_get_def m n plugin_key_def)
qed

definition upgraded_vc :: validator_config where
  "upgraded_vc = two_plugins_vc\<lparr>vc_ObjectMeta := (test_meta ''vc'')\<lparr>om_Annotations :=
       Some [getPluginHashKey ''aws'' \<mapsto> sha256_b64 ''a: 1'']\<rparr>,
     vc_Conditions := [\<lparr>pc_Type = HelmChartDeployedCondition, pc_PluginName = ''aws'',
       pc_Status = ConditionTrue, pc_Message = [], pc_LastTransitionTime = 1\<rparr>]\<rparr>"

definition aws_plugin :: plugin_release where
  "aws_plugin = \<lparr>pr_Chart = \<lparr>hc_Name = ''aws'', hc_Repository = ''r'', hc_Version = ''v1''\<rparr>, pr_Values = ''a: 1''\<rparr>"

lemma chart_change_ignored_witness:
  "redeploy_step test_env NewHelmClient (aws_plugin\<lparr>pr_Chart := (pr_Chart aws_plugin)\<lparr>hc_Repository := ''r'',
     hc_Version := ''v2''\<rparr>\<rparr>) (start upgraded_vc) = (Inr (hd (vc_Conditions upgraded_vc)), start upgraded_vc)"
  by (rule chart_change_ignored [OF _ _ _, where m = "[getPluginHashKey ''aws'' \<mapsto> sha256_b64 ''a: 1'']"])
     (simp_all add: start_def upgraded_vc_def aws_plugin_def plugin_name_def isConditionTrue_def conditionIndex_def)

text \<open>What is reported when the credentials cannot be used.\<close>

definition credentials_text :: "validator_config \<Rightarrow> plugin_release \<Rightarrow> goerror + secret \<Rightarrow> string" where
  "credentials_text vc p answer =
     (let chart = ''chart '' @ hc_Name (pr_Chart p) @ '' in repo '' @ hc_Repository (pr_Chart p) in
      case answer of
        Inl e \<Rightarrow> ''failed to get auth secret '' @ hcfg_AuthSecretName (vcs_HelmConfig (vc_Spec vc)) @
          '' in namespace '' @ vc_namespace vc @ '' for '' @ chart @ '': '' @ err_text e
      | Inr sec \<Rightarrow> ''auth secret for '' @ chart @ '' missing required key: '' @ [CHR 0x27] @
          (if sec_Data sec ''username'' = None then ''username'' else ''password'') @ [CHR 0x27])"

text \<open>C26: 
  Credentials first.  If the configuration names a secret that cannot be read, or that lacks the
  username or the password, the plugin's condition is False and its message tells which secret could
  not be read and why, or which key is missing; no OCI or Helm command is run for the plugin.\<close>
theorem missing_credentials_stop_deployment:
  fixes vc :: validator_config
  assumes "hcfg_AuthSecretName (vcs_HelmConfig (vc_Spec vc)) \<noteq> []"
    and "answer = e_GetSecret env (hist s) (vc_namespace vc, hcfg_AuthSecretName (vcs_HelmConfig (vc_Spec vc)))"
    and "case answer of
       Inl e \<Rightarrow> True | Inr sec \<Rightarrow> sec_Data sec ''username'' = None \<or> sec_Data sec ''password'' = None"
  shows "wp (deploy_plugin env c vc p) (\<lambda>cnd s'. pc_Status cnd = ConditionFalse \<and>
     pc_PluginName cnd = hc_Name (pr_Chart p) \<and> pc_Message cnd = credentials_text vc p answer \<and> obj s' = obj s \<and>
     hist s' = hist s @ [EvGetSecret (vc_namespace vc, hcfg_AuthSecretName (vcs_HelmConfig (vc_Spec vc))), EvNow]) s"
  using assms
  by (auto simp: deploy_plugin_def configureHelmOpts_def get_secret_def buildHelmChartCondition_def time_Now_def
      plugin_name_def plugin_opts_def secret_error_def credentials_text_def zero_options_def errors_New_def wp_rules Let_def
      split: sum.splits option.split)

definition auth_vc :: validator_config where
  "auth_vc = test_vc\<lparr>vc_Spec := (vc_Spec test_vc)\<lparr>vcs_HelmConfig :=
     (vcs_HelmConfig (vc_Spec test_vc))\<lparr>hcfg_AuthSecretName := ''creds''\<rparr>\<rparr>\<rparr>"

theorem missing_credentials_stop_deployment_witness:
  "wp (deploy_plugin (test_env\<lparr>e_GetSecret := \<lambda>h k. Inl (errors_New ''gone'')\<rparr>) NewHelmClient auth_vc aws_plugin)
     (\<lambda>cnd s'. pc_Status cnd = ConditionFalse \<and> pc_Message cnd =
       ''failed to get auth secret creds in namespace validator for chart aws in repo r: gone'') (start auth_vc)"
  by (rule wp_mono [OF missing_credentials_stop_deployment [OF _ refl]])
     (simp_all add: auth_vc_def test_vc_def test_meta_def credentials_text_def vc_namespace_def aws_plugin_def errors_New_def)

end
