(* ===== verification/VC_Deletion.thy ===== *)
theory VC_Deletion
  imports VC_Redeploy
begin

text \<open>
  The deletion side of the ValidatorConfig controller: which Helm releases are deleted before the
  finalizer goes, which can be left behind, what happens to plugins taken out of the specification,
  and that every reconciliation returns and writes at most once.
\<close>

section \<open>Deleting\<close>

definition delete_argv :: "string \<Rightarrow> string \<Rightarrow> string \<Rightarrow> string list" where
  "delete_argv name ns f = [''delete'', name, ''--namespace'', ns, ''--kubeconfig'', f]"

text \<open>An event of a deletion run for one of \<open>names\<close>.\<close>

definition delete_event :: "cli_client \<Rightarrow> string \<Rightarrow> string list \<Rightarrow> event \<Rightarrow> bool" where
  "delete_event c ns names e \<longleftrightarrow>
     (case e of
        EvExec p a \<Rightarrow> p = cli_helmPath c \<and> (\<exists>name \<in> set names. \<exists>f. a = delete_argv name ns f)
      | _ \<Rightarrow> is_helm_event e)"

lemma helm_Delete_events:
  assumes "name \<in> set names"
  shows "emits (delete_event c ns names) (helm_Delete env c name ns)"
proof -
  have q: "quiet (delete_event c ns names)" by (auto simp: quiet_def delete_event_def split: event.split)
  then show ?thesis using assms
    by (auto simp: helm_Delete_def delete_event_def delete_argv_def
        intro!: emits_intros helm_emits helm_exec_emits)
qed

lemma emits_for_in: "(\<And>x. x \<in> set xs \<Longrightarrow> emits P (body x)) \<Longrightarrow> emits P (go_for xs body)"
  by (induction xs) (auto intro!: emits_intros)

lemma deletePlugin_events:
  "emits (delete_event c ns names) (go_for names (deletePlugin env c ns))"
  by (rule emits_for_in) (auto simp: deletePlugin_def intro!: emits_intros helm_Delete_events)

lemma delete_event_harmless: "delete_event c ns names e \<Longrightarrow> harmless e"
  by (auto simp: delete_event_def harmless_def is_helm_event_local split: event.splits)

text \<open>What the lookup of a plugin's release finds, and whether Helm owns it.\<close>

definition list_event :: "string \<Rightarrow> plugin_release \<Rightarrow> event" where
  "list_event ns p = EvListSecrets [(''name'', plugin_name p), (''owner'', ''helm'')] ns"

definition lookup :: "env \<Rightarrow> release_codec \<Rightarrow> string \<Rightarrow> event list \<Rightarrow> plugin_release \<Rightarrow> goerror + release" where
  "lookup env cd ns h p =
     (case e_ListSecrets env h [(''name'', plugin_name p), (''owner'', ''helm'')] ns of
        Inl e \<Rightarrow> Inl e
      | Inr items \<Rightarrow>
          (case latest_release None (List.map_filter (item_release cd) items) of
             None \<Rightarrow> Inl (e_NewNotFound env ''Secret'' (plugin_name p)) | Some r \<Rightarrow> Inr r))"

definition owned :: "env \<Rightarrow> release_codec \<Rightarrow> string \<Rightarrow> event list \<Rightarrow> plugin_release \<Rightarrow> bool" where
  "owned env cd ns h p \<longleftrightarrow>
     (\<exists>rls sec. lookup env cd ns h p = Inr rls \<and> rls_Secret rls = Some sec \<and>
        amap_get (sec_Labels sec) ''owner'' = Some ''helm'')"

lemma lookup_run: "release_Get env cd (plugin_name p) ns s =
    (Inr (lookup env cd ns (hist s) p), s\<lparr>hist := hist s @ [list_event ns p]\<rparr>)"
  by (simp add: release_Get_run lookup_def list_event_def)

lemma wp_lookup: "wp (go_bind (release_Get env cd (plugin_name p) ns) f) Q s =
    wp (f (lookup env cd ns (hist s) p)) Q (s\<lparr>hist := hist s @ [list_event ns p]\<rparr>)"
  by (simp add: wp_def go_bind_def lookup_run)

lemma list_event_eq: "list_event ns p = list_event ns q \<longleftrightarrow> plugin_name p = plugin_name q"
  by (simp add: list_event_def)

lemma lookup_name: "plugin_name p = plugin_name q \<Longrightarrow> lookup env cd ns h p = lookup env cd ns h q"
  unfolding lookup_def by (simp only:)

lemma lookup_secret:
  "lookup env cd ns h p = Inr rls \<Longrightarrow> \<exists>sec. rls_Secret rls = Some sec"
  by (auto simp: lookup_def split: sum.splits option.splits
      dest!: latest_release_first_max first_max_in map_filter_secret)

section \<open>What the calls of a deletion show\<close>

text \<open>
  In the calls \<open>es\<close> made after the history \<open>h\<close>: Helm was seen to own a release of that name; helm
  deletes only what Helm was seen to own before; no lookup failed otherwise than by not finding a
  release; a lookup failed with the error \<open>e\<close>.
\<close>

definition seen_owned :: "env \<Rightarrow> release_codec \<Rightarrow> string \<Rightarrow> event list \<Rightarrow> event list \<Rightarrow> string \<Rightarrow> bool" where
  "seen_owned env cd ns h es n \<longleftrightarrow>
     (\<exists>us q vs. es = us @ list_event ns q # vs \<and> owned env cd ns (h @ us) q \<and> plugin_name q = n)"

definition deletes_owned ::
  "env \<Rightarrow> release_codec \<Rightarrow> cli_client \<Rightarrow> string \<Rightarrow> event list \<Rightarrow> event list \<Rightarrow> bool" where
  "deletes_owned env cd c ns h es \<longleftrightarrow>
     (\<forall>xs p a ys. es = xs @ EvExec p a # ys \<longrightarrow>
        p = cli_helmPath c \<and> (\<exists>n f. a = delete_argv n ns f \<and> seen_owned env cd ns h xs n))"

definition lookups_ok :: "env \<Rightarrow> release_codec \<Rightarrow> string \<Rightarrow> event list \<Rightarrow> event list \<Rightarrow> bool" where
  "lookups_ok env cd ns h es \<longleftrightarrow>
     (\<forall>xs q ys e. es = xs @ list_event ns q # ys \<and> lookup env cd ns (h @ xs) q = Inl e \<longrightarrow> is_not_found e)"

definition lookup_failed ::
  "env \<Rightarrow> release_codec \<Rightarrow> string \<Rightarrow> event list \<Rightarrow> event list \<Rightarrow> goerror \<Rightarrow> bool" where
  "lookup_failed env cd ns h es e \<longleftrightarrow>
     (\<exists>xs q ys. es = xs @ list_event ns q # ys \<and> lookup env cd ns (h @ xs) q = Inl e \<and> \<not> is_not_found e)"

definition looked_up ::
  "env \<Rightarrow> release_codec \<Rightarrow> string \<Rightarrow> event list \<Rightarrow> event list \<Rightarrow> goerror option \<Rightarrow> bool" where
  "looked_up env cd ns h es err =
     (case err of None \<Rightarrow> lookups_ok env cd ns h es | Some e \<Rightarrow> lookup_failed env cd ns h es e)"

text \<open>An element of an appended list is in the first or in the second one.\<close>

lemma append_splitE:
  assumes "es @ ds = xs @ e # ys"
  obtains zs where "es = xs @ e # zs" | zs where "xs = es @ zs" "ds = zs @ e # ys"
  using assms by (auto simp: append_eq_append_conv2 append_eq_Cons_conv Cons_eq_append_conv)

lemma seen_owned_append: "seen_owned env cd ns h es n \<Longrightarrow> seen_owned env cd ns h (es @ ds) n"
  unfolding seen_owned_def by (metis append.assoc append_Cons)

lemma seen_owned_snoc:
  "owned env cd ns (h @ es) q \<Longrightarrow> seen_owned env cd ns h (es @ [list_event ns q]) (plugin_name q)"
  unfolding seen_owned_def by blast

lemma deletes_owned_append:
  assumes "deletes_owned env cd c ns h es"
    and "\<And>p a. EvExec p a \<in> set ds \<Longrightarrow>
      p = cli_helmPath c \<and> (\<exists>n f. a = delete_argv n ns f \<and> seen_owned env cd ns h es n)"
  shows "deletes_owned env cd c ns h (es @ ds)"
  unfolding deletes_owned_def
proof (intro allI impI)
  fix xs p a ys
  assume "es @ ds = xs @ EvExec p a # ys"
  then show "p = cli_helmPath c \<and> (\<exists>n f. a = delete_argv n ns f \<and> seen_owned env cd ns h xs n)"
  proof (cases rule: append_splitE)
    case (1 zs)
    then show ?thesis using assms(1) unfolding deletes_owned_def by blast
  next
    case (2 zs)
    then show ?thesis using assms(2) [of p a] by (auto intro: seen_owned_append)
  qed
qed

lemma lookups_ok_append:
  assumes "lookups_ok env cd ns h es"
    and "\<And>xs q ys e. ds = xs @ list_event ns q # ys \<Longrightarrow> lookup env cd ns (h @ es @ xs) q = Inl e \<Longrightarrow> is_not_found e"
  shows "lookups_ok env cd ns h (es @ ds)"
  unfolding lookups_ok_def
proof (intro allI impI, elim conjE)
  fix xs q ys e
  assume "es @ ds = xs @ list_event ns q # ys" and l: "lookup env cd ns (h @ xs) q = Inl e"
  then show "is_not_found e"
  proof (cases rule: append_splitE)
    case (1 zs)
    then show ?thesis using assms(1) l unfolding lookups_ok_def by blast
  next
    case (2 zs)
    then show ?thesis using assms(2) [of zs q ys e] l by simp
  qed
qed

lemma looked_up_append:
  assumes "looked_up env cd ns h es err" and "list_all (\<lambda>e. \<forall>l n. e \<noteq> EvListSecrets l n) ds"
  shows "looked_up env cd ns h (es @ ds) err"
proof (cases err)
  case None
  then show ?thesis using assms
    by (auto simp: looked_up_def list_event_def intro!: lookups_ok_append)
next
  case (Some e)
  then obtain xs q ys where "es = xs @ list_event ns q # ys" "lookup env cd ns (h @ xs) q = Inl e" "\<not> is_not_found e"
    using assms(1) by (auto simp: looked_up_def lookup_failed_def)
  then have "lookup_failed env cd ns h (es @ ds) e"
    unfolding lookup_failed_def by (intro exI [of _ xs] exI [of _ q] exI [of _ "ys @ ds"]) simp
  then show ?thesis using Some by (simp add: looked_up_def)
qed

text \<open>Calls that do not matter to what was looked up, deleted or written.\<close>

definition beside :: "event \<Rightarrow> bool" where
  "beside e \<longleftrightarrow> harmless e \<and> (\<forall>l n. e \<noteq> EvListSecrets l n)"

lemma delete_event_beside: "delete_event c ns names e \<Longrightarrow> beside e"
  using delete_event_harmless by (auto simp: beside_def delete_event_def)

section \<open>The goroutines\<close>

text \<open>
  What holds while the goroutines \<open>waiting\<close> are pending; \<open>K\<close> is what is known of the calls
  otherwise, and more calls that are harmless do not change it.
\<close>

definition stable :: "(event list \<Rightarrow> bool) \<Rightarrow> bool" where
  "stable K \<longleftrightarrow> (\<forall>es ds. K es \<and> list_all harmless ds \<longrightarrow> K (es @ ds))"

definition under_way ::
  "env \<Rightarrow> release_codec \<Rightarrow> cli_client \<Rightarrow> string \<Rightarrow> event list \<Rightarrow> (event list \<Rightarrow> bool) \<Rightarrow> goerror option \<Rightarrow>
     string list \<Rightarrow> event list \<Rightarrow> bool" where
  "under_way env cd c ns h K err waiting h' \<longleftrightarrow>
     (\<exists>es. h' = h @ es \<and> K es \<and> deletes_owned env cd c ns h es \<and> looked_up env cd ns h es err \<and>
        (\<forall>n \<in> set waiting. seen_owned env cd ns h es n))"

lemma under_way_fewer:
  "under_way env cd c ns h K err waiting h' \<Longrightarrow> set rest \<subseteq> set waiting \<Longrightarrow> under_way env cd c ns h K err rest h'"
  unfolding under_way_def by blast

lemma under_way_delete:
  assumes "stable K" and "under_way env cd c ns h K err waiting h'"
    and "list_all (delete_event c ns waiting) ds"
  shows "under_way env cd c ns h K err waiting (h' @ ds)"
proof -
  obtain es where es: "h' = h @ es" "K es" "deletes_owned env cd c ns h es" "looked_up env cd ns h es err"
    "\<forall>n \<in> set waiting. seen_owned env cd ns h es n" using assms(2) unfolding under_way_def by blast
  have b: "list_all harmless ds" "list_all (\<lambda>e. \<forall>l n. e \<noteq> EvListSecrets l n) ds"
    using delete_event_beside [of c ns waiting] assms(3) unfolding list_all_iff beside_def by blast+
  have "K (es @ ds)" "looked_up env cd ns h (es @ ds) err"
    using assms(1) es(2) b looked_up_append [OF es(4)] by (simp_all add: stable_def)
  moreover have "deletes_owned env cd c ns h (es @ ds)"
  proof (rule deletes_owned_append [OF es(3)])
    fix p a
    assume "EvExec p a \<in> set ds"
    then have "delete_event c ns waiting (EvExec p a)" using assms(3) by (simp add: list_all_iff)
    then obtain n f where "p = cli_helmPath c" "n \<in> set waiting" "a = delete_argv n ns f"
      by (auto simp: delete_event_def)
    then show "p = cli_helmPath c \<and> (\<exists>n f. a = delete_argv n ns f \<and> seen_owned env cd ns h es n)"
      using es(5) by blast
  qed
  ultimately show ?thesis using es(1,5) unfolding under_way_def
    by (intro exI [of _ "es @ ds"]) (simp add: seen_owned_append)
qed

lemma deletePlugin_under_way:
  assumes ck: "clock_ok env" and "stable K" and "n \<in> set waiting"
    and "under_way env cd c ns h K err waiting (hist s)"
  shows "wp (deletePlugin env c ns n) (\<lambda>_ s'. under_way env cd c ns h K err waiting (hist s') \<and> obj s' = obj s) s"
proof -
  have "emits (delete_event c ns waiting) (deletePlugin env c ns n)"
    using assms(3) by (auto simp: deletePlugin_def intro!: emits_intros helm_Delete_events)
  from wp_keeps [OF deletePlugin_obj wp_emits [OF this deletePlugin_total [OF ck]]]
  show ?thesis by (rule wp_mono) (use assms under_way_delete in auto)
qed

lemma picked: "k < length xs \<Longrightarrow> set xs = insert (xs ! k) (set (take k xs @ drop (Suc k) xs))"
  by (metis Cons_nth_drop_Suc append_take_drop_id list.simps(15) Un_insert_right set_append)

lemma run_picked_under_way:
  fixes s :: "(event, globals, 'o) gostate"
  assumes ck: "clock_ok env" and st: "stable K"
  shows "under_way env cd c ns h K err waiting (hist s) \<Longrightarrow>
    wp (run_picked env c ns ks waiting) (\<lambda>rest s'. under_way env cd c ns h K err rest (hist s') \<and> obj s' = obj s) s"
proof (induction ks arbitrary: waiting s)
  case Nil
  then show ?case by (simp add: wp_return)
next
  case (Cons k ks)
  show ?case
  proof (cases "k < length waiting")
    case True
    let ?rest = "take k waiting @ drop (Suc k) waiting"
    have "waiting ! k \<in> set waiting" and sub: "set ?rest \<subseteq> set waiting" using True picked [OF True] by auto
    from deletePlugin_under_way [OF ck st this(1) Cons.prems]
    have "wp (deletePlugin env c ns (waiting ! k)) (\<lambda>_ s1. wp (run_picked env c ns ks ?rest)
        (\<lambda>rest s'. under_way env cd c ns h K err rest (hist s') \<and> obj s' = obj s) s1) s"
    proof (rule wp_mono, elim conjE)
      fix s1 :: "(event, globals, 'o) gostate"
      assume "under_way env cd c ns h K err waiting (hist s1)" and o1: "obj s1 = obj s"
      from Cons.IH [OF under_way_fewer [OF this(1) sub]] o1
      show "wp (run_picked env c ns ks ?rest)
        (\<lambda>rest s'. under_way env cd c ns h K err rest (hist s') \<and> obj s' = obj s) s1" by simp
    qed
    then show ?thesis using True by (simp add: wp_bind)
  qed (simp add: Cons)
qed

lemma delete_scan_under_way:
  fixes s :: "(event, globals, 'o) gostate"
  assumes ck: "clock_ok env"
  shows "under_way env cd c ns h (list_all harmless) None waiting (hist s) \<Longrightarrow>
    wp (delete_scan env cd c sched ns ps i waiting)
      (\<lambda>x s'. under_way env cd c ns h (list_all harmless) (fst x) (snd x) (hist s') \<and> obj s' = obj s) s"
proof (induction ps arbitrary: i waiting s)
  case Nil
  have st: "stable (list_all harmless)" by (simp add: stable_def)
  have all: "wp (go_for rest (deletePlugin env c ns))
      (\<lambda>_ s'. under_way env cd c ns h (list_all harmless) None rest (hist s') \<and> obj s' = obj s1) s1"
    if "under_way env cd c ns h (list_all harmless) None rest (hist s1)" for rest and s1 :: "(event, globals, 'o) gostate"
    by (rule wp_for [where I = "\<lambda>s'. under_way env cd c ns h (list_all harmless) None rest (hist s') \<and> obj s' = obj s1"])
       (use that in \<open>auto intro!: wp_mono [OF deletePlugin_under_way [OF ck st]]\<close>)
  show ?case unfolding delete_scan.simps wp_bind
    by (rule wp_mono [OF run_picked_under_way [OF ck st Nil]], rule wp_mono [OF all])
       (auto simp: wp_return elim: under_way_fewer)
next
  case (Cons p ps)
  have st: "stable (list_all harmless)" by (simp add: stable_def)
  let ?Q = "\<lambda>x s'. under_way env cd c ns h (list_all harmless) (fst x) (snd x) (hist s') \<and> obj s' = obj s"
  show ?case unfolding delete_scan.simps wp_bind [of "run_picked _ _ _ _ _"]
  proof (rule wp_mono [OF run_picked_under_way [OF ck st Cons.prems]], elim conjE)
    fix rest and s1 :: "(event, globals, 'o) gostate"
    assume "under_way env cd c ns h (list_all harmless) None rest (hist s1)" and o1: "obj s1 = obj s"
    then obtain es where es: "hist s1 = h @ es" "list_all harmless es" "deletes_owned env cd c ns h es"
      "lookups_ok env cd ns h es" "\<forall>n \<in> set rest. seen_owned env cd ns h es n"
      unfolding under_way_def looked_up_def by auto
    let ?s2 = "s1\<lparr>hist := hist s1 @ [list_event ns p]\<rparr>" and ?es2 = "es @ [list_event ns p]"
    have more: "hist ?s2 = h @ ?es2" "list_all harmless ?es2" "deletes_owned env cd c ns h ?es2"
      "\<forall>n \<in> set rest. seen_owned env cd ns h ?es2 n"
      using es by (auto simp: list_event_def intro!: deletes_owned_append seen_owned_append)
    have u: "under_way env cd c ns h (list_all harmless) err names (hist ?s2)"
      if "looked_up env cd ns h ?es2 err" "\<forall>n \<in> set names. seen_owned env cd ns h ?es2 n" for err names
      using more that unfolding under_way_def by blast
    have ok: "looked_up env cd ns h ?es2 None" if "\<And>e. lookup env cd ns (hist s1) p = Inl e \<Longrightarrow> is_not_found e"
      using that es(1) unfolding looked_up_def option.case
      by (intro lookups_ok_append [OF es(4)])
        (auto simp: Cons_eq_append_conv list_event_eq dest!: lookup_name [of p _ env cd ns "h @ es"])
    show "wp (go_bind (release_Get env cd (plugin_name p) ns) (\<lambda>got. case got of
       Inl e \<Rightarrow> go_return (if \<not> is_not_found e then Some e else None, rest)
     | Inr release \<Rightarrow>
         (case rls_Secret release of
            None \<Rightarrow> go_panic NilDereference
          | Some sec \<Rightarrow>
              if amap_get (sec_Labels sec) ''owner'' \<noteq> Some ''helm''
              then go_return (None, rest)
              else delete_scan env cd c sched ns ps (Suc i) (rest @ [plugin_name p])))) ?Q s1"
    proof (cases "lookup env cd ns (hist s1) p")
      case (Inl e)
      have "lookup_failed env cd ns h ?es2 e" if "\<not> is_not_found e"
        using that Inl es(1) unfolding lookup_failed_def by (intro exI [of _ es]) auto
      then show ?thesis
        using Inl u [OF _ more(4), of "Some e"] u [OF ok more(4)] o1
        by (cases "is_not_found e") (simp_all add: wp_lookup wp_return looked_up_def)
    next
      case (Inr rls)
      then obtain sec where sec: "rls_Secret rls = Some sec" using lookup_secret by blast
      show ?thesis
      proof (cases "amap_get (sec_Labels sec) ''owner'' = Some ''helm''")
        case True
        then have "owned env cd ns (h @ es) p" using Inr sec es(1) by (simp add: owned_def)
        then have "under_way env cd c ns h (list_all harmless) None (rest @ [plugin_name p]) (hist ?s2)"
          using more(4) seen_owned_snoc [of env cd ns h es p] Inr by (intro u ok) auto
        from Cons.IH [OF this, of "Suc i"] show ?thesis using Inr sec True o1 by (simp add: wp_lookup)
      next
        case False
        then show ?thesis using Inr sec u [OF ok more(4)] o1 by (simp add: wp_lookup wp_return)
      qed
    qed
  qed
qed

lemma deletePlugins_under_way:
  assumes ck: "clock_ok env"
  shows "wp (deletePlugins env cd c sched) (\<lambda>x s'.
    under_way env cd c (vc_namespace (obj s)) (hist s) (list_all harmless) (fst x) (snd x) (hist s') \<and> obj s' = obj s) s"
  unfolding deletePlugins_def wp_bind wp_obj
  by (rule delete_scan_under_way [OF ck]) (simp add: under_way_def deletes_owned_def looked_up_def lookups_ok_def)

lemma run_picked_harmless: "emits harmless (run_picked env c ns ks waiting)"
  by (induction ks arbitrary: waiting) (auto intro!: emits_intros deletePlugin_harmless)

lemma delete_scan_harmless: "emits harmless (delete_scan env cd c sched ns ps i waiting)"
  by (induction ps arbitrary: i waiting)
     (auto simp: release_Get_def release_List_def Let_def intro!: emits_intros run_picked_harmless deletePlugin_harmless)

text \<open>The run of a deletion is in the history after \<open>h\<close>.\<close>

definition ran :: "cli_client \<Rightarrow> string \<Rightarrow> event list \<Rightarrow> string \<Rightarrow> event list \<Rightarrow> bool" where
  "ran c ns h name h' \<longleftrightarrow> saw (\<lambda>e. \<exists>f. e = EvExec (cli_helmPath c) (delete_argv name ns f)) h h'"

lemma ran_append: "ran c ns h name h' \<Longrightarrow> ran c ns h name (h' @ es)"
  unfolding ran_def by (rule saw_after)

lemma ran_before: "ran c ns (h @ es) name h' \<Longrightarrow> ran c ns h name h'"
  unfolding ran_def by (rule saw_before)

lemma helm_Delete_ran:
  assumes hw: "helm_works env"
  shows "wp (helm_Delete env c name ns) (\<lambda>r s'. ran c ns (hist s) name (hist s')) s"
  unfolding helm_Delete_def ran_def
  by (rule wp_mono [OF file_works [OF helm_local(3) writeKubeConfig_works [OF hw] helm_exec_works [OF hw]]])
    (auto simp: delete_argv_def)

lemma deletePlugin_ran:
  assumes hw: "helm_works env"
  shows "wp (deletePlugin env c ns name) (\<lambda>r s'. ran c ns (hist s) name (hist s')) s"
  unfolding deletePlugin_def wp_bind
  by (rule wp_mono [OF helm_Delete_ran [OF hw]]) (simp add: wp_rules)

lemma run_picked_ran:
  fixes s :: "(event, globals, 'o) gostate"
  assumes hw: "helm_works env"
  shows "wp (run_picked env c ns ks waiting) (\<lambda>rest s'. \<forall>n \<in> set waiting. n \<in> set rest \<or> ran c ns (hist s) n (hist s')) s"
proof (induction ks arbitrary: waiting s)
  case (Cons k ks)
  show ?case
  proof (cases "k < length waiting")
    case True
    let ?rest = "take k waiting @ drop (Suc k) waiting"
    have "wp (deletePlugin env c ns (waiting ! k)) (\<lambda>_ s1. wp (run_picked env c ns ks ?rest)
        (\<lambda>rest s'. \<forall>n \<in> set waiting. n \<in> set rest \<or> ran c ns (hist s) n (hist s')) s1) s"
    proof (rule wp_mono [OF deletePlugin_ran [OF hw]])
      fix s1 :: "(event, globals, 'o) gostate"
      assume 1: "ran c ns (hist s) (waiting ! k) (hist s1)"
      then obtain es where es: "hist s1 = hist s @ es" by (auto simp: ran_def saw_def)
      show "wp (run_picked env c ns ks ?rest)
        (\<lambda>rest s'. \<forall>n \<in> set waiting. n \<in> set rest \<or> ran c ns (hist s) n (hist s')) s1"
        by (rule wp_mono [OF wp_emits [OF run_picked_harmless Cons]])
           (use picked [OF True] ran_append [OF 1] ran_before [of c ns "hist s" es] es in auto)
    qed
    then show ?thesis using True by (simp add: wp_bind)
  qed (simp add: Cons)
qed (simp add: wp_return)

lemma delete_loop_ran:
  assumes hw: "helm_works env"
  shows "wp (go_for names (deletePlugin env c ns)) (\<lambda>_ s'. \<forall>n \<in> set names. ran c ns (hist s) n (hist s')) s"
proof (induction names arbitrary: s)
  case (Cons n names)
  show ?case unfolding go_for.simps wp_bind
  proof (rule wp_mono [OF deletePlugin_ran [OF hw]])
    fix s1 :: "(event, globals, 'a) gostate"
    assume 1: "ran c ns (hist s) n (hist s1)"
    then obtain es where es: "hist s1 = hist s @ es" by (auto simp: ran_def saw_def)
    show "wp (go_for names (deletePlugin env c ns))
        (\<lambda>_ s'. \<forall>n \<in> set (n # names). ran c ns (hist s) n (hist s')) s1"
      by (rule wp_mono [OF wp_emits [OF emits_for [OF deletePlugin_harmless] Cons.IH]])
         (use ran_append [OF 1] es ran_before [of c ns "hist s" es] in \<open>auto\<close>)
  qed
qed (simp add: wp_rules)

lemma delete_scan_ran:
  fixes s :: "(event, globals, 'o) gostate"
  assumes hw: "helm_works env"
  shows "\<forall>h. \<forall>p \<in> set ps. owned env cd ns h p \<Longrightarrow>
    wp (delete_scan env cd c sched ns ps i waiting) (\<lambda>x s'. x = (None, []) \<and>
      (\<forall>n \<in> set waiting \<union> plugin_name ` set ps. ran c ns (hist s) n (hist s'))) s"
proof (induction ps arbitrary: i waiting s)
  case Nil
  show ?case unfolding delete_scan.simps wp_bind
  proof (rule wp_mono [OF wp_emits [OF run_picked_harmless run_picked_ran [OF hw]]], elim conjE exE)
    fix rest es and s1 :: "(event, globals, 'o) gostate"
    assume 1: "\<forall>n \<in> set waiting. n \<in> set rest \<or> ran c ns (hist s) n (hist s1)" and es: "hist s1 = hist s @ es"
    show "wp (go_for rest (deletePlugin env c ns)) (\<lambda>_. wp (go_return (None, [])) (\<lambda>x s'. x = (None, []) \<and>
        (\<forall>n \<in> set waiting \<union> plugin_name ` set []. ran c ns (hist s) n (hist s')))) s1"
      by (rule wp_mono [OF wp_emits [OF emits_for [OF deletePlugin_harmless] delete_loop_ran [OF hw]]])
         (use 1 es ran_before [of c ns "hist s" es] ran_append in \<open>fastforce simp: wp_return\<close>)
  qed
next
  case (Cons p ps)
  show ?case unfolding delete_scan.simps wp_bind [of "run_picked _ _ _ _ _"]
  proof (rule wp_mono [OF wp_emits [OF run_picked_harmless run_picked_ran [OF hw]]], elim conjE exE)
    fix rest es and s1 :: "(event, globals, 'o) gostate"
    assume 1: "\<forall>n \<in> set waiting. n \<in> set rest \<or> ran c ns (hist s) n (hist s1)" and es: "hist s1 = hist s @ es"
    let ?s2 = "s1\<lparr>hist := hist s1 @ [list_event ns p]\<rparr>"
    obtain rls sec where own: "lookup env cd ns (hist s1) p = Inr rls" "rls_Secret rls = Some sec"
        "amap_get (sec_Labels sec) ''owner'' = Some ''helm''"
      using Cons.prems unfolding owned_def by (meson list.set_intros(1))
    have "\<forall>h. \<forall>p \<in> set ps. owned env cd ns h p" using Cons.prems by simp
    from wp_emits [OF delete_scan_harmless Cons.IH [OF this]]
    have "wp (delete_scan env cd c sched ns ps (Suc i) (rest @ [plugin_name p])) (\<lambda>x s'. x = (None, []) \<and>
        (\<forall>n \<in> set waiting \<union> plugin_name ` set (p # ps). ran c ns (hist s) n (hist s'))) ?s2"
      by (rule wp_mono)
         (use 1 es ran_before [of c ns "hist s" "es @ [list_event ns p]"] ran_append in \<open>fastforce\<close>)
    then show "wp (go_bind (release_Get env cd (plugin_name p) ns) (\<lambda>got. case got of
       Inl e \<Rightarrow> go_return (if \<not> is_not_found e then Some e else None, rest)
     | Inr release \<Rightarrow>
         (case rls_Secret release of
            None \<Rightarrow> go_panic NilDereference
          | Some sec \<Rightarrow>
              if amap_get (sec_Labels sec) ''owner'' \<noteq> Some ''helm''
              then go_return (None, rest)
              else delete_scan env cd c sched ns ps (Suc i) (rest @ [plugin_name p]))))
       (\<lambda>x s'. x = (None, []) \<and>
          (\<forall>n \<in> set waiting \<union> plugin_name ` set (p # ps). ran c ns (hist s) n (hist s'))) s1"
      using own by (simp add: wp_lookup)
  qed
qed

lemma removeFinalizer_run:
  "removeFinalizer env f s =
     (let vc = vc_set_finalizers (filter (\<lambda>g. g \<noteq> f) (om_Finalizers (vc_ObjectMeta (obj s)))) (obj s) in
      if f \<in> set (om_Finalizers (vc_ObjectMeta (obj s)))
      then (Inr (e_UpdateVC env (hist s) vc), s\<lparr>hist := hist s @ [EvUpdateVC vc], obj := vc\<rparr>)
      else (Inr None, s))"
proof -
  let ?fs = "om_Finalizers (vc_ObjectMeta (obj s))"
  have "length (filter (\<lambda>g. g \<noteq> f) ?fs) \<noteq> length ?fs \<longleftrightarrow> f \<in> set ?fs"
    by (metis (mono_tags, lifting) filter_id_conv length_filter_less less_irrefl)
  then show ?thesis
    by (auto simp: removeFinalizer_def go_eval Let_def split: option.split)
qed

fun cleanup_event :: "event \<Rightarrow> bool" where
  "cleanup_event (EvFinalizeCleanup g u) = True"
| "cleanup_event _ = False"

lemma emitFinalizeCleanup_run:
  "wp (emitFinalizeCleanup env) (\<lambda>r s'. obj s' = obj s \<and>
     (\<exists>es. hist s' = hist s @ es \<and> list_all cleanup_event es)) s"
proof -
  have "emits cleanup_event (emitFinalizeCleanup env)" "keeps obj (emitFinalizeCleanup env)"
    by (auto simp: emitFinalizeCleanup_def Let_def intro!: emits_intros frame_intros)
  moreover have "wp (emitFinalizeCleanup env) (\<lambda>r s'. True) s"
    by (simp add: emitFinalizeCleanup_def Let_def wp_rules split: sum.split option.split)
  ultimately show ?thesis by (auto intro: wp_mono [OF wp_emits [OF _ wp_keeps]])
qed

section \<open>The deletion path of Reconcile\<close>

definition without_finalizer :: "validator_config \<Rightarrow> validator_config" where
  "without_finalizer vc =
     vc_set_finalizers (filter (\<lambda>g. g \<noteq> CleanupFinalizer) (om_Finalizers (vc_ObjectMeta vc))) vc"

definition held :: "validator_config \<Rightarrow> bool" where
  "held vc \<longleftrightarrow> CleanupFinalizer \<in> set (om_Finalizers (vc_ObjectMeta vc))"

definition writes :: "event list \<Rightarrow> event list" where
  "writes es = filter is_api_write es"

lemma writes_simps [simp]: "writes [] = []" "writes (xs @ ys) = writes xs @ writes ys"
  "writes (e # es) = (if is_api_write e then e # writes es else writes es)"
  by (simp_all add: writes_def)

lemma writes_harmless [simp]: "list_all harmless es \<Longrightarrow> writes es = []"
  by (auto simp: writes_def filter_empty_conv list_all_iff harmless_def)

lemma no_sink_harmless: "list_all harmless es \<Longrightarrow> list_all (\<lambda>e. \<not> is_sink_event e) es"
  by (auto simp: list_all_iff harmless_def)

text \<open>The finalizer is taken off by an update, if it is there; then nothing is written any more.\<close>

definition released :: "env \<Rightarrow> event list \<Rightarrow> validator_config \<Rightarrow> goerror option \<Rightarrow> event list \<Rightarrow> bool" where
  "released env h vc err es \<longleftrightarrow>
     (if held vc then err = e_UpdateVC env h (without_finalizer vc) \<and> es = [EvUpdateVC (without_finalizer vc)]
      else err = None \<and> es = [])"

lemma removeFinalizer_released:
  "wp (removeFinalizer env CleanupFinalizer) (\<lambda>err s'. \<exists>es. hist s' = hist s @ es \<and>
     released env (hist s) (obj s) err es) s"
  by (simp add: wp_def removeFinalizer_run Let_def released_def held_def without_finalizer_def)

lemma vc_Reconcile_deleted:
  assumes f: "vc_fetched env req (hist s) vc" and d: "vc_deleted vc"
  shows "wp (vc_Reconcile env cd c sched req) Q s =
     wp (vc_reconcile_delete env cd c sched req) Q
       (s\<lparr>hist := hist s @ fetch_vc_events req vc, obj := ensure_annotations vc\<rparr>)"
  using d by (simp add: wp_def vc_Reconcile_fetched [OF f])

lemma ensure_annotations_more:
  "vc_namespace (ensure_annotations vc) = vc_namespace vc" "held (ensure_annotations vc) = held vc"
  "without_finalizer (ensure_annotations vc) = ensure_annotations (without_finalizer vc)"
  by (simp_all add: ensure_annotations_def vc_namespace_def held_def without_finalizer_def
      vc_set_annotations_def vc_set_finalizers_def)

text \<open>How a deletion ends, after the namespace has been read as alive.\<close>

definition finished ::
  "env \<Rightarrow> event list \<Rightarrow> validator_config \<Rightarrow> goerror option \<Rightarrow> event list \<Rightarrow> bool" where
  "finished env h vc err es \<longleftrightarrow> (\<exists>xs upd ys. es = xs @ upd @ ys \<and> list_all harmless xs \<and>
     list_all harmless ys \<and> released env (h @ xs) vc err upd)"

definition deletion_end ::
  "env \<Rightarrow> release_codec \<Rightarrow> cli_client \<Rightarrow> validator_config \<Rightarrow> event list \<Rightarrow>
     ctrl_result \<times> goerror option \<Rightarrow> event list \<Rightarrow> bool" where
  "deletion_end env cd c vc h r es \<longleftrightarrow> deletes_owned env cd c (vc_namespace vc) h es \<and>
     (lookups_ok env cd (vc_namespace vc) h es \<and> (\<exists>err. finished env h vc err es \<and> r = (no_requeue, err))
      \<or> list_all harmless es \<and> (\<exists>e. lookup_failed env cd (vc_namespace vc) h es e \<and> r = (no_requeue, Some e)))"

lemma finished_stable: "stable (finished env h vc err)"
proof -
  have "finished env h vc err (es @ ds)" if f: "finished env h vc err es" and d: "list_all harmless ds" for es ds
  proof -
    obtain xs upd ys where "es = xs @ upd @ ys" "list_all harmless xs" "list_all harmless ys"
      "released env (h @ xs) vc err upd" using f unfolding finished_def by blast
    then show ?thesis using d unfolding finished_def
      by (intro exI [of _ xs] exI [of _ upd] exI [of _ "ys @ ds"]) simp
  qed
  then show ?thesis by (simp add: stable_def)
qed

lemma released_events: "released env h vc err upd \<Longrightarrow> e \<in> set upd \<Longrightarrow> e = EvUpdateVC (without_finalizer vc)"
  by (auto simp: released_def split: if_splits)

lemma under_way_calls:
  assumes "under_way env cd c ns h K err waiting h'"
    and "\<And>es. h' = h @ es \<Longrightarrow> K es \<Longrightarrow> K' (es @ ds)"
    and "\<And>e. e \<in> set ds \<Longrightarrow> (\<forall>p a. e \<noteq> EvExec p a) \<and> (\<forall>l n. e \<noteq> EvListSecrets l n)"
  shows "under_way env cd c ns h K' err waiting (h' @ ds)"
proof -
  obtain es where es: "h' = h @ es" "K es" "deletes_owned env cd c ns h es" "looked_up env cd ns h es err"
    "\<forall>n \<in> set waiting. seen_owned env cd ns h es n" using assms(1) unfolding under_way_def by blast
  moreover have "deletes_owned env cd c ns h (es @ ds)"
    by (rule deletes_owned_append [OF es(3)]) (use assms(3) in blast)
  moreover have "looked_up env cd ns h (es @ ds) err"
    by (rule looked_up_append [OF es(4)]) (use assms(3) in \<open>simp add: list_all_iff\<close>)
  ultimately show ?thesis using assms(2) [OF es(1,2)] unfolding under_way_def
    by (intro exI [of _ "es @ ds"]) (simp add: seen_owned_append)
qed

lemma removeFinalizer_under_way:
  assumes "under_way env cd c ns h (list_all harmless) err waiting (hist s)"
  shows "wp (removeFinalizer env CleanupFinalizer)
    (\<lambda>uerr s'. under_way env cd c ns h (finished env h (obj s) uerr) err waiting (hist s')) s"
proof (rule wp_mono [OF removeFinalizer_released], elim exE conjE)
  fix uerr upd and s' :: "(event, globals, validator_config) gostate"
  assume h': "hist s' = hist s @ upd" and r: "released env (hist s) (obj s) uerr upd"
  have fin: "finished env h (obj s) uerr (es @ upd)" if "hist s = h @ es" "list_all harmless es" for es
    using that r unfolding finished_def by (intro exI [of _ es] exI [of _ upd] exI [of _ "[]"]) simp
  show "under_way env cd c ns h (finished env h (obj s) uerr) err waiting (hist s')"
    unfolding h'
    by (rule under_way_calls [where ds = upd, OF assms]) (use fin in \<open>auto dest: released_events [OF r]\<close>)
qed

lemma cleanup_event_harmless: "cleanup_event e \<Longrightarrow> harmless e"
  by (cases e) auto

lemma emitFinalizeCleanup_under_way:
  assumes "stable K" and "under_way env cd c ns h K err waiting (hist s)"
  shows "wp (emitFinalizeCleanup env) (\<lambda>_ s'. under_way env cd c ns h K err waiting (hist s')) s"
proof (rule wp_mono [OF emitFinalizeCleanup_run], elim exE conjE)
  fix es and s' :: "(event, globals, 'a) gostate"
  assume h': "hist s' = hist s @ es" and ce: "list_all cleanup_event es"
  have "list_all harmless es" using ce by (auto simp: list_all_iff cleanup_event_harmless)
  then show "under_way env cd c ns h K err waiting (hist s')"
    unfolding h' using assms(1) ce
    by (intro under_way_calls [OF assms(2)]) (auto simp: stable_def list_all_iff dest!: bspec)
qed

text \<open>From the removal of the finalizer to the return.\<close>

definition finish_deletion ::
  "env \<Rightarrow> cli_client \<Rightarrow> schedule \<Rightarrow> string \<Rightarrow> string list \<Rightarrow> (validator_config, ctrl_result \<times> goerror option) act" where
  "finish_deletion env c sched ns waiting =
     go_bind (run_picked env c ns (sched Before_Update) waiting) (\<lambda>waiting.
     go_bind (removeFinalizer env CleanupFinalizer) (\<lambda>err.
     go_bind (run_picked env c ns (sched Before_Cleanup) waiting) (\<lambda>waiting.
     go_bind (emitFinalizeCleanup env) (\<lambda>_.
     go_bind (run_picked env c ns (sched Before_Return) waiting) (\<lambda>_.
     go_return (no_requeue, err))))))"

lemma finish_deletion_run:
  fixes s :: "(event, globals, validator_config) gostate"
  assumes ck: "clock_ok env" and u: "under_way env cd c ns h (list_all harmless) None waiting (hist s)"
  shows "wp (finish_deletion env c sched ns waiting) (\<lambda>r s'. \<exists>err rest. r = (no_requeue, err) \<and>
    under_way env cd c ns h (finished env h (obj s) err) None rest (hist s')) s"
  unfolding finish_deletion_def wp_bind
proof (rule wp_mono [OF run_picked_under_way [OF ck _ u]])
  show "stable (list_all harmless)" by (simp add: stable_def)
next
  fix w and s1 :: "(event, globals, validator_config) gostate"
  assume 1: "under_way env cd c ns h (list_all harmless) None w (hist s1) \<and> obj s1 = obj s"
  have rest: "wp (run_picked env c ns ks w') (\<lambda>w'. wp (emitFinalizeCleanup env) (\<lambda>_.
       wp (run_picked env c ns ks' w') (\<lambda>_. wp (go_return (no_requeue, err))
         (\<lambda>r s'. \<exists>err rest. r = (no_requeue, err) \<and>
            under_way env cd c ns h (finished env h (obj s) err) None rest (hist s'))))) s2"
    if "under_way env cd c ns h (finished env h (obj s) err) None w' (hist s2)"
    for ks ks' err w' and s2 :: "(event, globals, validator_config) gostate"
    using that
    by (intro wp_mono [OF run_picked_under_way [OF ck finished_stable]]
        wp_mono [OF emitFinalizeCleanup_under_way [OF finished_stable]]) (auto simp: wp_return)
  show "wp (removeFinalizer env CleanupFinalizer) (\<lambda>err. wp (run_picked env c ns (sched Before_Cleanup) w)
      (\<lambda>w. wp (emitFinalizeCleanup env) (\<lambda>_. wp (run_picked env c ns (sched Before_Return) w)
        (\<lambda>_. wp (go_return (no_requeue, err)) (\<lambda>r s'. \<exists>err rest. r = (no_requeue, err) \<and>
            under_way env cd c ns h (finished env h (obj s) err) None rest (hist s')))))) s1"
    by (rule wp_mono [OF removeFinalizer_under_way]) (use 1 rest in auto)
qed

text \<open>What follows \<^theory_text>\<open>deletePlugins\<close>; the rule that splits the deletion there.\<close>

definition after_plugins :: "env \<Rightarrow> cli_client \<Rightarrow> schedule \<Rightarrow> string \<Rightarrow> goerror option \<Rightarrow> string list \<Rightarrow>
     (validator_config, ctrl_result \<times> goerror option) act" where
  "after_plugins env c sched ns derr waiting =
     (case derr of
        Some e \<Rightarrow> go_bind (run_picked env c ns (sched Before_Return) waiting) (\<lambda>_. go_return (no_requeue, Some e))
      | None \<Rightarrow> finish_deletion env c sched ns waiting)"

lemma wp_deletion:
  assumes ns: "e_GetNamespace env (hist s) (fst req) = Inr None" and v: "obj s = v"
    and m: "wp (deletePlugins env cd c sched) R (s\<lparr>hist := hist s @ [EvGetNamespace (fst req)]\<rparr>)"
    and r: "\<And>derr waiting s'. R (derr, waiting) s' \<Longrightarrow> wp (after_plugins env c sched (vc_namespace v) derr waiting) Q s'"
  shows "wp (vc_reconcile_delete env cd c sched req) Q s"
proof -
  have o: "obj (s\<lparr>hist := h\<rparr>) = v" for h using v by simp
  have "wp (deletePlugins env cd c sched)
      (\<lambda>x. wp (case x of (derr, waiting) \<Rightarrow> after_plugins env c sched (vc_namespace v) derr waiting) Q)
      (s\<lparr>hist := hist s @ [EvGetNamespace (fst req)]\<rparr>)"
    by (rule wp_mono [OF m]) (auto intro: r)
  then show ?thesis
    unfolding vc_reconcile_delete_def after_plugins_def finish_deletion_def wp_bind [of "go_call _ _"] wp_call ns
      sum.case option.case wp_bind [of go_obj] wp_obj wp_bind [of "deletePlugins _ _ _ _"] o .
qed

lemma delete_alive_run:
  fixes s :: "(event, globals, validator_config) gostate"
  assumes ck: "clock_ok env" and ns: "e_GetNamespace env (hist s) (fst req) = Inr None"
  shows "wp (vc_reconcile_delete env cd c sched req)
     (\<lambda>r s'. \<exists>es. hist s' = (hist s @ [EvGetNamespace (fst req)]) @ es \<and>
        deletion_end env cd c (obj s) (hist s @ [EvGetNamespace (fst req)]) r es) s" (is "wp _ ?Q s")
proof -
  let ?h = "hist s @ [EvGetNamespace (fst req)]" and ?ns = "vc_namespace (obj s)"
  let ?s = "s\<lparr>hist := ?h\<rparr>"
  have Q: "?Q r s'" if "under_way env cd c ?ns ?h (finished env ?h (obj s) err) None rest (hist s')" "r = (no_requeue, err)"
    for r err rest and s' :: "(event, globals, validator_config) gostate"
    using that unfolding under_way_def deletion_end_def looked_up_def by auto
  have Q': "?Q r s'" if "under_way env cd c ?ns ?h (list_all harmless) (Some e) rest (hist s')" "r = (no_requeue, Some e)"
    for r e rest and s' :: "(event, globals, validator_config) gostate"
    using that unfolding under_way_def deletion_end_def looked_up_def by auto
  have st: "stable (list_all harmless)" by (simp add: stable_def)
  show ?thesis
  proof (rule wp_deletion [OF ns refl deletePlugins_under_way [OF ck]])
    fix derr w and s1 :: "(event, globals, validator_config) gostate"
    assume "under_way env cd c (vc_namespace (obj ?s)) (hist ?s) (list_all harmless) (fst (derr, w)) (snd (derr, w)) (hist s1)
      \<and> obj s1 = obj ?s"
    then have u: "under_way env cd c ?ns ?h (list_all harmless) derr w (hist s1)" and o1: "obj s1 = obj s"
      by simp_all
    show "wp (after_plugins env c sched ?ns derr w) ?Q s1"
    proof (cases derr)
      case None
      have "under_way env cd c ?ns ?h (list_all harmless) None w (hist s1)" using u None by simp
      then show ?thesis unfolding after_plugins_def None option.case
      proof (rule wp_mono [OF finish_deletion_run [OF ck]])
        fix r and s' :: "(event, globals, validator_config) gostate"
        assume "\<exists>err rest. r = (no_requeue, err) \<and>
          under_way env cd c ?ns ?h (finished env ?h (obj s1) err) None rest (hist s')"
        then obtain err rest where "under_way env cd c ?ns ?h (finished env ?h (obj s) err) None rest (hist s')"
          "r = (no_requeue, err)" unfolding o1 by blast
        then show "?Q r s'" by (rule Q)
      qed
    next
      case (Some e)
      then have "under_way env cd c ?ns ?h (list_all harmless) (Some e) w (hist s1)" using u by simp
      then show ?thesis unfolding after_plugins_def Some option.case wp_bind
        by (rule wp_mono [OF run_picked_under_way [OF ck st]])
          (unfold wp_return, elim conjE, erule Q', rule refl)
    qed
  qed
qed

lemma run_picked_none [simp]: "run_picked env c ns ks [] = go_return []"
  by (induction ks) simp_all

lemma finish_deletion_none:
  assumes "held (obj s)"
  shows "wp (finish_deletion env c sched ns []) (\<lambda>r s'. \<exists>post.
     hist s' = hist s @ EvUpdateVC (without_finalizer (obj s)) # post \<and> list_all harmless post \<and>
     r = (no_requeue, e_UpdateVC env (hist s) (without_finalizer (obj s)))) s"
proof -
  have "list_all harmless es" if "list_all cleanup_event es" for es
    using that by (auto simp: list_all_iff cleanup_event_harmless)
  then show ?thesis unfolding finish_deletion_def run_picked_none wp_bind wp_return
    by (intro wp_mono [OF removeFinalizer_released])
      (auto simp: released_def assms wp_return intro!: wp_mono [OF emitFinalizeCleanup_run])
qed

definition deletes :: "cli_client \<Rightarrow> validator_config \<Rightarrow> event list \<Rightarrow> bool" where
  "deletes c vc es \<longleftrightarrow> (\<forall>p \<in> set (vcs_Plugins (vc_Spec vc)). \<exists>f. EvExec (cli_helmPath c)
        [''delete'', hc_Name (pr_Chart p), ''--namespace'', vc_namespace vc, ''--kubeconfig'', f] \<in> set es)"

lemma deletePlugins_deletes_all:
  fixes s :: "(event, globals, validator_config) gostate"
  assumes ck: "clock_ok env" and hw: "helm_works env" and v: "obj s = v"
    and own: "\<forall>h. \<forall>p \<in> set (vcs_Plugins (vc_Spec v)). owned env cd (vc_namespace v) h p"
  shows "wp (deletePlugins env cd c sched) (\<lambda>x s'. x = (None, []) \<and> obj s' = v \<and>
     (\<exists>es. hist s' = hist s @ es \<and> list_all harmless es \<and> deletes c v es)) s"
proof -
  let ?ns = "vc_namespace v" and ?ps = "vcs_Plugins (vc_Spec v)"
  have "wp (deletePlugins env cd c sched) (\<lambda>x s'. x = (None, []) \<and>
      (\<forall>n \<in> set [] \<union> plugin_name ` set ?ps. ran c ?ns (hist s) n (hist s'))) s"
    unfolding deletePlugins_def wp_bind wp_obj v by (rule delete_scan_ran [OF hw own])
  from wp_conj [OF this deletePlugins_under_way [OF ck]] show ?thesis
  proof (rule wp_mono, elim conjE)
    fix x :: "goerror option \<times> string list" and s' :: "(event, globals, validator_config) gostate"
    assume x: "x = (None, [])" and "\<forall>n \<in> set [] \<union> plugin_name ` set ?ps. ran c ?ns (hist s) n (hist s')"
      and u: "under_way env cd c (vc_namespace (obj s)) (hist s) (list_all harmless) (fst x) (snd x) (hist s')"
      and o': "obj s' = obj s"
    then have all: "\<forall>p \<in> set ?ps. ran c ?ns (hist s) (plugin_name p) (hist s')" by simp
    obtain es where es: "hist s' = hist s @ es" "list_all harmless es" using u by (auto simp: under_way_def)
    have "deletes c v es" using all es(1)
      by (auto simp: deletes_def ran_def saw_def list_ex_iff delete_argv_def plugin_name_def)
    then show "x = (None, []) \<and> obj s' = v \<and>
        (\<exists>es. hist s' = hist s @ es \<and> list_all harmless es \<and> deletes c v es)"
      using x es o' v by blast
  qed
qed

text \<open>C8: 
  Nothing is left behind.  If Helm owns a release for every plugin, helm works, and the namespace is
  not being deleted, then however the goroutines are scheduled, reconciling a deleted ValidatorConfig
  runs \<^theory_text>\<open>helm delete\<close> for every plugin before it takes off the finalizer, which is its only write,
  and returns the error of that update.\<close>
theorem vc_Reconcile_deletes_all:
  assumes ck: "clock_ok env" and hw: "helm_works env"
    and fetched: "vc_fetched env req (hist s) vc" and del: "vc_deleted vc" and held: "held vc"
    and ns: "\<forall>h. e_GetNamespace env h (fst req) = Inr None"
    and own: "\<forall>h. \<forall>p \<in> set (vcs_Plugins (vc_Spec vc)). owned env cd (vc_namespace vc) h p"
  shows "wp (vc_Reconcile env cd c sched req) (\<lambda>r s'. \<exists>pre upd post.
     hist s' = hist s @ pre @ EvUpdateVC upd # post \<and> writes pre = [] \<and> writes post = [] \<and>
     deletes c vc pre \<and> CleanupFinalizer \<notin> set (om_Finalizers (vc_ObjectMeta upd)) \<and>
     r = (no_requeue, e_UpdateVC env (hist s @ pre) upd)) s" (is "wp _ ?Q s")
proof -
  let ?v = "ensure_annotations vc"
  let ?t = "s\<lparr>hist := hist s @ fetch_vc_events req vc, obj := ?v\<rparr>"
  let ?s = "?t\<lparr>hist := hist ?t @ [EvGetNamespace (fst req)]\<rparr>"
  have own': "\<forall>h. \<forall>p \<in> set (vcs_Plugins (vc_Spec ?v)). owned env cd (vc_namespace ?v) h p"
    using own by (simp add: ensure_annotations_facts ensure_annotations_more)
  show ?thesis unfolding vc_Reconcile_deleted [OF fetched del]
  proof (rule wp_deletion [OF _ _ deletePlugins_deletes_all [OF ck hw _ own']])
    show "e_GetNamespace env (hist ?t) (fst req) = Inr None" using ns by simp
    show "obj ?t = ?v" "obj ?s = ?v" by simp_all
    fix derr :: "goerror option" and w :: "string list" and s1 :: "(event, globals, validator_config) gostate"
    assume "(derr, w) = (None, []) \<and> obj s1 = ?v \<and>
      (\<exists>es. hist s1 = hist ?s @ es \<and> list_all harmless es \<and> deletes c ?v es)"
    then obtain es where x: "derr = None" "w = []" and o1: "obj s1 = ?v"
      and es: "hist s1 = hist ?s @ es" "list_all harmless es" "deletes c ?v es" by blast
    let ?pre = "fetch_vc_events req vc @ EvGetNamespace (fst req) # es"
    have h: "hist s1 = hist s @ ?pre" and w: "writes ?pre = []" "deletes c vc ?pre"
      using es by (auto simp: deletes_def ensure_annotations_facts ensure_annotations_more fetch_vc_events_def)
    have "held (obj s1)" using held by (simp add: o1 ensure_annotations_more)
    from finish_deletion_none [OF this]
    show "wp (after_plugins env c sched (vc_namespace ?v) derr w) ?Q s1"
      unfolding after_plugins_def x option.case
      by (rule wp_mono) (use w in \<open>auto simp: h o1 without_finalizer_def intro!: exI [of _ ?pre]\<close>)
  qed
qed

definition owned_release :: release where
  "owned_release = test_release\<lparr>rls_Info := Some \<lparr>ri_FirstDeployed = 0, ri_LastDeployed = 0,
       ri_Deleted = 0, ri_Description = [], ri_Status = ''deployed'', ri_Notes = []\<rparr>,
     rls_Chart := Some \<lparr>ch_Metadata = Some \<lparr>cm_Name = ''aws'', cm_Home = [], cm_Sources = [],
       cm_Version = [], cm_Description = [], cm_Keywords = [], cm_Maintainers = [], cm_Icon = [],
       cm_APIVersion = [], cm_Condition = [], cm_Tags = [], cm_AppVersion = [], cm_Deprecated = False,
       cm_Annotations = None, cm_KubeVersion = [], cm_Type = [], cm_Urls = []\<rparr>\<rparr>\<rparr>"

definition owned_data :: string where
  "owned_data = b64_encode [123, 34, 125]"

lemma owned_data: "b64_decode owned_data = Some [123, 34, 125]"
  unfolding owned_data_def by (rule b64_decode_encode) simp

definition owned_secret :: secret where
  "owned_secret = test_secret\<lparr>sec_Data := [''release'' \<mapsto> owned_data]\<rparr>"

definition owned_codec :: release_codec where
  "owned_codec = test_codec\<lparr>cd_unmarshal := (\<lambda>b. Inr owned_release)\<rparr>"

definition deleted_vc :: validator_config where
  "deleted_vc = two_plugins_vc\<lparr>vc_ObjectMeta := (vc_ObjectMeta two_plugins_vc)\<lparr>
     om_DeletionTimestamp := Some 7, om_Finalizers := [''other'', CleanupFinalizer]\<rparr>\<rparr>"

definition deletion_env :: env where
  "deletion_env = helm_test_env\<lparr>e_GetVC := (\<lambda>h k. Inr deleted_vc),
     e_ListSecrets := (\<lambda>h l n. Inr [owned_secret])\<rparr>"

lemma item_release_owned: "item_release owned_codec owned_secret = Some (owned_release\<lparr>rls_Secret := Some owned_secret\<rparr>)"
  by (simp add: item_release_def owned_secret_def decodeRelease_def owned_data owned_codec_def
      test_codec_def magicGzip_def usable_def owned_release_def)

lemma deletion_env_ok:
  "clock_ok deletion_env" "helm_works deletion_env" "vc_fetched deletion_env req h deleted_vc"
  "vc_deleted deleted_vc" "held deleted_vc" "e_GetNamespace deletion_env h n = Inr None"
  "owned deletion_env owned_codec ns h p" "e_NewPatchHelper deletion_env h k = None"
  using helm_test_env_ok
  by (simp_all add: deletion_env_def helm_works_def vc_fetched_def clock_ok_def close_ok_def vc_deleted_def
      deleted_vc_def held_def helm_test_env_def test_env_def owned_def lookup_def List.map_filter_def
      item_release_owned amap_get_def) (simp add: owned_secret_def test_secret_def)

theorem vc_Reconcile_deletes_all_witness:
  "wp (vc_Reconcile deletion_env owned_codec NewHelmClient (\<lambda>pt. [1, 0]) (''validator'', ''vc''))
     (\<lambda>r s'. \<exists>pre upd post. hist s' = pre @ EvUpdateVC upd # post \<and> deletes NewHelmClient deleted_vc pre)
     (start deleted_vc)"
  by (rule wp_mono [OF vc_Reconcile_deletes_all [where vc = deleted_vc and sched = "\<lambda>pt. [1, 0]"]])
     (auto simp: deletion_env_ok start_def)

text \<open>What can be written: nothing, or once the object without its finalizer, whose error is returned.\<close>

definition released_once :: "env \<Rightarrow> event list \<Rightarrow> validator_config \<Rightarrow> ctrl_result \<times> goerror option \<Rightarrow> event list \<Rightarrow> bool" where
  "released_once env h vc r es \<longleftrightarrow> writes es = [] \<or>
     (\<exists>xs ys. es = xs @ EvUpdateVC (without_finalizer vc) # ys \<and> writes xs = [] \<and> writes ys = [] \<and>
        r = (no_requeue, e_UpdateVC env (h @ xs) (without_finalizer vc)))"

lemma released_onceI: "writes xs = [] \<Longrightarrow> writes ys = [] \<Longrightarrow> released_once env h vc
    (no_requeue, e_UpdateVC env (h @ xs) (without_finalizer vc)) (xs @ EvUpdateVC (without_finalizer vc) # ys)"
  unfolding released_once_def by blast

lemma deletion_end_released: "deletion_end env cd c vc h r es \<Longrightarrow> released_once env h vc r es"
  unfolding deletion_end_def
proof (elim conjE disjE exE)
  fix err
  assume "finished env h vc err es" "r = (no_requeue, err)"
  then show "released_once env h vc r es"
    by (auto simp: finished_def released_def intro!: released_onceI split: if_splits)
       (simp add: released_once_def)
qed (simp add: released_once_def)

text \<open>C14: 
  What a deletion may do, however the goroutines are scheduled.  It writes nothing but, once, the
  object without the cleanup finalizer, and returns the error of that update.  If the namespace cannot
  be read, it does nothing; if the namespace is itself being deleted, that update is all it does.
  Otherwise it runs \<^theory_text>\<open>helm delete\<close> only for releases that it has seen to be Helm's own before, and if
  a lookup fails otherwise than by not finding the release, then the error of such a lookup is returned
  and nothing is written: the finalizer stays.  The clock must advance with the sleeps of the client.\<close>
theorem vc_Reconcile_deletion_paths:
  assumes ck: "clock_ok env" and fetched: "vc_fetched env req (hist s) vc" and del: "vc_deleted vc"
    and h: "h = hist s @ [EvGetVC req, EvNewPatchHelper (vc_obj_key vc)]"
    and h1: "h1 = h @ [EvGetNamespace (fst req)]" and v: "v = ensure_annotations vc"
  shows "wp (vc_Reconcile env cd c sched req) (\<lambda>r s'. \<exists>es. hist s' = h1 @ es \<and> released_once env h1 v r es \<and>
     (case e_GetNamespace env h (fst req) of
        Inl e \<Rightarrow> es = [] \<and> r = (no_requeue, None)
      | Inr (Some t) \<Rightarrow> es = (if held vc then [EvUpdateVC (without_finalizer v)] else [])
      | Inr None \<Rightarrow> deletes_owned env cd c (vc_namespace vc) h1 es \<and>
          (lookups_ok env cd (vc_namespace vc) h1 es \<or>
           writes es = [] \<and> (\<exists>e. lookup_failed env cd (vc_namespace vc) h1 es e \<and> r = (no_requeue, Some e))))) s"
    (is "wp _ ?Q s")
proof -
  let ?s = "s\<lparr>hist := hist s @ fetch_vc_events req vc, obj := v\<rparr>"
  have hs: "hist ?s = h" by (simp add: h fetch_vc_events_def)
  consider e where "e_GetNamespace env h (fst req) = Inl e" | t where "e_GetNamespace env h (fst req) = Inr (Some t)"
    | "e_GetNamespace env h (fst req) = Inr None"
    by (cases "e_GetNamespace env h (fst req)"; metis option.exhaust)
  then show ?thesis unfolding vc_Reconcile_deleted [OF fetched del] v [symmetric]
  proof cases
    case 1
    then show "wp (vc_reconcile_delete env cd c sched req) ?Q ?s"
      using hs by (simp add: vc_reconcile_delete_def wp_rules h1 released_once_def)
  next
    case (2 t)
    have "held v = held vc" by (simp add: v ensure_annotations_more)
    then have "released_once env h1 v (no_requeue, err) es \<and>
        es = (if held vc then [EvUpdateVC (without_finalizer v)] else [])"
      if "released env h1 v err es" for err es
      using that released_onceI [of "[]" "[]" env h1 v]
      by (auto simp: released_def released_once_def [of _ _ _ _ "[]"] split: if_splits)
    then show "wp (vc_reconcile_delete env cd c sched req) ?Q ?s"
      using 2 hs by (simp add: vc_reconcile_delete_def wp_bind wp_call h1 split del: if_split)
         (rule wp_mono [OF removeFinalizer_released], auto simp: wp_return split del: if_split)
  next
    case 3
    then have ns: "e_GetNamespace env (hist ?s) (fst req) = Inr None" using hs by simp
    show "wp (vc_reconcile_delete env cd c sched req) ?Q ?s"
    proof (rule wp_mono [OF delete_alive_run [OF ck ns]], elim exE conjE)
      fix r es and s' :: "(event, globals, validator_config) gostate"
      assume h': "hist s' = (hist ?s @ [EvGetNamespace (fst req)]) @ es"
        and d: "deletion_end env cd c (obj ?s) (hist ?s @ [EvGetNamespace (fst req)]) r es"
      have "vc_namespace v = vc_namespace vc" by (simp add: v ensure_annotations_more)
      then show "?Q r s'" using h' deletion_end_released [OF d] d 3 hs
        by (intro exI [of _ es]) (auto simp: h1 deletion_end_def)
    qed
  qed
qed

lemma nothing_owned:
  assumes d: "deletes_owned env cd c ns h es" and no: "\<And>h p. \<not> owned env cd ns h p"
  shows "\<forall>p a. EvExec p a \<notin> set es"
proof (intro allI notI)
  fix p a
  assume "EvExec p a \<in> set es"
  then obtain xs ys where "es = xs @ EvExec p a # ys" by (auto dest: split_list)
  then show False using d no unfolding deletes_owned_def seen_owned_def by blast
qed

text \<open>Every lookup fails while the API server is not available.\<close>

theorem vc_Reconcile_deletion_paths_witness:
  "wp (vc_Reconcile (deletion_env\<lparr>e_ListSecrets := \<lambda>h l n. Inl (errors_New ''timeout'')\<rparr>) owned_codec NewHelmClient
       (\<lambda>pt. []) (''validator'', ''vc'')) (\<lambda>r s'. \<exists>es. hist s' = [EvGetVC (''validator'', ''vc''),
         EvNewPatchHelper (vc_obj_key deleted_vc), EvGetNamespace ''validator''] @ es \<and>
       (\<forall>p a. EvExec p a \<notin> set es)) (start deleted_vc)"
  by (rule wp_mono [OF vc_Reconcile_deletion_paths [OF _ _ _ refl refl refl, where vc = deleted_vc]])
     (use deletion_env_ok(1,3,4,6,8) in \<open>auto simp: clock_ok_def vc_fetched_def start_def owned_def lookup_def
        dest!: nothing_owned\<close>)

text \<open>
  Plugins can outlive their ValidatorConfig.  If the first plugin's release cannot be found, no
  \<^theory_text>\<open>helm delete\<close> runs for any plugin, and yet the finalizer is taken off without an error of the
  deletion: the releases of the other plugins stay in the cluster.\<close>
lemma vc_Reconcile_orphans:
  assumes ck: "clock_ok env" and fetched: "vc_fetched env req (hist s) vc" and del: "vc_deleted vc" and held: "held vc"
    and ns: "\<forall>h. e_GetNamespace env h (fst req) = Inr None"
    and first: "vcs_Plugins (vc_Spec vc) = p # ps"
    and gone: "\<forall>h. e_ListSecrets env h [(''name'', hc_Name (pr_Chart p)), (''owner'', ''helm'')] (vc_namespace vc) = Inr []"
    and nf: "\<forall>n. is_not_found (e_NewNotFound env ''Secret'' n)"
  shows "wp (vc_Reconcile env cd c sched req) (\<lambda>r s'. \<exists>es upd post.
     hist s' = hist s @ es @ EvUpdateVC upd # post \<and> (\<forall>p a. EvExec p a \<notin> set es) \<and>
     CleanupFinalizer \<notin> set (om_Finalizers (vc_ObjectMeta upd)) \<and>
     r = (no_requeue, e_UpdateVC env (hist s @ es) upd)) s" (is "wp _ ?Q s")
proof -
  let ?v = "ensure_annotations vc"
  let ?t = "s\<lparr>hist := hist s @ fetch_vc_events req vc, obj := ?v\<rparr>"
  let ?es = "fetch_vc_events req vc @ [EvGetNamespace (fst req), list_event (vc_namespace vc) p]"
  let ?s = "s\<lparr>obj := ?v, hist := hist s @ ?es\<rparr>"
  have scan: "deletePlugins env cd c sched (?t\<lparr>hist := hist ?t @ [EvGetNamespace (fst req)]\<rparr>)
      = (Inr (None, []), ?s)"
    using nf gone [folded plugin_name_def]
    by (simp add: deletePlugins_def go_eval ensure_annotations_facts ensure_annotations_more first lookup_run
        lookup_def List.map_filter_def)
  have "held (obj ?s)" using held by (simp add: ensure_annotations_more)
  from finish_deletion_none [OF this] have fin: "wp (finish_deletion env c sched (vc_namespace ?v) []) ?Q ?s"
    by (rule wp_mono) (auto simp: fetch_vc_events_def list_event_def without_finalizer_def intro!: exI [of _ ?es])
  show ?thesis unfolding vc_Reconcile_deleted [OF fetched del]
  proof (rule wp_deletion [where R = "\<lambda>x s'. x = (None, []) \<and> s' = ?s" and v = ?v])
    show "wp (deletePlugins env cd c sched) (\<lambda>x s'. x = (None, []) \<and> s' = ?s)
        (?t\<lparr>hist := hist ?t @ [EvGetNamespace (fst req)]\<rparr>)" unfolding wp_def scan by simp
  qed (use ns fin in \<open>auto simp: after_plugins_def\<close>)
qed

lemma vc_Reconcile_orphans_witness:
  "wp (vc_Reconcile (deletion_env\<lparr>e_ListSecrets := \<lambda>h l n. if (''name'', ''aws'') \<in> set l then Inr [] else Inr [owned_secret]\<rparr>)
       owned_codec NewHelmClient (\<lambda>pt. []) (''validator'', ''vc''))
     (\<lambda>r s'. \<exists>es upd post. hist s' = es @ EvUpdateVC upd # post \<and> (\<forall>p a. EvExec p a \<notin> set es)) (start deleted_vc)"
  by (rule wp_mono [OF vc_Reconcile_orphans [where vc = deleted_vc
        and p = "hd (vcs_Plugins (vc_Spec deleted_vc))" and ps = "tl (vcs_Plugins (vc_Spec deleted_vc))"]])
     (use deletion_env_ok in \<open>auto simp: clock_ok_def vc_fetched_def start_def deleted_vc_def
        two_plugins_vc_def deletion_env_def helm_test_env_def test_env_def\<close>)

section \<open>Every reconciliation\<close>

definition sparing :: "event list \<Rightarrow> event list \<Rightarrow> bool" where
  "sparing h h' \<longleftrightarrow> (\<exists>es. h' = h @ es \<and> length (writes es) \<le> 1 \<and> list_all (\<lambda>e. \<not> is_sink_event e) es)"

lemma sparingI: "h' = h @ es \<Longrightarrow> length (writes es) \<le> 1 \<Longrightarrow> list_all (\<lambda>e. \<not> is_sink_event e) es \<Longrightarrow> sparing h h'"
  by (auto simp: sparing_def)

lemma sparing_before: "sparing (h @ es) h' \<Longrightarrow> list_all harmless es \<Longrightarrow> sparing h h'"
  unfolding sparing_def by (auto dest: no_sink_harmless)

lemma released_sparing: "released env h1 vc err upd \<Longrightarrow>
    length (writes upd) \<le> 1 \<and> list_all (\<lambda>e. \<not> is_sink_event e) upd"
  by (auto simp: released_def split: if_splits)

lemma deletion_end_events:
  assumes "deletion_end env cd c vc h r es"
  shows "list_all (\<lambda>e. harmless e \<or> e = EvUpdateVC (without_finalizer vc)) es"
proof -
  consider "list_all harmless es"
    | xs upd ys err where "es = xs @ upd @ ys" "list_all harmless xs" "list_all harmless ys" "released env (h @ xs) vc err upd"
    using assms unfolding deletion_end_def finished_def by blast
  then show ?thesis
    by cases (auto simp: list_all_iff dest: released_events)
qed

lemma deletion_end_sparing:
  assumes "deletion_end env cd c vc h r es"
  shows "sparing h (h @ es)"
proof (rule sparingI [OF refl])
  show "length (writes es) \<le> 1"
    using deletion_end_released [OF assms] by (auto simp: released_once_def)
  show "list_all (\<lambda>e. \<not> is_sink_event e) es"
    using deletion_end_events [OF assms] by (auto simp: list_all_iff harmless_def)
qed

lemma delete_sparing:
  assumes ck: "clock_ok env"
  shows "wp (vc_reconcile_delete env cd c sched req) (\<lambda>r s'. sparing (hist s) (hist s')) s"
proof -
  let ?h = "hist s @ [EvGetNamespace (fst req)]"
  consider e where "e_GetNamespace env (hist s) (fst req) = Inl e" | t where "e_GetNamespace env (hist s) (fst req) = Inr (Some t)"
    | "e_GetNamespace env (hist s) (fst req) = Inr None"
    by (cases "e_GetNamespace env (hist s) (fst req)"; metis option.exhaust)
  then show ?thesis
  proof cases
    case 1
    then show ?thesis by (simp add: vc_reconcile_delete_def wp_rules sparing_def)
  next
    case (2 t)
    then show ?thesis
      by (simp add: vc_reconcile_delete_def wp_bind wp_call)
         (rule wp_mono [OF removeFinalizer_released], auto simp: wp_return sparing_def dest: released_sparing)
  next
    case 3
    then show ?thesis
      by (intro wp_mono [OF delete_alive_run [OF ck]])
         (auto dest!: deletion_end_sparing elim!: sparing_before)
  qed
qed

lemma deploy_sparing:
  assumes ck: "clock_ok env" and m: "vc_annotations (obj s) = Some m"
  shows "wp (vc_reconcile_deploy env c before) (\<lambda>r s'. sparing (hist s) (hist s')) s"
  by (rule wp_mono [OF deploy_run [OF ck m]]) (auto simp: deployed_def sparing_def no_sink_harmless)

text \<open>C13: 
  Every reconciliation of a ValidatorConfig returns (no panic, no endless polling), in every
  environment whose clock advances with the sleeps; it writes to the API server at most once and
  never reaches a sink.\<close>
theorem vc_Reconcile_one_write:
  assumes ck: "clock_ok env"
  shows "wp (vc_Reconcile env cd c sched req) (\<lambda>r s'. \<exists>es. hist s' = hist s @ es \<and>
     length (filter is_api_write es) \<le> 1 \<and> list_all (\<lambda>e. \<not> is_sink_event e) es) s"
proof -
  have "wp (vc_Reconcile env cd c sched req) (\<lambda>r s'. sparing (hist s) (hist s')) s"
  proof (cases "\<exists>vc. vc_fetched env req (hist s) vc")
    case True
    then obtain vc where f: "vc_fetched env req (hist s) vc" by blast
    let ?s = "s\<lparr>hist := hist s @ fetch_vc_events req vc, obj := ensure_annotations vc\<rparr>"
    have fe: "list_all harmless (fetch_vc_events req vc)" by (simp add: fetch_vc_events_def)
    obtain m where m: "vc_annotations (obj ?s) = Some m"
      using ensure_annotations_facts(1) [of vc] by auto
    have "wp (if vc_deleted vc then vc_reconcile_delete env cd c sched req else vc_reconcile_deploy env c vc)
        (\<lambda>r s'. sparing (hist s) (hist s')) ?s"
      using fe by (auto intro!: wp_mono [OF delete_sparing [OF ck]] wp_mono [OF deploy_sparing [OF ck m]]
          elim: sparing_before)
    then show ?thesis by (simp add: wp_def vc_Reconcile_fetched [OF f])
  next
    case False
    then show ?thesis
      by (auto simp: vc_Reconcile_def wp_bind wp_call wp_set wp_return vc_fetched_def sparing_def
          split: sum.split option.split)
  qed
  then show ?thesis by (simp add: sparing_def writes_def)
qed

theorem vc_Reconcile_one_write_witness:
  "wp (vc_Reconcile deletion_env test_codec NewHelmClient (\<lambda>pt. []) (''validator'', ''vc''))
     (\<lambda>r s'. length (filter is_api_write (hist s')) \<le> 1) (start deleted_vc)"
  by (rule wp_mono [OF vc_Reconcile_one_write]) (auto simp: deletion_env_ok start_def)

section \<open>Plugins taken out of the specification\<close>

lemma delete_removed_harmless: "emits harmless (delete_removed env c ns names cnd)"
  unfolding delete_removed_def by (auto intro!: emits_intros deletePlugin_harmless)

lemma delete_removed_loop_ran:
  assumes ck: "clock_ok env" and hw: "helm_works env"
  shows "wp (go_for cnds (delete_removed env c ns names))
     (\<lambda>_ s'. \<forall>cnd \<in> set cnds. removed_plugin names cnd \<longrightarrow> ran c ns (hist s) (pc_PluginName cnd) (hist s')) s"
proof (induction cnds arbitrary: s)
  case (Cons cnd cnds)
  have one: "wp (delete_removed env c ns names cnd) (\<lambda>_ s'. removed_plugin names cnd \<longrightarrow>
      ran c ns (hist s) (pc_PluginName cnd) (hist s')) s"
  proof (cases "removed_plugin names cnd")
    case True
    then show ?thesis unfolding delete_removed_def
      by (simp add: wp_bind) (rule wp_mono [OF deletePlugin_ran [OF hw]], simp add: wp_modify)
  qed (simp add: delete_removed_def wp_return)
  have "wp (delete_removed env c ns names cnd) (\<lambda>_ s'. (removed_plugin names cnd \<longrightarrow>
      ran c ns (hist s) (pc_PluginName cnd) (hist s')) \<and> (\<exists>es. hist s' = hist s @ es \<and> list_all harmless es)) s"
    by (rule wp_emits [OF delete_removed_harmless one])
  then show ?case unfolding go_for.simps wp_bind
  proof (rule wp_mono, clarify)
    fix s1 :: "(event, globals, validator_config) gostate" and es
    assume 1: "removed_plugin names cnd \<longrightarrow> ran c ns (hist s) (pc_PluginName cnd) (hist s1)"
      and es: "hist s1 = hist s @ es"
    have "wp (go_for cnds (delete_removed env c ns names)) (\<lambda>_ s'.
       (\<forall>cnd \<in> set cnds. removed_plugin names cnd \<longrightarrow> ran c ns (hist s1) (pc_PluginName cnd) (hist s')) \<and>
       (\<exists>es. hist s' = hist s1 @ es \<and> list_all harmless es)) s1"
      by (rule wp_emits [OF emits_for [OF delete_removed_harmless] Cons.IH])
    then show "wp (go_for cnds (delete_removed env c ns names))
        (\<lambda>_ s'. \<forall>cnd \<in> set (cnd # cnds). removed_plugin names cnd \<longrightarrow>
           ran c ns (hist s) (pc_PluginName cnd) (hist s')) s1"
      by (rule wp_mono) (use 1 es ran_before [of c ns "hist s" es] ran_append [of c ns "hist s" _ "hist s1"] in \<open>auto\<close>)
  qed
qed (simp add: wp_return)

lemma fold_unhash_None: "m k = None \<Longrightarrow> fold (unhash names) cnds m k = None"
  by (induction cnds arbitrary: m) (auto simp: unhash_def)

lemma fold_unhash_removed:
  "cnd \<in> set cnds \<Longrightarrow> removed_plugin names cnd \<Longrightarrow>
     fold (unhash names) cnds m (getPluginHashKey (pc_PluginName cnd)) = None"
  by (induction cnds arbitrary: m) (auto simp: fold_unhash_None unhash_def)

text \<open>C20: 
  A plugin that was deployed and is no longer in the specification is deleted with helm, its
  annotation is removed, and its condition is gone.\<close>
theorem redeployIfNeeded_removes:
  assumes ck: "clock_ok env" and hw: "helm_works env" and m: "vc_annotations (obj s) = Some m"
    and c: "cnd \<in> set (vc_Conditions (obj s))" "pc_Type cnd = HelmChartDeployedCondition" "pc_Status cnd = ConditionTrue"
    and gone: "\<forall>p \<in> set (vcs_Plugins (vc_Spec (obj s))). hc_Name (pr_Chart p) \<noteq> pc_PluginName cnd"
  shows "wp (redeployIfNeeded env cl) (\<lambda>_ s'.
     (\<exists>es f. hist s' = hist s @ es \<and> EvExec (cli_helmPath cl) [''delete'', pc_PluginName cnd, ''--namespace'',
        vc_namespace (obj s), ''--kubeconfig'', f] \<in> set es) \<and>
     amap_get (vc_annotations (obj s')) (getPluginHashKey (pc_PluginName cnd)) = None \<and>
     (\<forall>x \<in> set (vc_Conditions (obj s')). pc_PluginName x \<noteq> pc_PluginName cnd)) s"
proof -
  have rem: "removed_plugin (spec_names (obj s)) cnd"
    using c gone by (auto simp: removed_plugin_def spec_names_def plugin_name_def)
  have "wp (redeployIfNeeded env cl) (\<lambda>_ s'. ran cl (vc_namespace (obj s)) (hist s) (pc_PluginName cnd) (hist s')) s"
    unfolding redeployIfNeeded_split wp_bind wp_obj
  proof (rule wp_mono [OF wp_emits [OF redeploy_loop_harmless redeploy_loop_run [OF ck m]]], clarify)
    fix cs :: "plugin_condition list" and s1 :: "(event, globals, validator_config) gostate" and es
    assume es: "hist s1 = hist s @ es"
    show "wp (go_for (vc_Conditions (obj s)) (delete_removed env cl (vc_namespace (obj s)) (spec_names (obj s))))
        (\<lambda>_. wp (go_modify (\<lambda>vc. vc\<lparr>vc_Conditions := cs\<rparr>))
           (\<lambda>_ s'. ran cl (vc_namespace (obj s)) (hist s) (pc_PluginName cnd) (hist s'))) s1"
      by (rule wp_mono [OF delete_removed_loop_ran [OF ck hw]])
         (use c(1) rem ran_before [of cl _ "hist s" es] es in \<open>auto simp: wp_modify\<close>)
  qed
  then have "wp (redeployIfNeeded env cl) (\<lambda>_ s'.
      ran cl (vc_namespace (obj s)) (hist s) (pc_PluginName cnd) (hist s') \<and>
      (\<exists>cs. list_all2 condition_for (spec_names (obj s)) cs \<and>
        obj s' = (vc_set_annotations (Some (final_hashes (obj s) m)) (obj s))\<lparr>vc_Conditions := cs\<rparr>)) s"
    by (rule wp_conj [OF _ redeployIfNeeded_run [OF ck m]])
  then show ?thesis
  proof (rule wp_mono, intro conjI; (elim conjE exE)?)
    fix s' :: "(event, globals, validator_config) gostate"
    assume "ran cl (vc_namespace (obj s)) (hist s) (pc_PluginName cnd) (hist s')"
    then show "\<exists>es f. hist s' = hist s @ es \<and> EvExec (cli_helmPath cl) [''delete'', pc_PluginName cnd, ''--namespace'',
        vc_namespace (obj s), ''--kubeconfig'', f] \<in> set es"
      by (auto simp: ran_def saw_def list_ex_iff delete_argv_def)
  next
    fix s' :: "(event, globals, validator_config) gostate" and cs
    assume cs: "list_all2 condition_for (spec_names (obj s)) cs"
      and o': "obj s' = (vc_set_annotations (Some (final_hashes (obj s) m)) (obj s))\<lparr>vc_Conditions := cs\<rparr>"
    then show "amap_get (vc_annotations (obj s')) (getPluginHashKey (pc_PluginName cnd)) = None"
      using fold_unhash_removed [OF c(1) rem] by (simp add: final_hashes_def amap_get_def)
    have "set (map pc_PluginName cs) = set (spec_names (obj s))" using cs by (simp add: condition_for_list)
    then have "pc_PluginName cnd \<notin> pc_PluginName ` set cs" using rem by (simp add: removed_plugin_def)
    then show "\<forall>x \<in> set (vc_Conditions (obj s')). pc_PluginName x \<noteq> pc_PluginName cnd"
      by (simp add: o') (metis imageI)
  qed
qed

definition removed_vc :: validator_config where
  "removed_vc = upgraded_vc\<lparr>vc_Spec := (vc_Spec upgraded_vc)\<lparr>vcs_Plugins := []\<rparr>\<rparr>"

theorem redeployIfNeeded_removes_witness:
  "wp (redeployIfNeeded deletion_env NewHelmClient)
     (\<lambda>_ s'. \<exists>f. EvExec ''./helm'' [''delete'', ''aws'', ''--namespace'', ''validator'', ''--kubeconfig'', f] \<in> set (hist s'))
     (start removed_vc)"
  by (rule wp_mono [OF redeployIfNeeded_removes [where m = "[getPluginHashKey ''aws'' \<mapsto> sha256_b64 ''a: 1'']"
        and cnd = "hd (vc_Conditions upgraded_vc)"]])
     (auto simp: deletion_env_ok start_def removed_vc_def upgraded_vc_def NewHelmClient_def test_meta_def vc_namespace_def)

text \<open>
  A plugin whose last upgrade failed is forgotten, not deleted: when it is taken out of the
  specification, its condition is dropped and no helm command runs, although its release may still
  be in the cluster.\<close>
lemma failed_plugin_forgotten:
  assumes "vcs_Plugins (vc_Spec (obj s)) = []" and "\<forall>x \<in> set (vc_Conditions (obj s)). pc_Status x \<noteq> ConditionTrue"
  shows "redeployIfNeeded env c s = (Inr (), s\<lparr>obj := (obj s)\<lparr>vc_Conditions := []\<rparr>\<rparr>)"
proof -
  have "list_all (\<lambda>cnd. delete_removed env c (vc_namespace (obj s)) (spec_names (obj s)) cnd = go_return ())
     (vc_Conditions (obj s))"
    using assms(2) by (auto simp: list_all_iff delete_removed_def removed_plugin_def)
  from go_for_skip [OF this] show ?thesis
    by (simp add: redeployIfNeeded_split assms(1) go_eval)
qed

lemma failed_plugin_forgotten_witness:
  "redeployIfNeeded test_env NewHelmClient (start (removed_vc\<lparr>vc_Conditions :=
       [(hd (vc_Conditions upgraded_vc))\<lparr>pc_Status := ConditionFalse\<rparr>]\<rparr>)) =
     (Inr (), start (removed_vc\<lparr>vc_Conditions := []\<rparr>))"
  using failed_plugin_forgotten [of "start (removed_vc\<lparr>vc_Conditions :=
       [(hd (vc_Conditions upgraded_vc))\<lparr>pc_Status := ConditionFalse\<rparr>]\<rparr>)" test_env NewHelmClient]
  by (simp add: start_def removed_vc_def)

end
