(* ===== verification/Config_Lifecycle.thy ===== *)
theory Config_Lifecycle
  imports VC_Deletion Result_Lifecycle
begin

text \<open>
  The life of a ValidatorConfig in the API server: users create, edit and delete it, the controller
  reconciles it, in any order and with any answers of the environment.  A deletion only marks an
  object that has finalizers, and the object goes with its last finalizer.  The question is whether
  an object for which helm was run can go without the controller's deletion path; the answer depends
  on whether the last write was accepted.
\<close>

section \<open>Steps\<close>

text \<open>
  The stored object, the calls of all its reconciliations, and whether the write of the last one was
  accepted.
\<close>

record config_life =
  cf_Stored :: "validator_config option"
  cf_Calls :: "event list"
  cf_Saved :: bool

definition cf_absent :: config_life where
  "cf_absent = \<lparr>cf_Stored = None, cf_Calls = [], cf_Saved = True\<rparr>"

text \<open>What the API server stores: an object marked as deleted goes with its last finalizer.\<close>

definition settle :: "validator_config \<Rightarrow> validator_config option" where
  "settle vc = (if vc_deleted vc \<and> om_Finalizers (vc_ObjectMeta vc) = [] then None else Some vc)"

fun store_writes :: "validator_config option \<Rightarrow> event list \<Rightarrow> validator_config option" where
  "store_writes st [] = st"
| "store_writes st (EvPatchVC before vc # es) = store_writes (settle vc) es"
| "store_writes st (EvUpdateVC vc # es) = store_writes (settle vc) es"
| "store_writes st (e # es) = store_writes st es"

definition mark_deleted :: "gotime \<Rightarrow> validator_config \<Rightarrow> validator_config" where
  "mark_deleted t vc = vc\<lparr>vc_ObjectMeta := (vc_ObjectMeta vc)\<lparr>om_DeletionTimestamp := Some t\<rparr>\<rparr>"

text \<open>
  A write that ends with an error may have been stored in part: the patch helper sends the metadata,
  the specification and the status in requests of their own.
\<close>

definition partly_stored :: "validator_config \<Rightarrow> validator_config \<Rightarrow> validator_config \<Rightarrow> bool" where
  "partly_stored old new st \<longleftrightarrow> vc_ObjectMeta st \<in> {vc_ObjectMeta old, vc_ObjectMeta new} \<and>
     vc_Spec st \<in> {vc_Spec old, vc_Spec new} \<and> vc_Conditions st \<in> {vc_Conditions old, vc_Conditions new}"

text \<open>A user changes the specification and the annotations, not what the controller keeps.\<close>

definition edited :: "validator_config \<Rightarrow> validator_config \<Rightarrow> bool" where
  "edited vc vc' \<longleftrightarrow> vc_Conditions vc' = vc_Conditions vc \<and>
     om_Finalizers (vc_ObjectMeta vc') = om_Finalizers (vc_ObjectMeta vc) \<and>
     om_DeletionTimestamp (vc_ObjectMeta vc') = om_DeletionTimestamp (vc_ObjectMeta vc)"

inductive cf_step :: "config_life \<Rightarrow> config_life \<Rightarrow> bool" where
  Create:
    "cf_Stored c = None \<Longrightarrow> vc_Conditions vc = [] \<Longrightarrow> \<not> vc_deleted vc \<Longrightarrow>
     cf_step c \<lparr>cf_Stored = Some vc, cf_Calls = [], cf_Saved = True\<rparr>"
| Edit: "cf_Stored c = Some vc \<Longrightarrow> edited vc vc' \<Longrightarrow> cf_step c (c\<lparr>cf_Stored := Some vc'\<rparr>)"
| Delete: "cf_Stored c = Some vc \<Longrightarrow> cf_step c (c\<lparr>cf_Stored := settle (mark_deleted t vc)\<rparr>)"
| Reconcile:
    "cf_Stored c = Some vc \<Longrightarrow> clock_ok env \<Longrightarrow> vc_fetched env req (hist s) vc \<Longrightarrow>
     vc_Reconcile env cd cl sched req s = (Inr (res, None), s') \<Longrightarrow>
     cf_step c \<lparr>cf_Stored = store_writes (Some vc) (new_events s s'),
       cf_Calls = cf_Calls c @ new_events s s', cf_Saved = True\<rparr>"
| Reconcile_Failed:
    "cf_Stored c = Some vc \<Longrightarrow> clock_ok env \<Longrightarrow> vc_fetched env req (hist s) vc \<Longrightarrow>
     vc_Reconcile env cd cl sched req s = (Inr (res, Some e), s') \<Longrightarrow> partly_stored vc (obj s') st \<Longrightarrow>
     cf_step c \<lparr>cf_Stored = settle st, cf_Calls = cf_Calls c @ new_events s s', cf_Saved = False\<rparr>"

inductive cf_reachable :: "config_life \<Rightarrow> bool" where
  Absent: "cf_reachable cf_absent"
| Step: "cf_reachable c \<Longrightarrow> cf_step c c' \<Longrightarrow> cf_reachable c'"

section \<open>The invariant\<close>

text \<open>Helm was run.\<close>

definition ran_helm :: "event list \<Rightarrow> bool" where
  "ran_helm es \<longleftrightarrow> (\<exists>p a. EvExec p a \<in> set es)"

definition protected :: "config_life \<Rightarrow> bool" where
  "protected c \<longleftrightarrow>
     (case cf_Stored c of
        None \<Rightarrow> True
      | Some vc \<Rightarrow> vc_deleted vc \<or>
          (cf_Saved c \<and> (vc_Conditions vc \<noteq> [] \<or> ran_helm (cf_Calls c)) \<longrightarrow> held vc))"

lemma store_writes_harmless: "list_all harmless es \<Longrightarrow> store_writes st (es @ es') = store_writes st es'"
  by (induction es) (auto simp: harmless_def split: event.splits, (case_tac a; simp)+)

section \<open>Every step keeps it\<close>

text \<open>A deletion writes nothing but the object without its finalizer, still marked as deleted.\<close>

definition deletion_write :: "event \<Rightarrow> bool" where
  "deletion_write e \<longleftrightarrow> harmless e \<or> (\<exists>u. e = EvUpdateVC u \<and> vc_deleted u)"

lemma released_deletion_write: "released env h vc err es \<Longrightarrow> vc_deleted vc \<Longrightarrow> list_all deletion_write es"
  by (auto simp: released_def deletion_write_def without_finalizer_def vc_deleted_def vc_set_finalizers_def
      split: if_splits)

lemma deletion_end_writes:
  assumes "deletion_end env cd c vc h r es" and "vc_deleted vc"
  shows "list_all deletion_write es"
proof -
  have "vc_deleted (without_finalizer vc)"
    using assms(2) by (simp add: without_finalizer_def vc_deleted_def vc_set_finalizers_def)
  then show ?thesis
    using deletion_end_events [OF assms(1)] by (auto simp: list_all_iff deletion_write_def)
qed

lemma vc_reconcile_delete_writes:
  assumes ck: "clock_ok env" and d: "vc_deleted (obj s)"
  shows "wp (vc_reconcile_delete env cd c sched req) (\<lambda>r s'. \<exists>es. hist s' = hist s @ es \<and> list_all deletion_write es) s"
proof -
  have get: "deletion_write (EvGetNamespace n)" for n by (simp add: deletion_write_def harmless_def)
  show ?thesis
  proof (cases "e_GetNamespace env (hist s) (fst req)")
    case (Inl e)
    then show ?thesis by (simp add: vc_reconcile_delete_def wp_rules get)
  next
    case (Inr ns)
    show ?thesis
    proof (cases ns)
      case None
      show ?thesis
        by (rule wp_mono [OF delete_alive_run [OF ck Inr [unfolded None]]])
          (use get deletion_end_writes d in auto)
    next
      case (Some t)
      then show ?thesis using Inr get d
        by (auto simp: vc_reconcile_delete_def wp_rules intro!: wp_mono [OF removeFinalizer_released]
            dest: released_deletion_write)
    qed
  qed
qed

definition gone_or_deleted :: "validator_config option \<Rightarrow> bool" where
  "gone_or_deleted st = (case st of None \<Rightarrow> True | Some vc \<Rightarrow> vc_deleted vc)"

lemma gone_or_deleted_simps [simp]:
  "gone_or_deleted None" "gone_or_deleted (Some vc) = vc_deleted vc" "vc_deleted vc \<Longrightarrow> gone_or_deleted (settle vc)"
  by (simp_all add: gone_or_deleted_def settle_def)

lemma store_writes_deleted:
  "list_all deletion_write es \<Longrightarrow> gone_or_deleted st \<Longrightarrow> gone_or_deleted (store_writes st es)"
  by (induction st es rule: store_writes.induct) (auto simp: deletion_write_def harmless_def)

lemma reconcile_deleted:
  assumes "clock_ok env" and f: "vc_fetched env req (hist s) vc" and d: "vc_deleted vc"
    and run: "vc_Reconcile env cd cl sched req s = (Inr r, s')"
  shows "gone_or_deleted (store_writes (Some vc) (new_events s s'))"
proof -
  have "vc_deleted (ensure_annotations vc)"
    using d by (simp add: vc_deleted_def ensure_annotations_def vc_set_annotations_def)
  then obtain es where "hist s' = (hist s @ fetch_vc_events req vc) @ es" "list_all deletion_write es"
    using run vc_reconcile_delete_writes [OF assms(1), of "s\<lparr>hist := hist s @ fetch_vc_events req vc, obj := ensure_annotations vc\<rparr>"
        cd cl sched req] d
    by (auto simp: vc_Reconcile_fetched [OF f] wp_def)
  then have "new_events s s' = fetch_vc_events req vc @ es" "list_all deletion_write (fetch_vc_events req vc @ es)"
    by (simp_all add: new_events_def fetch_vc_events_def deletion_write_def harmless_def)
  then show ?thesis using d by (simp add: store_writes_deleted)
qed

lemma reconcile_deployed:
  assumes "clock_ok env" and f: "vc_fetched env req (hist s) vc" and d: "\<not> vc_deleted vc"
    and run: "vc_Reconcile env cd cl sched req s = (Inr r, s')"
  obtains m where "deployed env vc (ensure_annotations vc) m (hist s @ fetch_vc_events req vc) r s'"
proof -
  let ?s = "s\<lparr>hist := hist s @ fetch_vc_events req vc, obj := ensure_annotations vc\<rparr>"
  obtain m where m: "vc_annotations (obj ?s) = Some m" using ensure_annotations_facts(1) [of vc] by auto
  show thesis
    by (rule that [of m]) (use deploy_run [OF assms(1) m, of cl vc] run d in \<open>simp add: vc_Reconcile_fetched [OF f] wp_def\<close>)
qed

lemma reconcile_live:
  assumes "clock_ok env" and "vc_fetched env req (hist s) vc" and d: "\<not> vc_deleted vc"
    and "vc_Reconcile env cd cl sched req s = (Inr (res, err), s')"
  shows "store_writes (Some vc) (new_events s s') = Some (obj s')" and "\<not> vc_deleted (obj s')" and "held (obj s')"
    and "\<exists>h. err = e_PatchVC env h vc (obj s')"
proof -
  obtain m where dep: "deployed env vc (ensure_annotations vc) m (hist s @ fetch_vc_events req vc) (res, err) s'"
    by (rule reconcile_deployed [OF assms])
  then obtain es cs where h: "hist s' = (hist s @ fetch_vc_events req vc) @ es @ [EvPatchVC vc (obj s')]" "list_all harmless es"
    and o1: "obj s' = ensureFinalizer CleanupFinalizer
          ((vc_set_annotations (Some (final_hashes (ensure_annotations vc) m)) (ensure_annotations vc))\<lparr>vc_Conditions := cs\<rparr>)"
    unfolding deployed_def by blast
  have e: "\<exists>h. err = e_PatchVC env h vc (obj s')" using dep by (auto simp: deployed_def)
  show live: "\<not> vc_deleted (obj s')"
    using d by (simp add: o1 vc_deleted_def ensureFinalizer_def ensure_annotations_def vc_set_annotations_def
        vc_set_finalizers_def Let_def)
  have "new_events s s' = (fetch_vc_events req vc @ es) @ [EvPatchVC vc (obj s')]"
    and "list_all harmless (fetch_vc_events req vc @ es)"
    using h by (simp_all add: new_events_def fetch_vc_events_def harmless_def)
  then show "store_writes (Some vc) (new_events s s') = Some (obj s')"
    using live by (simp only: store_writes_harmless) (simp add: settle_def)
  show "held (obj s')" "\<exists>h. err = e_PatchVC env h vc (obj s')"
    using o1 ensureFinalizer_facts(1) e by (simp_all add: held_def)
qed

lemma cf_step_protected: "cf_step c c' \<Longrightarrow> protected c \<Longrightarrow> protected c'"
proof (induction rule: cf_step.induct)
  case (Create c vc)
  then show ?case by (simp add: protected_def ran_helm_def)
next
  case (Edit c vc vc')
  then show ?case by (auto simp: protected_def edited_def vc_deleted_def held_def)
next
  case (Delete c vc t)
  then show ?case by (simp add: protected_def settle_def mark_deleted_def vc_deleted_def)
next
  case (Reconcile c vc env req s cd cl sched res s')
  show ?case
  proof (cases "vc_deleted vc")
    case True
    then show ?thesis
      using reconcile_deleted [OF Reconcile.hyps(2,3) True Reconcile.hyps(4)]
      by (auto simp: protected_def gone_or_deleted_def split: option.splits)
  next
    case False
    then show ?thesis
      using reconcile_live [OF Reconcile.hyps(2,3) False Reconcile.hyps(4)] by (auto simp: protected_def)
  qed
next
  case (Reconcile_Failed c vc env req s cd cl sched res e s' st)
  then show ?case by (simp add: protected_def split: option.split)
qed

lemma cf_reachable_protected: "cf_reachable c \<Longrightarrow> protected c"
proof (induction rule: cf_reachable.induct)
  case Absent
  show ?case by (simp add: protected_def cf_absent_def)
next
  case (Step c c')
  then show ?case by (blast intro: cf_step_protected)
qed

text \<open>A live object that holds the finalizer does not vanish in one step.\<close>

lemma held_stays:
  assumes "cf_step c c'" and "cf_Stored c = Some vc" and "\<not> vc_deleted vc" and "held vc"
  shows "cf_Stored c' \<noteq> None"
  using assms(1)
proof cases
  case (Reconcile vc0 env req s cd cl sched res s')
  then show ?thesis using assms reconcile_live [of env req s vc cd cl sched res None s'] by auto
next
  case (Reconcile_Failed vc0 env req s cd cl sched res e s' st)
  then have "\<not> vc_deleted (obj s')"
    using assms(2,3) reconcile_live(2) [of env req s vc cd cl sched res "Some e" s'] by auto
  then have "\<not> vc_deleted st" using Reconcile_Failed assms(2,3) by (auto simp: partly_stored_def vc_deleted_def)
  then show ?thesis using Reconcile_Failed by (simp add: settle_def)
qed (use assms in \<open>auto simp: settle_def mark_deleted_def held_def\<close>)

text \<open>C4: 
  A ValidatorConfig is guarded while its plugins may be installed.  In every history of creations,
  edits, deletions and reconciliations, some of whose writes fail or are stored in part, a live object
  that reports a plugin or for which helm was run, and whose last reconciliation could store what it
  wrote, holds the cleanup finalizer, and no single step makes it vanish: it can go only after it has
  been marked as deleted, through the controller's deletion path.\<close>
theorem config_guarded:
  assumes "cf_reachable c" and "cf_Stored c = Some vc" and "\<not> vc_deleted vc" and "cf_Saved c"
    and "vc_Conditions vc \<noteq> [] \<or> ran_helm (cf_Calls c)"
  shows "CleanupFinalizer \<in> set (om_Finalizers (vc_ObjectMeta vc)) \<and> (\<forall>c'. cf_step c c' \<longrightarrow> cf_Stored c' \<noteq> None)"
proof -
  have "held vc" using cf_reachable_protected [OF assms(1)] assms(2-5) by (auto simp: protected_def)
  then show ?thesis using held_stays [OF _ assms(2,3)] by (simp add: held_def)
qed

text \<open>Two plugins are installed in a cluster where everything works.\<close>

lemma installed_reachable:
  obtains c vc where "cf_reachable c" "cf_Stored c = Some vc" "\<not> vc_deleted vc" "cf_Saved c"
    "map pc_PluginName (vc_Conditions vc) = [''aws'', ''oci'']"
proof -
  let ?run = "vc_Reconcile works_env test_codec NewHelmClient (\<lambda>pt. []) (''validator'', ''vc'') (start two_plugins_vc)"
  have f: "vc_fetched works_env (''validator'', ''vc'') (hist (start two_plugins_vc)) two_plugins_vc"
    by (rule works_env_ok(4))
  obtain res err s' where run: "?run = (Inr (res, err), s')"
    and names: "map pc_PluginName (vc_Conditions (obj s')) = spec_names two_plugins_vc"
    using wp_returns [OF vc_Reconcile_works [OF works_env_ok(1-3) works_env_ok(6) f works_env_ok(5),
        where cd = test_codec and c = NewHelmClient and sched = "\<lambda>pt. []"]] by auto
  let ?c0 = "\<lparr>cf_Stored = Some two_plugins_vc, cf_Calls = [], cf_Saved = True\<rparr>"
  have "cf_step cf_absent ?c0"
    using works_env_ok(5) by (intro cf_step.Create) (simp_all add: cf_absent_def two_plugins_vc_def test_vc_def)
  moreover have err: "err = None"
    using reconcile_live(4) [OF works_env_ok(1) f works_env_ok(5) run] works_env_ok(8) by auto
  then have "cf_step ?c0 \<lparr>cf_Stored = store_writes (Some two_plugins_vc) (new_events (start two_plugins_vc) s'),
      cf_Calls = [] @ new_events (start two_plugins_vc) s', cf_Saved = True\<rparr>" (is "cf_step _ ?c1")
    using cf_step.Reconcile [OF _ works_env_ok(1) f, of ?c0] run by simp
  ultimately show thesis
    using reconcile_live [OF works_env_ok(1) f works_env_ok(5) run] names
      that [of ?c1 "obj s'"] cf_reachable.Absent
    by (auto simp: spec_names_def two_plugins_vc_def plugin_name_def intro: cf_reachable.Step)
qed

theorem config_guarded_witness:
  "\<exists>c vc. cf_reachable c \<and> cf_Stored c = Some vc \<and> length (vc_Conditions vc) = 2 \<and>
     CleanupFinalizer \<in> set (om_Finalizers (vc_ObjectMeta vc))"
proof -
  obtain c vc where r: "cf_reachable c" "cf_Stored c = Some vc" "\<not> vc_deleted vc" "cf_Saved c"
    "map pc_PluginName (vc_Conditions vc) = [''aws'', ''oci'']" by (rule installed_reachable)
  then have "vc_Conditions vc \<noteq> []" "length (vc_Conditions vc) = 2"
    by (auto dest: arg_cong [where f = length])
  with config_guarded [OF r(1-4)] r show ?thesis by blast
qed

end
