(* ===== verification/Sink_Delivery.thy ===== *)
theory Sink_Delivery
  imports VR_Controller
begin

text \<open>
  The good case of an emission: when the sink is configured completely and its service answers, a due
  result reaches it.  \<open>working_sink\<close> adds to the contract of a sink what a service that works and an
  accepted configuration give; Slack and Alertmanager are instances, and \<open>NewSink\<close> picks one of them.
\<close>

section \<open>Sinks that work\<close>

locale working_sink = sink_iface ready configure emit
  for ready :: "'k \<Rightarrow> bool" and configure :: "sink_settings \<Rightarrow> ('o, goerror option \<times> 'k) act"
    and emit :: "'k \<Rightarrow> validation_result \<Rightarrow> ('o, goerror option) act" +
  fixes accepts :: "sink_settings \<Rightarrow> bool"
    and set_up :: "sink_settings \<Rightarrow> 'k \<Rightarrow> bool"
    and message :: "sink_settings \<Rightarrow> validation_result \<Rightarrow> event \<Rightarrow> bool"
  assumes configure_works: "accepts config \<Longrightarrow> wp (configure config) (\<lambda>(err, k) s'. err = None \<and> set_up config k) s"
    and emit_works: "set_up config k \<Longrightarrow>
      wp (emit k r) (\<lambda>err s'. err = None \<and> saw (message config r) (hist s) (hist s')) s"
begin

lemma deliver_works:
  "accepts config \<Longrightarrow> wp (deliver config r) (\<lambda>err s'. err = None \<and> saw (message config r) (hist s) (hist s')) s"
  unfolding deliver_def
  by (rule wp_saw_then [OF configure_local configure_works]) (auto intro: emit_works)

end

text \<open>The services behind the sinks accept what they are sent.\<close>

definition services_work :: "env \<Rightarrow> bool" where
  "services_work env \<longleftrightarrow> (\<forall>h t. e_SlackAuthTest env h t = None) \<and> (\<forall>h t ch bs. e_SlackPost env h t ch bs = None) \<and>
     (\<forall>u. e_NewRequest env u = None) \<and> (\<forall>h cl rq. e_HTTPDo env h cl rq = Inr 200)"

text \<open>The Slack message of a result, sent with the token and to the channel of the configuration.\<close>

definition slack_message :: "sink_settings \<Rightarrow> validation_result \<Rightarrow> event \<Rightarrow> bool" where
  "slack_message config r e \<longleftrightarrow> (\<exists>cl t ch. config ''apiToken'' = Some t \<and> config ''channelId'' = Some ch \<and>
     e = EvSlackPostMessage cl t ch (buildSlackBlocks r))"

interpretation slack_works: working_sink ss_client "slack_Configure zero_slack" "slack_Emit env"
  "\<lambda>config. services_work env \<and> config ''apiToken'' \<noteq> None \<and> config ''channelId'' \<noteq> None"
  "\<lambda>config k. services_work env \<and> ss_client k \<and> config ''apiToken'' = Some (ss_apiToken k) \<and>
     config ''channelId'' = Some (ss_channelID k)"
  slack_message
  by unfold_locales
    (auto simp: slack_Configure_def slack_Emit_def wp_rules services_work_def saw_def slack_message_def)

text \<open>The request with one alert per condition, to the endpoint of the configuration.\<close>

definition alert_message :: "env \<Rightarrow> sink_settings \<Rightarrow> validation_result \<Rightarrow> event \<Rightarrow> bool" where
  "alert_message env config r e \<longleftrightarrow> (\<exists>cl rq. e = EvHTTPDo cl rq \<and> endpoint_setting env config = Inr (rq_URL rq) \<and>
     rq_Body rq = map (\<lambda>i. alert_of env r i (vr_conds r ! i)) [0..<length (vr_conds r)])"

interpretation alertmanager_works: working_sink am_client
  "alertmanager_Configure env zero_alertmanager" "alertmanager_Emit env"
  "\<lambda>config. services_work env \<and> am_config_ok env config"
  "\<lambda>config k. services_work env \<and> am_client k \<and> endpoint_setting env config = Inr (am_endpoint k)"
  "alert_message env"
  by unfold_locales
    (auto simp: am_config_ok_def alertmanager_Configure_def ca_pool_def alertmanager_Emit_def alert_request_def
      alerts_from_map wp_rules services_work_def saw_def alert_message_def Let_def split: sum.splits option.splits)

text \<open>What the two kinds of sink accept and send.\<close>

definition sink_accepts :: "env \<Rightarrow> string \<Rightarrow> sink_settings \<Rightarrow> bool" where
  "sink_accepts env t config \<longleftrightarrow> services_work env \<and>
     (if t = ''alertmanager'' then am_config_ok env config
      else config ''apiToken'' \<noteq> None \<and> config ''channelId'' \<noteq> None)"

definition sink_message :: "env \<Rightarrow> string \<Rightarrow> sink_settings \<Rightarrow> validation_result \<Rightarrow> event \<Rightarrow> bool" where
  "sink_message env t = (if t = ''alertmanager'' then alert_message env else slack_message)"

definition sink_set_up :: "env \<Rightarrow> string \<Rightarrow> sink_settings \<Rightarrow> sink \<Rightarrow> bool" where
  "sink_set_up env t config k \<longleftrightarrow> services_work env \<and>
     (case k of
        Alertmanager a \<Rightarrow> t = ''alertmanager'' \<and> am_client a \<and> endpoint_setting env config = Inr (am_endpoint a)
      | Slack s \<Rightarrow> t \<noteq> ''alertmanager'' \<and> ss_client s \<and> config ''apiToken'' = Some (ss_apiToken s) \<and>
          config ''channelId'' = Some (ss_channelID s))"

interpretation any_sink_works: working_sink sink_ready "sink_Configure env (NewSink t)" "sink_Emit env"
  "sink_accepts env t" "sink_set_up env t" "sink_message env t"
proof
  fix config and s :: "(event, globals, 'a) gostate"
  assume "sink_accepts env t config"
  then show "wp (sink_Configure env (NewSink t) config) (\<lambda>(err, k) s'. err = None \<and> sink_set_up env t config k) s"
    using alertmanager_works.configure_works [where env = env and config = config and s = s]
      slack_works.configure_works [where env = env and config = config and s = s]
    by (auto simp: sink_accepts_def sink_Configure_def NewSink_def SinkTypeAlertmanager_def wp_bind sink_set_up_def
        wp_rules elim!: wp_mono)
next
  fix config k r and s :: "(event, globals, 'a) gostate"
  assume "sink_set_up env t config k"
  then show "wp (sink_Emit env k r) (\<lambda>err s'. err = None \<and> saw (sink_message env t config r) (hist s) (hist s')) s"
    using alertmanager_works.emit_works [where env = env and config = config and r = r and s = s]
      slack_works.emit_works [where env = env and config = config and r = r and s = s]
    by (cases k) (simp_all add: sink_set_up_def sink_Emit_def sink_message_def)
qed

section \<open>A due result is delivered\<close>

text \<open>The settings a reconciliation hands to the sink: the data of its secret, if it names one.\<close>

definition settings_for :: "env \<Rightarrow> string \<Rightarrow> sink_config \<Rightarrow> sink_settings \<Rightarrow> bool" where
  "settings_for env ns sk config \<longleftrightarrow>
     (if sk_SecretName sk = [] then config = Map.empty
      else \<forall>h. \<exists>sec. e_GetSecret env h (ns, sk_SecretName sk) = Inr sec \<and> sec_Data sec = config)"

lemma emitToSink_works:
  assumes "settings_for env ns sk config" and "sink_accepts env (sk_Type sk) config"
  shows "wp (emitToSink env ns sk vr) (\<lambda>r s'. r = (SinkEmitSucceeded, None) \<and>
     saw (sink_message env (sk_Type sk) config vr) (hist s) (hist s')) s"
  unfolding emitToSink_deliver
proof (rule wp_saw_then [where T = "\<lambda>_. True" and R = "\<lambda>c _. c = Inr config"], goal_cases)
  case 1
  show ?case by (auto simp: get_secret_def intro!: emits_intros)
next
  case 2
  show ?case using assms(1)
    by (auto simp: settings_for_def get_secret_def wp_rules) (metis map_sum.simps(2))
next
  case (3 a s1)
  then show ?case using any_sink_works.deliver_works [OF assms(2), of vr s1]
    by (auto simp: wp_rules elim!: wp_mono)
qed

lemma emit_step_works:
  assumes "should_emit vc vr" and "vcs_Sink (vc_Spec vc) = Some sk"
    and "settings_for env ns sk config" and "sink_accepts env (sk_Type sk) config"
  shows "wp (vr_emit_step env ns vc vr (vr_Hash vr) c) (\<lambda>c' s'. c' = emitted_condition None c \<and>
     saw (sink_message env (sk_Type sk) config vr) (hist s) (hist s')) s"
  using assms(1,2) unfolding vr_emit_step_def should_emit_def
  by (auto simp: emitted_condition_def wp_rules Let_def intro!: wp_mono [OF emitToSink_works [OF assms(3,4)]])

lemma body_delivers:
  assumes obj: "obj s = vr" and idx: "idx = fst (getConditionByType (st_Conditions (vr_Status vr)) SinkEmission)"
    and "should_emit vc vr" and "vcs_Sink (vc_Spec vc) = Some sk"
    and "settings_for env ns sk config" and "sink_accepts env (sk_Type sk) config"
  shows "wp (vr_reconcile_body env ns vc (vr_Hash vr) idx c)
     (\<lambda>r s'. obj s' = sink_written vr (emitted_condition None c) \<and>
        saw (sink_message env (sk_Type sk) config vr) (hist s) (hist s')) s"
proof -
  have step: "wp (vr_emit_step env ns vc vr (vr_Hash vr) c) (\<lambda>c' s'. (c' = emitted_condition None c \<and> obj s' = vr) \<and>
     saw (sink_message env (sk_Type sk) config vr) (hist s) (hist s')) s"
    using wp_keeps [OF emit_step_obj emit_step_works [OF assms(3-6)]]
    by (rule wp_mono) (auto simp: obj)
  show ?thesis unfolding vr_reconcile_body_def wp_bind [of go_obj] wp_obj obj
    by (rule wp_saw_first [OF step, where T = "\<lambda>_. True"])
      (use set_hash_annotation_same [of vr] in
        \<open>auto simp: wp_rules idx sink_written_def set_hash_annotation_def split: if_splits intro!: emits_intros\<close>)
qed

lemma patched_delivers:
  assumes obj: "obj s = vr" and emit: "should_emit vc vr" "vcs_Sink (vc_Spec vc) = Some sk"
    and works: "settings_for env ns sk config" "sink_accepts env (sk_Type sk) config"
  shows "wp (vr_reconcile_patched env ns vc vr)
     (\<lambda>r s'. (\<exists>c. cc_Type c = SinkEmission \<and> cc_Reason c = SinkEmitSucceeded \<and> obj s' = sink_written vr c) \<and>
        saw (sink_message env (sk_Type sk) config vr) (hist s) (hist s')) s"
proof -
  obtain idx c where ic: "getConditionByType (st_Conditions (vr_Status vr)) SinkEmission = (idx, c)"
    by fastforce
  have typed: "cc_Type c = SinkEmission" if "idx \<noteq> -1"
    using getConditionByType_snd [of "st_Conditions (vr_Status vr)" SinkEmission] ic that by simp
  show ?thesis unfolding vr_reconcile_patched_def Let_def ic prod.case
  proof (rule wp_saw_then [where T = "\<lambda>_. True" and R = "\<lambda>c s'. cc_Type c = SinkEmission \<and> obj s' = vr"], goal_cases)
    case 1
    show ?case by (auto simp: time_Now_def intro!: emits_intros)
  next
    case 2
    show ?case by (auto simp: time_Now_def wp_rules obj typed)
  next
    case (3 c0 s1)
    then show ?case unfolding wp_defer
      by (intro wp_mono [OF body_delivers [OF _ _ emit works]])
        (auto simp: ic patchValidationResult_def wp_rules emitted_condition_def split: option.split
          intro: saw_after intro!: exI [of _ "c0\<lparr>cc_Reason := SinkEmitSucceeded\<rparr>"])
  qed
qed

text \<open>C2: 
  A due result arrives.  If the result is complete, a sink is configured, the number of conditions is
  the expected one and the content is new, and the sink's settings are accepted and its service
  works, then the reconciliation sends the sink the message for this result: the Slack blocks of
  the result to the configured channel, or one alert per condition to the configured endpoint; and
  the stored condition says that the emission succeeded.\<close>
theorem vr_Reconcile_delivers:
  assumes "fetched env ns req (hist s) vc vr" and "due_for vc vr" and "vcs_Sink (vc_Spec vc) = Some sk"
    and "settings_for env ns sk config" and "sink_accepts env (sk_Type sk) config"
  shows "wp (vr_Reconcile env ns req) (\<lambda>r s'.
     (\<exists>es e. hist s' = hist s @ es \<and> e \<in> set es \<and> sink_message env (sk_Type sk) config vr e) \<and>
     (\<exists>c. keyed_lookup cc_Type (st_Conditions (vr_Status (obj s'))) SinkEmission = Some c \<and>
        cc_Reason c = SinkEmitSucceeded)) s"
proof -
  have due: "should_emit vc vr" using assms(2) by (simp add: should_emit_due)
  have "wp (vr_reconcile_patched env ns vc vr) (\<lambda>r s'.
     (\<exists>es e. hist s' = hist s @ es \<and> e \<in> set es \<and> sink_message env (sk_Type sk) config vr e) \<and>
     (\<exists>c. keyed_lookup cc_Type (st_Conditions (vr_Status (obj s'))) SinkEmission = Some c \<and>
        cc_Reason c = SinkEmitSucceeded)) (s\<lparr>obj := vr, hist := hist s @ fetch_events ns req vr\<rparr>)"
    by (rule wp_mono [OF patched_delivers [OF _ due assms(3-5)]])
      (auto simp: sink_written_lookup saw_def list_ex_iff)
  then show ?thesis
    using assms(1) by (simp add: vr_Reconcile_def wp_rules fetched_def fetch_events_def vc_key_def vr_key_def)
qed

theorem vr_Reconcile_delivers_witness:
  "\<exists>s'. snd (vr_Reconcile sink_env ''validator'' (''validator'', ''vr'') (start test_vr)) = s' \<and>
     (\<exists>cl. EvSlackPostMessage cl ''t'' ''c'' (buildSlackBlocks test_vr) \<in> set (hist s'))"
proof -
  have d: "due_for sink_vc test_vr" using sink_vc_should_emit by (simp add: should_emit_due)
  have k: "vcs_Sink (vc_Spec sink_vc) = Some \<lparr>sk_Type = ''slack'', sk_SecretName = ''s''\<rparr>"
    by (simp add: sink_vc_def)
  have c: "settings_for sink_env ''validator'' \<lparr>sk_Type = ''slack'', sk_SecretName = ''s''\<rparr>
      [''apiToken'' \<mapsto> ''t'', ''channelId'' \<mapsto> ''c'']"
    "sink_accepts sink_env (sk_Type \<lparr>sk_Type = ''slack'', sk_SecretName = ''s''\<rparr>)
      [''apiToken'' \<mapsto> ''t'', ''channelId'' \<mapsto> ''c'']"
    by (simp_all add: settings_for_def sink_accepts_def services_work_def sink_env_def test_env_def)
  show ?thesis
    using wp_returns [OF vr_Reconcile_delivers [where s = "start test_vr" and req = "(''validator'', ''vr'')",
        OF sink_env_fetched d k c]]
    by (auto simp: sink_message_def slack_message_def start_def)
qed

end
