(* ===== verification/Cluster.thy ===== *)
theory Cluster
  imports Config_Lifecycle
begin

text \<open>
  The two controllers and the plugins on one API server: the ValidatorConfig, every ValidationResult,
  and the calls of each reconciliation of a result.  The controllers share the stored ValidatorConfig:
  the one writes it, the other reads the sink from it.  A step of the cluster is a step of the
  ValidatorConfig's life, a plugin's step on one result, or a reconciliation of one result against the
  ValidatorConfig that is stored at that time.  The lemmas show that the life of each object in the
  cluster is one of \<^theory_text>\<open>Config_Lifecycle\<close> and \<^theory_text>\<open>Result_Lifecycle\<close>, and what reaches a sink.
\<close>

section \<open>Steps\<close>

record reconciliation =
  rc_Config :: "validator_config option"
  rc_Result :: "validation_result option"
  rc_Events :: "event list"

record cluster =
  cl_Config :: config_life
  cl_Results :: "string \<Rightarrow> lifecycle"
  cl_Log :: "reconciliation list"

definition lc_absent :: lifecycle where
  "lc_absent = \<lparr>lc_Stored = None, lc_Attempts = []\<rparr>"

definition empty_cluster :: cluster where
  "empty_cluster = \<lparr>cl_Config = cf_absent, cl_Results = (\<lambda>n. lc_absent), cl_Log = []\<rparr>"

text \<open>A step that is no reconciliation: a plugin creates or updates the result, or it is deleted.\<close>

definition plugin_step :: "unicode_tables \<Rightarrow> lifecycle \<Rightarrow> lifecycle \<Rightarrow> bool" where
  "plugin_step ut l l' \<longleftrightarrow> lc_step ut l l' \<and> (lc_Attempts l' = lc_Attempts l \<or> l' = lc_absent)"

text \<open>The environment of a reconciliation answers the reads from what is stored.\<close>

definition reads ::
  "env \<Rightarrow> string \<Rightarrow> nsname \<Rightarrow> event list \<Rightarrow> validator_config option \<Rightarrow> validation_result option \<Rightarrow> bool" where
  "reads env ns req h vc vr \<longleftrightarrow>
     (\<forall>x. e_GetVC env h (vc_key ns) = Inr x \<longrightarrow> vc = Some x) \<and>
     (\<forall>x. e_GetVR env (h @ [EvGetVC (vc_key ns)]) req = Inr x \<longrightarrow> vr = Some x)"

definition reconciled :: "lifecycle \<Rightarrow> validation_result \<Rightarrow> validation_result option \<Rightarrow> event list \<Rightarrow> lifecycle" where
  "reconciled l vr written es =
     \<lparr>lc_Stored = Some (case written of None \<Rightarrow> vr | Some v \<Rightarrow> v),
      lc_Attempts = lc_Attempts l @ [\<lparr>at_Result = vr, at_Sent = \<not> no_sink es, at_Recorded = (written \<noteq> None)\<rparr>]\<rparr>"

inductive cluster_step :: "unicode_tables \<Rightarrow> cluster \<Rightarrow> cluster \<Rightarrow> bool" for ut where
  Config_Step: "cf_step (cl_Config c) d \<Longrightarrow> cluster_step ut c (c\<lparr>cl_Config := d\<rparr>)"
| Plugin_Step:
    "plugin_step ut (cl_Results c n) l \<Longrightarrow> cluster_step ut c (c\<lparr>cl_Results := (cl_Results c)(n := l)\<rparr>)"
| Result_Reconcile:
    "reads env ns req (hist s) (cf_Stored (cl_Config c)) (lc_Stored (cl_Results c n)) \<Longrightarrow>
     vr_Reconcile env ns req s = (Inr (res, err), s') \<Longrightarrow>
     cluster_step ut c
       (c\<lparr>cl_Results := (if \<exists>vc vr. fetched env ns req (hist s) vc vr
            then (cl_Results c)(n := reconciled (cl_Results c n) (the (lc_Stored (cl_Results c n)))
              (if err = None then Some (obj s') else None) (new_events s s'))
            else cl_Results c),
          cl_Log := cl_Log c @ [\<lparr>rc_Config = cf_Stored (cl_Config c), rc_Result = lc_Stored (cl_Results c n),
            rc_Events = new_events s s'\<rparr>]\<rparr>)"

inductive cluster_reachable :: "unicode_tables \<Rightarrow> cluster \<Rightarrow> bool" for ut where
  Empty: "cluster_reachable ut empty_cluster"
| Step: "cluster_reachable ut c \<Longrightarrow> cluster_step ut c c' \<Longrightarrow> cluster_reachable ut c'"

section \<open>Which service a sink talks to\<close>

definition service_of :: "string \<Rightarrow> event \<Rightarrow> bool" where
  "service_of t e \<longleftrightarrow>
     (case e of
        EvHTTPDo cl rq \<Rightarrow> t = ''alertmanager''
      | EvSlackAuthTest cl tk \<Rightarrow> t \<noteq> ''alertmanager''
      | EvSlackPostMessage cl tk ch bs \<Rightarrow> t \<noteq> ''alertmanager''
      | _ \<Rightarrow> True)"

lemma alertmanager_service:
  "emits (service_of ''alertmanager'') (alertmanager_Configure env a config)"
  "emits (service_of ''alertmanager'') (alertmanager_Emit env a vr)"
  by (auto simp: alertmanager_Configure_def alertmanager_Emit_def ca_pool_def service_of_def Let_def
      intro!: emits_intros)

lemma slack_service:
  "t \<noteq> ''alertmanager'' \<Longrightarrow> emits (service_of t) (slack_Configure b config)"
  "t \<noteq> ''alertmanager'' \<Longrightarrow> emits (service_of t) (slack_Emit env b vr)"
  by (auto simp: slack_Configure_def slack_Emit_def service_of_def intro!: emits_intros)

lemma go_bind_pair: "go_bind (case a of (x, y) \<Rightarrow> go_return (h x y)) f = (case a of (x, y) \<Rightarrow> f (h x y))"
  by (cases a) simp

lemma emitToSink_service: "emits (service_of (sk_Type sk)) (emitToSink env ns sk vr)"
proof (cases "sk_Type sk = ''alertmanager''")
  case True
  then have "NewSink (sk_Type sk) = Alertmanager zero_alertmanager" by (simp add: NewSink_def SinkTypeAlertmanager_def)
  then show ?thesis
    by (auto simp: emitToSink_def Let_def sink_Configure_def sink_Emit_def get_secret_def service_of_def True
        go_bind_assoc go_bind_pair intro!: emits_intros alertmanager_service)
next
  case False
  then have "NewSink (sk_Type sk) = Slack zero_slack" by (simp add: NewSink_def SinkTypeAlertmanager_def)
  then show ?thesis
    by (auto simp: emitToSink_def Let_def sink_Configure_def sink_Emit_def get_secret_def service_of_def [of _ "EvGetSecret _"]
        go_bind_assoc go_bind_pair intro!: emits_intros slack_service [OF False])
qed

text \<open>The services a reconciliation against \<open>vc\<close> may call.\<close>

definition config_service :: "validator_config \<Rightarrow> event \<Rightarrow> bool" where
  "config_service vc e \<longleftrightarrow> (\<forall>sk. vcs_Sink (vc_Spec vc) = Some sk \<longrightarrow> service_of (sk_Type sk) e)"

lemma patched_service: "emits (config_service vc) (vr_reconcile_patched env ns vc vr)"
proof -
  have "emits (config_service vc) (vr_emit_step env ns vc vr' h c)" for vr' h c
    by (auto simp: vr_emit_step_def Let_def config_service_def
        intro!: emits_intros emits_mono [OF emitToSink_service] split: option.split)
  then show ?thesis
    by (auto simp: vr_reconcile_patched_def vr_reconcile_body_def patchValidationResult_def time_Now_def Let_def
        config_service_def [of _ EvNow] config_service_def [of _ "EvPatchVR _ _ _"] service_of_def
        intro!: emits_intros)
qed

lemma reconcile_services:
  assumes f: "fetched env ns req (hist s) vc vr" and run: "vr_Reconcile env ns req s = (Inr r, s')"
  shows "list_all (config_service vc) (new_events s s')"
proof -
  let ?s = "s\<lparr>obj := vr, hist := hist s @ fetch_events ns req vr\<rparr>"
  have "vr_Reconcile env ns req s = vr_reconcile_patched env ns vc vr ?s"
    using f by (simp add: vr_Reconcile_def go_eval fetched_def fetch_events_def vc_key_def vr_key_def)
  with run obtain es where "hist s' = hist s @ fetch_events ns req vr @ es" "list_all (config_service vc) es"
    using emitsD [OF patched_service, of env ns vc vr ?s] by fastforce
  then show ?thesis
    by (simp add: new_events_def fetch_events_def config_service_def service_of_def)
qed

section \<open>The lives of the objects\<close>

lemma reconciled_step:
  assumes "lc_Stored l = Some vr" and "fetched env ns req (hist s) vc vr"
    and "vr_Reconcile env ns req s = (Inr (res, err), s')"
  shows "lc_step ut l (reconciled l vr (if err = None then Some (obj s') else None) (new_events s s'))"
  using lc_step.Reconciled [OF assms, of ut] by (cases err) (simp_all add: reconciled_def)

lemma fetched_reads:
  "fetched env ns req h vc vr \<Longrightarrow> reads env ns req h vc' vr' \<Longrightarrow> vc' = Some vc \<and> vr' = Some vr"
  by (auto simp: fetched_def reads_def)

definition cluster_ok :: "unicode_tables \<Rightarrow> cluster \<Rightarrow> bool" where
  "cluster_ok ut c \<longleftrightarrow> cf_reachable (cl_Config c) \<and> (\<forall>n. lc_reachable ut (cl_Results c n)) \<and>
     list_all (\<lambda>m. no_sink (rc_Events m) \<or>
       (\<exists>vc vr sk. rc_Config m = Some vc \<and> rc_Result m = Some vr \<and> vcs_Sink (vc_Spec vc) = Some sk \<and>
          due_for vc vr \<and> sound_result vr \<and> list_all (service_of (sk_Type sk)) (rc_Events m))) (cl_Log c)"

lemma cluster_step_ok: "cluster_step ut c c' \<Longrightarrow> cluster_ok ut c \<Longrightarrow> cluster_ok ut c'"
proof (induction rule: cluster_step.induct)
  case (Config_Step c d)
  then show ?case by (auto simp: cluster_ok_def intro: cf_reachable.Step)
next
  case (Plugin_Step c n l)
  then show ?case by (auto simp: cluster_ok_def plugin_step_def intro: lc_reachable.Step)
next
  case (Result_Reconcile env ns req s c n res err s')
  let ?l = "cl_Results c n" and ?es = "new_events s s'"
  note ok = Result_Reconcile.prems [unfolded cluster_ok_def]
  show ?case
  proof (cases "\<exists>vc vr. fetched env ns req (hist s) vc vr")
    case True
    then obtain vc vr where f: "fetched env ns req (hist s) vc vr" by blast
    then have stored: "cf_Stored (cl_Config c) = Some vc" "lc_Stored ?l = Some vr"
      using fetched_reads [OF f Result_Reconcile.hyps(1)] by simp_all
    have l: "lc_reachable ut (reconciled ?l vr (if err = None then Some (obj s') else None) ?es)"
      using ok reconciled_step [OF stored(2) f Result_Reconcile.hyps(2), of ut] by (blast intro: lc_reachable.Step)
    have sound: "sound_result vr" using lc_reachable_inv [of ut ?l] ok stored(2) by (auto simp: lc_inv_def)
    have "no_sink ?es \<or> (\<exists>sk. vcs_Sink (vc_Spec vc) = Some sk \<and> due_for vc vr \<and> list_all (service_of (sk_Type sk)) ?es)"
    proof (cases "no_sink ?es")
      case False
      then have due: "due_for vc vr"
        using reconcile_end(3) [OF f Result_Reconcile.hyps(2)] by (simp add: should_emit_due)
      then obtain sk where "vcs_Sink (vc_Spec vc) = Some sk" by (auto simp: due_for_def)
      then show ?thesis using due reconcile_services [OF f Result_Reconcile.hyps(2)]
        by (auto simp: config_service_def list_all_iff)
    qed simp
    then show ?thesis using ok l sound stored True by (auto simp: cluster_ok_def)
  next
    case False
    then have "no_sink ?es"
      using reconcile_cases [of env ns req s] Result_Reconcile.hyps(2)
      by (auto simp: wp_def new_events_def no_sink_def list_all_iff)
    then show ?thesis using ok False by (simp add: cluster_ok_def)
  qed
qed

lemma cluster_reachable_ok: "cluster_reachable ut c \<Longrightarrow> cluster_ok ut c"
proof (induction rule: cluster_reachable.induct)
  case Empty
  show ?case
    by (simp add: cluster_ok_def empty_cluster_def lc_absent_def cf_reachable.Absent lc_reachable.Absent)
next
  case (Step c c')
  then show ?case by (blast intro: cluster_step_ok)
qed

section \<open>Properties\<close>

text \<open>C5:
  The cluster as a whole.  In every interleaving of the plugins, the users and the two controllers, the
  life of the ValidatorConfig and the life of every result are among those of the single objects, so
  that what holds there holds here.  A reconciliation calls a sink only when a ValidatorConfig with a
  sink is stored at that time, for the stored result, which is due and sound, and then only the
  service of that sink: with no ValidatorConfig, or none with a sink, nothing is sent.\<close>
theorem cluster_refines_lives:
  assumes "cluster_reachable ut c"
  shows "cf_reachable (cl_Config c) \<and> (\<forall>n. lc_reachable ut (cl_Results c n)) \<and>
    (\<forall>m \<in> set (cl_Log c). no_sink (rc_Events m) \<or>
       (\<exists>vc vr sk. rc_Config m = Some vc \<and> rc_Result m = Some vr \<and> vcs_Sink (vc_Spec vc) = Some sk \<and>
          due_for vc vr \<and> sound_result vr \<and> list_all (service_of (sk_Type sk)) (rc_Events m)))"
  using cluster_reachable_ok [OF assms] by (simp add: cluster_ok_def list_all_iff)

text \<open>A run in which a result is sent.\<close>

definition run_cluster :: cluster where
  "run_cluster = \<lparr>cl_Config = \<lparr>cf_Stored = Some sink_vc, cf_Calls = [], cf_Saved = True\<rparr>,
     cl_Results = (\<lambda>n. lc_absent)(''vr'' := \<lparr>lc_Stored = Some run_result, lc_Attempts = []\<rparr>), cl_Log = []\<rparr>"

lemma run_cluster_reachable: "cluster_reachable run_tables run_cluster"
proof -
  let ?c1 = "empty_cluster\<lparr>cl_Config := \<lparr>cf_Stored = Some sink_vc, cf_Calls = [], cf_Saved = True\<rparr>\<rparr>"
  let ?c2 = "?c1\<lparr>cl_Results := (cl_Results ?c1)(''vr'' := \<lparr>lc_Stored = Some run_created, lc_Attempts = []\<rparr>)\<rparr>"
  let ?c3 = "?c2\<lparr>cl_Results := (cl_Results ?c2)(''vr'' := \<lparr>lc_Stored = Some run_result, lc_Attempts = []\<rparr>)\<rparr>"
  have "cluster_step run_tables empty_cluster ?c1"
    by (intro cluster_step.Config_Step cf_step.Create)
      (simp_all add: empty_cluster_def cf_absent_def sink_vc_def test_vc_def vc_deleted_def test_meta_def empty_meta_def)
  moreover have "cluster_step run_tables ?c1 ?c2"
    by (rule cluster_step.Plugin_Step) (use run_creates in \<open>simp add: plugin_step_def empty_cluster_def lc_absent_def\<close>)
  moreover have "cluster_step run_tables ?c2 ?c3"
    by (rule cluster_step.Plugin_Step) (use run_updates in \<open>simp add: plugin_step_def\<close>)
  moreover have "?c3 = run_cluster" by (simp add: run_cluster_def empty_cluster_def)
  ultimately show ?thesis using cluster_reachable.Empty by (metis cluster_reachable.Step)
qed

theorem cluster_refines_lives_witness:
  "\<exists>c m vc sk. cluster_reachable run_tables c \<and> cl_Log c = [m] \<and> \<not> no_sink (rc_Events m) \<and>
     rc_Config m = Some vc \<and> vcs_Sink (vc_Spec vc) = Some sk \<and> list_all (service_of (sk_Type sk)) (rc_Events m)"
proof -
  obtain s' where run: "vr_Reconcile run_env ''validator'' (''validator'', ''vr'') (start run_result) =
      (Inr (requeue_30s, None), s')" and sent: "\<not> no_sink (hist s')"
    using wp_returns [OF run_sends] by auto
  have r: "reads run_env ''validator'' (''validator'', ''vr'') (hist (start run_result)) (cf_Stored (cl_Config run_cluster))
      (lc_Stored (cl_Results run_cluster ''vr''))"
    by (simp add: reads_def run_env_answers run_cluster_def)
  obtain c where step: "cluster_step run_tables run_cluster c"
    and log: "cl_Log c = [\<lparr>rc_Config = Some sink_vc, rc_Result = Some run_result, rc_Events = hist s'\<rparr>]"
    using cluster_step.Result_Reconcile [OF r run, of run_tables]
    by (rule that) (simp add: run_cluster_def new_events_def start_def)
  have "cluster_reachable run_tables c" by (rule cluster_reachable.Step [OF run_cluster_reachable step])
  with cluster_refines_lives [OF this] log sent show ?thesis by fastforce
qed

end
