(* ===== verification/Manager.thy ===== *)
theory Manager
  imports Sinks Plugin_Frequency
begin

text \<open>
  \<^theory_text>\<open>cmd/main.go\<close>: the start of the manager, from the parsed flags to \<^theory_text>\<open>mgr.Start\<close>, and
  \<^theory_text>\<open>time.ParseDuration\<close>, which reads the timeout of the sinks.  The calls into controller-runtime are
  events with an answer; a function of a TLS configuration stays a function.
\<close>

section \<open>time.ParseDuration\<close>

datatype duration_error = InvalidDuration | MissingUnit | UnknownUnit

text \<open>The units, in nanoseconds; the two spellings of the micro sign are their UTF-8 bytes.\<close>

definition unit_map :: "string \<rightharpoonup> nat" where
  "unit_map = [''ns'' \<mapsto> 1, ''us'' \<mapsto> 1000, [char_of (0xC2 :: nat), char_of (0xB5 :: nat), CHR ''s''] \<mapsto> 1000,
     [char_of (0xCE :: nat), char_of (0xBC :: nat), CHR ''s''] \<mapsto> 1000, ''ms'' \<mapsto> 1000000,
     ''s'' \<mapsto> 1000000000, ''m'' \<mapsto> 60000000000, ''h'' \<mapsto> 3600000000000]"

text \<open>\<^theory_text>\<open>leadingInt\<close>: the leading digits, unless their value exceeds \<open>2 ^ 63\<close>.\<close>

fun leading_int :: "nat \<Rightarrow> string \<Rightarrow> (nat \<times> string) option" where
  "leading_int x [] = Some (x, [])"
| "leading_int x (c # cs) =
     (if \<not> is_digit c then Some (x, c # cs)
      else if x > 2 ^ 63 div 10 then None
      else (let x = 10 * x + (of_char c - 48) in if x > 2 ^ 63 then None else leading_int x cs))"

definition unit_char :: "char \<Rightarrow> bool" where
  "unit_char c \<longleftrightarrow> c \<noteq> CHR ''.'' \<and> \<not> is_digit c"

text \<open>
  The digits after a decimal point, if there is one, with the rest of the text.  What they are worth
  in a unit is computed in floating point; it is the argument \<open>frac\<close> of the functions below.
\<close>

definition fraction :: "string \<Rightarrow> string \<times> string" where
  "fraction s =
     (if s \<noteq> [] \<and> hd s = CHR ''.'' then (takeWhile is_digit (tl s), dropWhile is_digit (tl s)) else ([], s))"

lemma leading_int_length: "leading_int x s = Some (v, s') \<Longrightarrow> length s' \<le> length s"
  by (induction x s rule: leading_int.induct) (auto simp: Let_def le_SucI split: if_splits)

lemma fraction_length: "length (snd (fraction s)) \<le> length s"
  using length_dropWhile_le [of is_digit "tl s"] by (auto simp: fraction_def intro: le_trans)

function parse_parts :: "(string \<Rightarrow> nat \<Rightarrow> nat) \<Rightarrow> nat \<Rightarrow> string \<Rightarrow> duration_error + nat" where
  "parse_parts frac d s =
     (if s = [] then Inr d
      else if \<not> (hd s = CHR ''.'' \<or> is_digit (hd s)) then Inl InvalidDuration
      else
        (case leading_int 0 s of
           None \<Rightarrow> Inl InvalidDuration
         | Some (v, s1) \<Rightarrow>
             (let pre = (length s1 \<noteq> length s); (ds, s2) = fraction s1; post = (ds \<noteq> []) in
              if \<not> pre \<and> \<not> post then Inl InvalidDuration
              else
                (let u = takeWhile unit_char s2; s3 = dropWhile unit_char s2 in
                 if u = [] then Inl MissingUnit
                 else
                   (case unit_map u of
                      None \<Rightarrow> Inl UnknownUnit
                    | Some unit \<Rightarrow>
                        if v > 2 ^ 63 div unit then Inl InvalidDuration
                        else
                          (let w = v * unit;
                               w' = (if digits_value ds > 0 then (w + frac ds unit) mod 2 ^ 64 else w) in
                           if digits_value ds > 0 \<and> w' > 2 ^ 63 then Inl InvalidDuration
                           else
                             (let d' = (d + w') mod 2 ^ 64 in
                              if d' > 2 ^ 63 then Inl InvalidDuration else parse_parts frac d' s3)))))))"
  by pat_completeness auto

termination
proof (relation "measure (\<lambda>(frac, d, s). length s)", simp, clarsimp)
  fix s v s1 ds s2
  assume l: "leading_int 0 s = Some (v, s1)" and f: "(ds, s2) = fraction s1" and u: "takeWhile unit_char s2 \<noteq> []"
  have "length s2 \<le> length s" using leading_int_length [OF l] fraction_length [of s1] f by (metis le_trans snd_conv)
  moreover have "length (dropWhile unit_char s2) < length s2"
    using u by (metis length_append length_greater_0_conv less_add_same_cancel2 takeWhile_dropWhile_id)
  ultimately show "length (dropWhile unit_char s2) < length s" by simp
qed

declare parse_parts.simps [simp del]

definition parse_duration :: "(string \<Rightarrow> nat \<Rightarrow> nat) \<Rightarrow> string \<Rightarrow> duration_error + int" where
  "parse_duration frac orig =
     (let neg = (orig \<noteq> [] \<and> hd orig = CHR ''-'');
          s = (if orig \<noteq> [] \<and> (hd orig = CHR ''-'' \<or> hd orig = CHR ''+'') then tl orig else orig) in
      if s = ''0'' then Inr 0
      else if s = [] then Inl InvalidDuration
      else
        (case parse_parts frac 0 s of
           Inl e \<Rightarrow> Inl e
         | Inr d \<Rightarrow>
             if neg then Inr (- int d)
             else if d > 2 ^ 63 - 1 then Inl InvalidDuration else Inr (int d)))"

section \<open>Configuration of the servers\<close>

record flags =
  metricsAddr :: string
  probeAddr :: string
  enableLeaderElection :: bool
  secureMetrics :: bool
  enableHTTP2 :: bool

definition default_flags :: flags where
  "default_flags = \<lparr>metricsAddr = ''0'', probeAddr = '':8081'', enableLeaderElection = False,
     secureMetrics = True, enableHTTP2 = False\<rparr>"

record tls_config =
  NextProtos :: "string list"

definition disableHTTP2 :: "tls_config \<Rightarrow> tls_config" where
  "disableHTTP2 c = c\<lparr>NextProtos := [''http/1.1'']\<rparr>"

definition tls_opts :: "flags \<Rightarrow> (tls_config \<Rightarrow> tls_config) list" where
  "tls_opts fl = (if \<not> enableHTTP2 fl then [disableHTTP2] else [])"

record metrics_options =
  mo_BindAddress :: string
  mo_SecureServing :: bool
  mo_TLSOpts :: "(tls_config \<Rightarrow> tls_config) list"
  mo_Authenticated :: bool

definition metrics_server_options :: "flags \<Rightarrow> metrics_options" where
  "metrics_server_options fl =
     (let o' = \<lparr>mo_BindAddress = metricsAddr fl, mo_SecureServing = secureMetrics fl,
            mo_TLSOpts = tls_opts fl, mo_Authenticated = False\<rparr> in
      if secureMetrics fl then o'\<lparr>mo_Authenticated := True\<rparr> else o')"

record manager_options =
  mg_Metrics :: metrics_options
  mg_WebhookTLSOpts :: "(tls_config \<Rightarrow> tls_config) list"
  mg_HealthProbeBindAddress :: string
  mg_LeaderElection :: bool
  mg_LeaderElectionID :: string

definition manager_options_of :: "flags \<Rightarrow> manager_options" where
  "manager_options_of fl =
     \<lparr>mg_Metrics = metrics_server_options fl, mg_WebhookTLSOpts = tls_opts fl,
      mg_HealthProbeBindAddress = probeAddr fl, mg_LeaderElection = enableLeaderElection fl,
      mg_LeaderElectionID = ''486a6c36.spectrocloud.labs''\<rparr>"

section \<open>main\<close>

datatype main_event =
    MgAddClientGo
  | MgAddKnownTypes "string \<times> string" "string list"
  | MgUsage string
  | MgGetConfig
  | MgNewManager manager_options
  | MgRawConfig
  | MgSetupVR string
  | MgSetupVC
  | MgAddHealthz
  | MgAddReadyz
  | MgStart
  | MgError string

record main_env =
  me_Call :: "main_event list \<Rightarrow> main_event \<Rightarrow> goerror option"
  me_Namespace :: string
  me_Timeout :: "string option"
  me_Frac :: "string \<Rightarrow> nat \<Rightarrow> nat"
  me_PreserveFiles :: string

type_synonym 'a main = "(main_event, globals, unit, 'a) go"

text \<open>The exit code of the process: 0 when \<^theory_text>\<open>main\<close> returns, 1 after \<^theory_text>\<open>os.Exit(1)\<close>.\<close>

definition exit_with :: "string \<Rightarrow> nat main" where
  "exit_with msg = go_bind (go_call (MgError msg) (\<lambda>_. ())) (\<lambda>_. go_return 1)"

definition must :: "main_env \<Rightarrow> main_event \<Rightarrow> string \<Rightarrow> nat main \<Rightarrow> nat main" where
  "must env e msg rest =
     go_bind (go_call e (\<lambda>h. me_Call env h e)) (\<lambda>err.
     case err of Some x \<Rightarrow> exit_with msg | None \<Rightarrow> rest)"

definition sink_timeout :: "main_env \<Rightarrow> duration_error + int" where
  "sink_timeout env =
     (let timeout = (case me_Timeout env of None \<Rightarrow> ''30s'' | Some t \<Rightarrow> t) in parse_duration (me_Frac env) timeout)"

definition main_serve :: "main_env \<Rightarrow> nat main" where
  "main_serve env =
     must env (MgSetupVR (me_Namespace env)) ''unable to create controller''
    (must env MgSetupVC ''unable to create controller''
    (must env MgAddHealthz ''unable to set up health check''
    (must env MgAddReadyz ''unable to set up ready check''
    (must env MgStart ''problem running manager''
    (go_return 0)))))"

definition main_run :: "main_env \<Rightarrow> flags \<Rightarrow> nat main" where
  "main_run env fl =
     must env MgGetConfig ''unable to get kubeconfig''
    (must env (MgNewManager (manager_options_of fl)) ''unable to start manager''
    (must env MgRawConfig ''unable to get config''
    (case sink_timeout env of
       Inl e \<Rightarrow> exit_with ''failed to parse webhook timeout''
     | Inr timeout \<Rightarrow> go_bind (NewClient timeout) (\<lambda>_. main_serve env))))"

section \<open>Lemmas\<close>

text \<open>The steps of a start that succeeds, and whether every call of a list succeeds.\<close>

definition start_steps :: "main_env \<Rightarrow> flags \<Rightarrow> main_event list" where
  "start_steps env fl = [MgGetConfig, MgNewManager (manager_options_of fl), MgRawConfig,
     MgSetupVR (me_Namespace env), MgSetupVC, MgAddHealthz, MgAddReadyz, MgStart]"

fun all_succeed :: "main_env \<Rightarrow> main_event list \<Rightarrow> main_event list \<Rightarrow> bool" where
  "all_succeed env h [] = True"
| "all_succeed env h (e # es) = (me_Call env h e = None \<and> all_succeed env (h @ [e]) es)"

text \<open>Number \<open>k\<close> of the list is the first call that fails.\<close>

definition fails_at :: "main_env \<Rightarrow> main_event list \<Rightarrow> main_event list \<Rightarrow> nat \<Rightarrow> bool" where
  "fails_at env h es k \<longleftrightarrow>
     k < length es \<and> all_succeed env h (take k es) \<and> me_Call env (h @ take k es) (es ! k) \<noteq> None"

lemma must_run:
  "wp (must env e msg rest) Q s =
     (case me_Call env (hist s) e of
        Some x \<Rightarrow> Q 1 (s\<lparr>hist := hist s @ [e, MgError msg]\<rparr>)
      | None \<Rightarrow> wp rest Q (s\<lparr>hist := hist s @ [e]\<rparr>))"
  by (simp add: must_def exit_with_def wp_rules split: option.split)

lemma digits_foldl_mono: "x \<le> foldl (\<lambda>n c. 10 * n + (of_char c - 48)) (x :: nat) ds"
proof (induction ds arbitrary: x)
  case (Cons c ds)
  have "x \<le> 10 * x + (of_char c - 48)" by simp
  also note Cons [of "10 * x + (of_char c - 48)"]
  finally show ?case by simp
qed simp

lemma leading_int_digits:
  "list_all is_digit ds \<Longrightarrow> \<not> (rest \<noteq> [] \<and> is_digit (hd rest)) \<Longrightarrow>
     foldl (\<lambda>n c. 10 * n + (of_char c - 48)) x ds \<le> 2 ^ 63 \<Longrightarrow>
     leading_int x (ds @ rest) = Some (foldl (\<lambda>n c. 10 * n + (of_char c - 48)) x ds, rest)"
proof (induction ds arbitrary: x)
  case Nil
  then show ?case by (cases rest) auto
next
  case (Cons c ds)
  let ?x = "10 * x + (of_char c - 48)"
  have "?x \<le> 2 ^ 63" using digits_foldl_mono [of ?x ds] Cons.prems(3) by simp
  moreover from this have "x \<le> 2 ^ 63 div 10" by simp
  ultimately show ?case using Cons by simp
qed

lemma leading_int_dec_nat:
  assumes "n \<le> 2 ^ 63" and "\<not> (rest \<noteq> [] \<and> is_digit (hd rest))"
  shows "leading_int 0 (dec_nat n @ rest) = Some (n, rest)"
  using leading_int_digits [of "dec_nat n" rest 0] dec_nat_digits [of n] digits_value_dec_nat [of n] assms
  by (simp add: digits_value_def)

lemma dec_nat_head: "\<exists>c cs. dec_nat n = c # cs \<and> is_digit c"
  using dec_nat_digits [of n] by (cases "dec_nat n") auto

lemma is_digit_facts: "is_digit c \<Longrightarrow> c \<noteq> CHR ''-'' \<and> c \<noteq> CHR ''+'' \<and> c \<noteq> CHR ''.''"
  by (auto simp: is_digit_def)

lemma parse_duration_digits:
  assumes "dec_nat n @ rest \<noteq> ''0''"
  shows "parse_duration frac (dec_nat n @ rest) =
     (case parse_parts frac 0 (dec_nat n @ rest) of
        Inl e \<Rightarrow> Inl e | Inr d \<Rightarrow> if d > 2 ^ 63 - 1 then Inl InvalidDuration else Inr (int d))"
proof -
  obtain c cs where c: "dec_nat n = c # cs" "is_digit c" using dec_nat_head [of n] by blast
  show ?thesis using assms is_digit_facts [OF c(2)] by (auto simp: parse_duration_def c(1) Let_def split: sum.split)
qed

lemma parse_parts_seconds:
  assumes "n \<le> 9223372036"
  shows "parse_parts frac 0 (dec_nat n @ ''s'') = Inr (n * 1000000000)"
proof -
  have l: "leading_int 0 (dec_nat n @ ''s'') = Some (n, ''s'')"
    by (rule leading_int_dec_nat) (use assms in \<open>simp_all add: is_digit_def\<close>)
  have u: "unit_map ''s'' = Some 1000000000" "unit_char CHR ''s''"
    by (simp_all add: unit_map_def unit_char_def is_digit_def)
  have e: "parse_parts frac d [] = Inr d" for d by (subst parse_parts.simps) simp
  obtain c cs where c: "dec_nat n = c # cs" "is_digit c" using dec_nat_head [of n] by blast
  show ?thesis using l assms
    by (subst parse_parts.simps) (simp add: c u e fraction_def digits_value_def)
qed

lemma parse_parts_bare:
  assumes "n \<le> 2 ^ 63"
  shows "parse_parts frac 0 (dec_nat n) = Inl MissingUnit"
proof -
  have l: "leading_int 0 (dec_nat n) = Some (n, [])"
    using leading_int_dec_nat [of n "[]"] assms by simp
  obtain c cs where c: "dec_nat n = c # cs" "is_digit c" using dec_nat_head [of n] by blast
  show ?thesis using l by (subst parse_parts.simps) (simp add: c fraction_def)
qed

lemma dec_nat_nonzero: "0 < n \<Longrightarrow> dec_nat n \<noteq> ''0''"
proof
  assume "0 < n" "dec_nat n = ''0''"
  then have "digits_value (dec_nat n) = 0" by (simp add: digits_value_def)
  then show False using \<open>0 < n\<close> by simp
qed

text \<open>A chain of steps.\<close>

fun must_all :: "main_env \<Rightarrow> (main_event \<times> string) list \<Rightarrow> nat main \<Rightarrow> nat main" where
  "must_all env [] rest = rest"
| "must_all env ((e, msg) # xs) rest = must env e msg (must_all env xs rest)"

lemma must_all_succeed:
  "all_succeed env (hist s) (map fst xs) \<Longrightarrow>
     wp (must_all env xs rest) Q s = wp rest Q (s\<lparr>hist := hist s @ map fst xs\<rparr>)"
  by (induction env xs rest arbitrary: s rule: must_all.induct) (simp_all add: must_run)

lemma must_all_fail:
  "\<not> all_succeed env (hist s) (map fst xs) \<Longrightarrow>
     wp (must_all env xs rest) (\<lambda>code s'. code = 1 \<and>
       (\<exists>k. fails_at env (hist s) (map fst xs) k \<and>
          hist s' = hist s @ take (Suc k) (map fst xs) @ [MgError (snd (xs ! k))])) s"
proof (induction env xs rest arbitrary: s rule: must_all.induct)
  case (2 env e msg xs rest)
  show ?case
  proof (cases "me_Call env (hist s) e")
    case (Some x)
    then show ?thesis by (auto simp: must_run fails_at_def intro!: exI [of _ 0])
  next
    case None
    let ?s = "s\<lparr>hist := hist s @ [e]\<rparr>"
    have "\<not> all_succeed env (hist ?s) (map fst xs)" using 2(2) None by simp
    from 2(1) [OF this] have "wp (must_all env xs rest) (\<lambda>code s'. code = 1 \<and>
       (\<exists>k. fails_at env (hist s) (map fst ((e, msg) # xs)) k \<and> hist s' = hist s
          @ take (Suc k) (map fst ((e, msg) # xs)) @ [MgError (snd (((e, msg) # xs) ! k))])) ?s"
    proof (rule wp_mono, elim conjE exE, intro conjI)
      fix s' :: "(main_event, globals, unit) gostate" and k
      assume "fails_at env (hist ?s) (map fst xs) k"
        "hist s' = hist ?s @ take (Suc k) (map fst xs) @ [MgError (snd (xs ! k))]"
      then show "\<exists>k. fails_at env (hist s) (map fst ((e, msg) # xs)) k \<and> hist s' = hist s
          @ take (Suc k) (map fst ((e, msg) # xs)) @ [MgError (snd (((e, msg) # xs) ! k))]"
        using None by (intro exI [of _ "Suc k"]) (clarsimp simp: fails_at_def)
    qed
    then show ?thesis using None by (simp add: must_run)
  qed
qed simp

definition boot_steps :: "flags \<Rightarrow> (main_event \<times> string) list" where
  "boot_steps fl = [(MgGetConfig, ''unable to get kubeconfig''),
     (MgNewManager (manager_options_of fl), ''unable to start manager''), (MgRawConfig, ''unable to get config'')]"

definition serve_steps :: "main_env \<Rightarrow> (main_event \<times> string) list" where
  "serve_steps env = [(MgSetupVR (me_Namespace env), ''unable to create controller''),
     (MgSetupVC, ''unable to create controller''), (MgAddHealthz, ''unable to set up health check''),
     (MgAddReadyz, ''unable to set up ready check''), (MgStart, ''problem running manager'')]"

lemma main_chain:
  "main_serve env = must_all env (serve_steps env) (go_return 0)"
  "main_run env fl = must_all env (boot_steps fl)
     (case sink_timeout env of
        Inl e \<Rightarrow> exit_with ''failed to parse webhook timeout''
      | Inr timeout \<Rightarrow> go_bind (NewClient timeout) (\<lambda>_. main_serve env))"
  by (simp_all add: main_serve_def serve_steps_def main_run_def boot_steps_def)

lemma steps_split: "start_steps env fl = map fst (boot_steps fl) @ map fst (serve_steps env)"
  "length (boot_steps fl) = 3" "length (serve_steps env) = 5"
  by (simp_all add: start_steps_def boot_steps_def serve_steps_def)

lemma all_succeed_append:
  "all_succeed env h (xs @ ys) \<longleftrightarrow> all_succeed env h xs \<and> all_succeed env (h @ xs) ys"
  by (induction env h xs rule: all_succeed.induct) auto

definition served :: "main_env \<Rightarrow> flags \<Rightarrow> main_event list \<Rightarrow> nat \<Rightarrow> (main_event, globals, unit) gostate \<Rightarrow> bool" where
  "served env fl h code s' \<longleftrightarrow> code = 0 \<and> h = hist s' \<and> Inr (hc_Timeout (default_client (glob s'))) = sink_timeout env"

text \<open>
  A start that fails: the first step that fails is the last one made, and the message is its own; or
  the timeout of the sinks cannot be read, after the first three steps.
\<close>

definition start_messages :: "string list" where
  "start_messages = [''unable to get kubeconfig'', ''unable to start manager'', ''unable to get config'',
     ''unable to create controller'', ''unable to create controller'', ''unable to set up health check'',
     ''unable to set up ready check'', ''problem running manager'']"

definition failed_start :: "main_env \<Rightarrow> flags \<Rightarrow> main_event list \<Rightarrow> main_event list \<Rightarrow> bool" where
  "failed_start env fl h h' \<longleftrightarrow>
     (\<exists>k. fails_at env h (start_steps env fl) k \<and> (3 \<le> k \<longrightarrow> (\<exists>d. sink_timeout env = Inr d))
        \<and> h' = h @ take (Suc k) (start_steps env fl) @ [MgError (start_messages ! k)])
     \<or> all_succeed env h (take 3 (start_steps env fl)) \<and> (\<exists>e. sink_timeout env = Inl e)
        \<and> h' = h @ take 3 (start_steps env fl) @ [MgError ''failed to parse webhook timeout'']"

definition stopped :: "main_env \<Rightarrow> flags \<Rightarrow> main_event list \<Rightarrow> nat \<Rightarrow> (main_event, globals, unit) gostate \<Rightarrow> bool" where
  "stopped env fl h code s' \<longleftrightarrow> code = 1 \<and> failed_start env fl h (hist s')"

lemma messages_split:
  "start_messages = map snd (boot_steps fl) @ map snd (serve_steps env)"
  by (simp add: start_messages_def boot_steps_def serve_steps_def)

lemma boot_fails:
  assumes "fails_at env h (map fst (boot_steps fl)) k"
    and "h' = h @ take (Suc k) (map fst (boot_steps fl)) @ [MgError (snd (boot_steps fl ! k))]"
  shows "failed_start env fl h h'"
proof -
  have "k < 3" using assms(1) by (simp add: fails_at_def steps_split)
  then have "fails_at env h (start_steps env fl) k \<and>
      h' = h @ take (Suc k) (start_steps env fl) @ [MgError (start_messages ! k)]"
    using assms by (clarsimp simp: fails_at_def steps_split messages_split [of fl env] nth_append)
  then show ?thesis using \<open>k < 3\<close> by (auto simp: failed_start_def)
qed

lemma serve_fails:
  assumes boot: "all_succeed env h (map fst (boot_steps fl))" and d: "sink_timeout env = Inr d"
    and "fails_at env (h @ map fst (boot_steps fl)) (map fst (serve_steps env)) k"
    and "h' = h @ map fst (boot_steps fl) @ take (Suc k) (map fst (serve_steps env))
      @ [MgError (snd (serve_steps env ! k))]"
  shows "failed_start env fl h h'"
proof -
  have "fails_at env h (start_steps env fl) (3 + k) \<and>
      h' = h @ take (Suc (3 + k)) (start_steps env fl) @ [MgError (start_messages ! (3 + k))]"
    using assms by (clarsimp simp: fails_at_def steps_split messages_split [of fl env] nth_append all_succeed_append)
  then show ?thesis using d unfolding failed_start_def by blast
qed

lemma main_run_outcome:
  "wp (main_run env fl) (\<lambda>code s'.
     if all_succeed env (hist s) (start_steps env fl) \<and> (\<exists>d. sink_timeout env = Inr d)
     then served env fl (hist s @ start_steps env fl) code s' else stopped env fl (hist s) code s') s"
proof (cases "all_succeed env (hist s) (map fst (boot_steps fl))")
  case False
  have "wp (main_run env fl) (\<lambda>code s'. stopped env fl (hist s) code s') s"
    unfolding main_chain(2)
  proof (rule wp_mono [OF must_all_fail [OF False]], elim conjE exE)
    fix code :: nat and k and s' :: "(main_event, globals, unit) gostate"
    assume "code = 1" "fails_at env (hist s) (map fst (boot_steps fl)) k"
      and "hist s' = hist s @ take (Suc k) (map fst (boot_steps fl)) @ [MgError (snd (boot_steps fl ! k))]"
    then show "stopped env fl (hist s) code s'"
      by (simp add: stopped_def boot_fails)
  qed
  then show ?thesis using False by (simp add: steps_split all_succeed_append)
next
  case boot: True
  let ?s = "s\<lparr>hist := hist s @ map fst (boot_steps fl)\<rparr>"
  show ?thesis
  proof (cases "sink_timeout env")
    case (Inl e)
    then show ?thesis using boot
      by (simp add: main_chain(2) must_all_succeed [OF boot] exit_with_def wp_rules steps_split
          stopped_def failed_start_def)
  next
    case (Inr d)
    let ?s2 = "?s\<lparr>glob := (glob s)\<lparr>default_client := (default_client (glob s))\<lparr>hc_Timeout := d\<rparr>\<rparr>\<rparr>"
    have run: "wp (main_run env fl) Q s = wp (must_all env (serve_steps env) (go_return 0)) Q ?s2" for Q
      by (simp add: main_chain must_all_succeed [OF boot] Inr NewClient_def wp_rules)
    show ?thesis
    proof (cases "all_succeed env (hist ?s2) (map fst (serve_steps env))")
      case True
      then show ?thesis using boot Inr
        by (simp add: run must_all_succeed [OF True] wp_return steps_split all_succeed_append served_def)
    next
      case False
      have "wp (must_all env (serve_steps env) (go_return 0)) (\<lambda>code s'. stopped env fl (hist s) code s') ?s2"
      proof (rule wp_mono [OF must_all_fail [OF False]], elim conjE exE)
        fix code :: nat and k and s' :: "(main_event, globals, unit) gostate"
        assume "code = 1" "fails_at env (hist ?s2) (map fst (serve_steps env)) k"
          and "hist s' = hist ?s2 @ take (Suc k) (map fst (serve_steps env)) @ [MgError (snd (serve_steps env ! k))]"
        then show "stopped env fl (hist s) code s'"
          using serve_fails [OF boot Inr, of k "hist s'"] by (simp add: stopped_def)
      qed
      then show ?thesis using False by (simp add: run steps_split all_succeed_append)
    qed
  qed
qed

section \<open>Properties\<close>

text \<open>
  SINK_WEBHOOK_TIMEOUT_SECONDS is no number of seconds.  A positive decimal number is refused for
  want of a unit, and the process ends with code 1 before a controller is set up; the same number
  followed by an s is that many seconds, and without the variable it is 30 seconds.\<close>
lemma sink_timeout_needs_unit:
  assumes "0 < n" and "n \<le> 9223372036"
  shows "sink_timeout (env\<lparr>me_Timeout := Some (dec_nat n)\<rparr>) = Inl MissingUnit \<and>
     wp (main_run (env\<lparr>me_Timeout := Some (dec_nat n)\<rparr>) fl) (\<lambda>code s'. code = 1) s \<and>
     sink_timeout (env\<lparr>me_Timeout := Some (dec_nat n @ ''s'')\<rparr>) = Inr (int n * 1000000000) \<and>
     sink_timeout (env\<lparr>me_Timeout := None\<rparr>) = Inr 30000000000"
proof -
  have ns: "parse_duration frac (dec_nat n @ ''s'') = Inr (int n * 1000000000)" if "n \<le> 9223372036" for n frac
    using that by (subst parse_duration_digits) (auto simp: parse_parts_seconds append_eq_Cons_conv)
  have bare: "sink_timeout (env\<lparr>me_Timeout := Some (dec_nat n)\<rparr>) = Inl MissingUnit"
    using parse_duration_digits [of n "[]" "me_Frac env"] dec_nat_nonzero [OF assms(1)] assms(2)
    by (simp add: sink_timeout_def parse_parts_bare)
  have "dec_nat 30 = ''30''" by code_simp
  then have "sink_timeout (env\<lparr>me_Timeout := None\<rparr>) = Inr 30000000000"
    using ns [of 30] by (simp add: sink_timeout_def)
  moreover have "wp (main_run (env\<lparr>me_Timeout := Some (dec_nat n)\<rparr>) fl) (\<lambda>code s'. code = 1) s"
    by (rule wp_mono [OF main_run_outcome]) (simp add: bare stopped_def)
  ultimately show ?thesis using bare ns [OF assms(2)] by (simp add: sink_timeout_def)
qed

definition test_main_env :: main_env where
  "test_main_env = \<lparr>me_Call = (\<lambda>h e. None), me_Namespace = ''validator'', me_Timeout = None, me_Frac = (\<lambda>s u. 0),
     me_PreserveFiles = []\<rparr>"

lemma sink_timeout_needs_unit_witness:
  "sink_timeout (test_main_env\<lparr>me_Timeout := Some ''60''\<rparr>) = Inl MissingUnit"
proof -
  have "dec_nat 60 = ''60''" by code_simp
  then show ?thesis using sink_timeout_needs_unit [of 60 test_main_env] by simp
qed

text \<open>
  HTTP/2 is off unless asked for, for the metrics server and for the webhook server alike, and the
  metrics are authenticated exactly when they are served securely.\<close>
lemma http2_off_by_default:
  "fold (\<lambda>f. f) (mo_TLSOpts (mg_Metrics (manager_options_of fl))) c =
     (if enableHTTP2 fl then c else c\<lparr>NextProtos := [''http/1.1'']\<rparr>) \<and>
   mg_WebhookTLSOpts (manager_options_of fl) = mo_TLSOpts (mg_Metrics (manager_options_of fl)) \<and>
   mo_SecureServing (mg_Metrics (manager_options_of fl)) = secureMetrics fl \<and>
   mo_Authenticated (mg_Metrics (manager_options_of fl)) = secureMetrics fl \<and>
   mo_BindAddress (mg_Metrics (manager_options_of default_flags)) = ''0'' \<and> \<not> enableHTTP2 default_flags"
  by (simp add: manager_options_of_def metrics_server_options_def tls_opts_def disableHTTP2_def
      default_flags_def Let_def)

end
