(* ===== verification/Command_Line.thy ===== *)
theory Command_Line
  imports Manager
begin

text \<open>
  The command line of the manager (\<^theory_text>\<open>cmd/main.go\<close>): the flags that \<^theory_text>\<open>main\<close> defines and Go's package
  flag, which parses them.  The flag set also holds flags of other packages (controller-runtime's
  kubeconfig, and the zap flags of \<^theory_text>\<open>opts.BindFlags\<close>); their names, which of them are boolean and what
  setting them does to the values of those packages are parameters.  The lemmas show that the parser
  ends, what each spelling of a flag does, and that a written setting is read back.
\<close>

section \<open>The flag set\<close>

text \<open>\<open>'z\<close> stands for the variables behind the flags of other packages.\<close>

record 'z foreign_flags =
  ff_Before :: "string list"
  ff_After :: "string list"
  ff_IsBool :: "string \<Rightarrow> bool"
  ff_Set :: "string \<Rightarrow> string \<Rightarrow> 'z \<Rightarrow> string + 'z"

type_synonym 'z settings = "flags \<times> 'z"

text \<open>\<^theory_text>\<open>FlagSet.Var\<close> refuses a name that is taken, or that could not be read back.\<close>

definition define_flag :: "string list \<Rightarrow> string \<Rightarrow> string + string list" where
  "define_flag known name =
     (if has_prefix name ''-'' then Inl (''flag '' @ name @ '' begins with -'')
      else if CHR ''='' \<in> set name then Inl (''flag '' @ name @ '' contains ='')
      else if name \<in> set known then Inl (''flag redefined: '' @ name)
      else Inr (known @ [name]))"

fun define_flags :: "string list \<Rightarrow> string list \<Rightarrow> string + string list" where
  "define_flags known [] = Inr known"
| "define_flags known (name # names) =
     (case define_flag known name of Inl p \<Rightarrow> Inl p | Inr known \<Rightarrow> define_flags known names)"

definition main_flag_names :: "string list" where
  "main_flag_names = [''metrics-bind-address'', ''health-probe-bind-address'', ''leader-elect'', ''metrics-secure'',
     ''enable-http2'']"

definition all_flag_names :: "'z foreign_flags \<Rightarrow> string + string list" where
  "all_flag_names ff = define_flags [] (ff_Before ff @ main_flag_names @ ff_After ff)"

definition bool_flag :: "'z foreign_flags \<Rightarrow> string \<Rightarrow> bool" where
  "bool_flag ff name =
     (if name \<in> set main_flag_names then name \<in> {''leader-elect'', ''metrics-secure'', ''enable-http2''}
      else ff_IsBool ff name)"

definition set_bool :: "string \<Rightarrow> (bool \<Rightarrow> flags) \<Rightarrow> 'z \<Rightarrow> string + 'z settings" where
  "set_bool value f z = (case parse_bool value of None \<Rightarrow> Inl ''parse error'' | Some b \<Rightarrow> Inr (f b, z))"

text \<open>\<^theory_text>\<open>flag.Value.Set\<close> of the variable behind a name.\<close>

definition set_flag :: "'z foreign_flags \<Rightarrow> string \<Rightarrow> string \<Rightarrow> 'z settings \<Rightarrow> string + 'z settings" where
  "set_flag ff name value = (\<lambda>(fl, z).
     if name = ''metrics-bind-address'' then Inr (fl\<lparr>metricsAddr := value\<rparr>, z)
     else if name = ''health-probe-bind-address'' then Inr (fl\<lparr>probeAddr := value\<rparr>, z)
     else if name = ''leader-elect'' then set_bool value (\<lambda>b. fl\<lparr>enableLeaderElection := b\<rparr>) z
     else if name = ''metrics-secure'' then set_bool value (\<lambda>b. fl\<lparr>secureMetrics := b\<rparr>) z
     else if name = ''enable-http2'' then set_bool value (\<lambda>b. fl\<lparr>enableHTTP2 := b\<rparr>) z
     else (case ff_Set ff name value z of Inl e \<Rightarrow> Inl e | Inr z \<Rightarrow> Inr (fl, z)))"

section \<open>Parsing\<close>

datatype flag_error = HelpRequested | BadFlag string

text \<open>The name and the value of an argument, cut at the first equals sign after the first character.\<close>

definition cut_value :: "string \<Rightarrow> string \<times> string option" where
  "cut_value name =
     (let n = takeWhile (\<lambda>c. c \<noteq> CHR ''='') (tl name); v = dropWhile (\<lambda>c. c \<noteq> CHR ''='') (tl name)
      in (hd name # n, if v = [] then None else Some (tl v)))"

text \<open>
  \<^theory_text>\<open>parseOne\<close>: \<open>Inr None\<close> when the flags have ended, otherwise the settings and the arguments that are
  left; \<open>Quote\<close> is the \<^theory_text>\<open>%q\<close> verb.
\<close>

datatype 'z parsed_one = FlagsEnded "string list" | FlagSeen "'z settings" "string list"

definition value_error :: "(string \<Rightarrow> string) \<Rightarrow> string \<Rightarrow> string \<Rightarrow> string \<Rightarrow> string \<Rightarrow> flag_error" where
  "value_error Quote kind value name err =
     BadFlag (''invalid '' @ kind @ Quote value @ '' for '' @ name @ '': '' @ err)"

definition parse_one ::
  "(string \<Rightarrow> string) \<Rightarrow> 'z foreign_flags \<Rightarrow> string list \<Rightarrow> 'z settings \<Rightarrow> string list \<Rightarrow>
     flag_error + 'z parsed_one" where
  "parse_one Quote ff known st args =
     (case args of
        [] \<Rightarrow> Inr (FlagsEnded [])
      | s # rest \<Rightarrow>
          if length s < 2 \<or> s ! 0 \<noteq> CHR ''-'' then Inr (FlagsEnded args)
          else if s = ''--'' then Inr (FlagsEnded rest)
          else
            (let name = (if s ! 1 = CHR ''-'' then drop 2 s else drop 1 s) in
             if name ! 0 = CHR ''-'' \<or> name ! 0 = CHR ''='' then Inl (BadFlag (''bad flag syntax: '' @ s))
             else
               (let (name, value) = cut_value name in
                if name \<notin> set known then
                  (if name = ''help'' \<or> name = ''h'' then Inl HelpRequested
                   else Inl (BadFlag (''flag provided but not defined: -'' @ name)))
                else if bool_flag ff name then
                  (case value of
                     Some v \<Rightarrow>
                       (case set_flag ff name v st of
                          Inl e \<Rightarrow> Inl (value_error Quote ''boolean value '' v (''-'' @ name) e)
                        | Inr st \<Rightarrow> Inr (FlagSeen st rest))
                   | None \<Rightarrow>
                       (case set_flag ff name ''true'' st of
                          Inl e \<Rightarrow> Inl (BadFlag (''invalid boolean flag '' @ name @ '': '' @ e))
                        | Inr st \<Rightarrow> Inr (FlagSeen st rest)))
                else
                  (case (value, rest) of
                     (None, []) \<Rightarrow> Inl (BadFlag (''flag needs an argument: -'' @ name))
                   | (None, v # rest) \<Rightarrow>
                       (case set_flag ff name v st of
                          Inl e \<Rightarrow> Inl (value_error Quote ''value '' v (''flag -'' @ name) e)
                        | Inr st \<Rightarrow> Inr (FlagSeen st rest))
                   | (Some v, rest) \<Rightarrow>
                       (case set_flag ff name v st of
                          Inl e \<Rightarrow> Inl (value_error Quote ''value '' v (''flag -'' @ name) e)
                        | Inr st \<Rightarrow> Inr (FlagSeen st rest))))))"

lemma parse_one_shorter: "parse_one Quote ff known st args = Inr (FlagSeen st' rest) \<Longrightarrow> length rest < length args"
  by (auto simp: parse_one_def Let_def split: list.splits if_splits prod.splits option.splits sum.splits)

text \<open>\<^theory_text>\<open>Parse\<close>: the settings and the arguments that are no flags.\<close>

function parse_flags ::
  "(string \<Rightarrow> string) \<Rightarrow> 'z foreign_flags \<Rightarrow> string list \<Rightarrow> 'z settings \<Rightarrow> string list \<Rightarrow>
     flag_error + 'z settings \<times> string list" where
  "parse_flags Quote ff known st args =
     (case parse_one Quote ff known st args of
        Inl e \<Rightarrow> Inl e
      | Inr (FlagsEnded rest) \<Rightarrow> Inr (st, rest)
      | Inr (FlagSeen st rest) \<Rightarrow> parse_flags Quote ff known st rest)"
  by pat_completeness auto

termination
  by (relation "measure (\<lambda>(Quote, ff, known, st, args). length args)") (simp_all add: parse_one_shorter)

declare parse_flags.simps [simp del]

section \<open>Spellings\<close>

text \<open>
  A setting is written with one or two dashes, its value joined by an equals sign, as the next
  argument (not for a boolean flag), or left out (for a boolean flag, meaning true).
\<close>

datatype spelling = Joined bool | Separate bool | Switch bool

definition dashes :: "bool \<Rightarrow> string" where
  "dashes two = (if two then ''--'' else ''-'')"

fun spell :: "spelling \<Rightarrow> string \<times> string \<Rightarrow> string list" where
  "spell (Joined two) (name, value) = [dashes two @ name @ ''='' @ value]"
| "spell (Separate two) (name, value) = [dashes two @ name, value]"
| "spell (Switch two) (name, value) = [dashes two @ name]"

fun spelling_ok :: "'z foreign_flags \<Rightarrow> spelling \<Rightarrow> string \<times> string \<Rightarrow> bool" where
  "spelling_ok ff (Joined two) (name, value) = True"
| "spelling_ok ff (Separate two) (name, value) = (\<not> bool_flag ff name)"
| "spelling_ok ff (Switch two) (name, value) = (bool_flag ff name \<and> value = ''true'')"

definition flag_name :: "string \<Rightarrow> bool" where
  "flag_name name \<longleftrightarrow> name \<noteq> [] \<and> hd name \<noteq> CHR ''-'' \<and> CHR ''='' \<notin> set name"

lemma define_flags_names:
  "define_flags known names = Inr known' \<Longrightarrow> set known' = set known \<union> set names \<and>
     (\<forall>name \<in> set names. \<not> has_prefix name ''-'' \<and> CHR ''='' \<notin> set name)"
proof (induction names arbitrary: known)
  case (Cons name names)
  then obtain known1 where k: "define_flag known name = Inr known1" "define_flags known1 names = Inr known'"
    by (auto split: sum.splits)
  from k(1) have "\<not> has_prefix name ''-''" "CHR ''='' \<notin> set name" "known1 = known @ [name]"
    by (auto simp: define_flag_def split: if_splits)
  with Cons.IH [OF k(2)] show ?case by simp
qed simp

lemma all_flag_names_good:
  assumes "all_flag_names ff = Inr known" and "[] \<notin> set known"
  shows "set main_flag_names \<subseteq> set known" and "name \<in> set known \<Longrightarrow> flag_name name"
proof -
  have k: "set known = set (ff_Before ff @ main_flag_names @ ff_After ff) \<and>
      (\<forall>name \<in> set (ff_Before ff @ main_flag_names @ ff_After ff). \<not> has_prefix name ''-'' \<and> CHR ''='' \<notin> set name)"
    using define_flags_names [OF assms(1) [unfolded all_flag_names_def]] by simp
  then show "set main_flag_names \<subseteq> set known" by auto
  assume "name \<in> set known"
  with k assms(2) have "name \<noteq> []" "\<not> has_prefix name ''-''" "CHR ''='' \<notin> set name" by auto
  then show "flag_name name" by (cases name) (auto simp: flag_name_def has_prefix_def)
qed

lemma cut_value_name:
  assumes "flag_name name"
  shows "cut_value name = (name, None)" and "cut_value (name @ CHR ''='' # value) = (name, Some value)"
proof -
  obtain c cs where n: "name = c # cs" "\<And>x. x \<in> set cs \<Longrightarrow> x \<noteq> CHR ''=''"
    using assms by (cases name) (auto simp: flag_name_def)
  then have "takeWhile (\<lambda>c. c \<noteq> CHR ''='') cs = cs" "dropWhile (\<lambda>c. c \<noteq> CHR ''='') cs = []"
    by (auto simp: takeWhile_eq_all_conv dropWhile_eq_Nil_conv)
  then show "cut_value name = (name, None)" "cut_value (name @ CHR ''='' # value) = (name, Some value)"
    using n(2) by (simp_all add: cut_value_def n(1) takeWhile_append2 dropWhile_append2)
qed

text \<open>What follows the dashes is cut into name and value.\<close>

lemma parse_one_dashes:
  assumes "flag_name name" and "tail = [] \<or> hd tail = CHR ''=''" and "name \<in> set known"
    and "cut_value (name @ tail) = (name, value)"
  shows "parse_one Quote ff known st ((dashes two @ name @ tail) # rest) =
    (if bool_flag ff name then
       (case value of
          Some v \<Rightarrow> (case set_flag ff name v st of
             Inl e \<Rightarrow> Inl (value_error Quote ''boolean value '' v (''-'' @ name) e) | Inr st \<Rightarrow> Inr (FlagSeen st rest))
        | None \<Rightarrow> (case set_flag ff name ''true'' st of
             Inl e \<Rightarrow> Inl (BadFlag (''invalid boolean flag '' @ name @ '': '' @ e)) | Inr st \<Rightarrow> Inr (FlagSeen st rest)))
     else
       (case (value, rest) of
          (None, []) \<Rightarrow> Inl (BadFlag (''flag needs an argument: -'' @ name))
        | (None, v # rest) \<Rightarrow> (case set_flag ff name v st of
             Inl e \<Rightarrow> Inl (value_error Quote ''value '' v (''flag -'' @ name) e) | Inr st \<Rightarrow> Inr (FlagSeen st rest))
        | (Some v, rest) \<Rightarrow> (case set_flag ff name v st of
             Inl e \<Rightarrow> Inl (value_error Quote ''value '' v (''flag -'' @ name) e) | Inr st \<Rightarrow> Inr (FlagSeen st rest))))"
proof -
  obtain c cs where n: "name = c # cs" "c \<noteq> CHR ''-''" "c \<noteq> CHR ''=''" using assms(1) by (cases name) (auto simp: flag_name_def)
  then show ?thesis using assms(3,4) unfolding n(1) by (simp add: parse_one_def dashes_def Let_def)
qed

lemma parse_one_spell:
  assumes n: "flag_name name" and k: "name \<in> set known" and ok: "spelling_ok ff sp (name, value)"
    and set: "set_flag ff name value st = Inr st'"
  shows "parse_one Quote ff known st (spell sp (name, value) @ rest) = Inr (FlagSeen st' rest)"
proof (cases sp)
  case (Joined two)
  then show ?thesis
    using parse_one_dashes [OF n _ k cut_value_name(2) [OF n], of "value" Quote ff st two rest] set by simp
next
  case (Separate two)
  then show ?thesis
    using parse_one_dashes [OF n _ k, of "[]" None Quote ff st two "value # rest"] cut_value_name(1) [OF n] ok set by simp
next
  case (Switch two)
  then show ?thesis
    using parse_one_dashes [OF n _ k, of "[]" None Quote ff st two rest] cut_value_name(1) [OF n] ok set by simp
qed

fun apply_settings :: "'z foreign_flags \<Rightarrow> (string \<times> string) list \<Rightarrow> 'z settings \<Rightarrow> string + 'z settings" where
  "apply_settings ff [] st = Inr st"
| "apply_settings ff ((name, value) # xs) st =
     (case set_flag ff name value st of Inl e \<Rightarrow> Inl e | Inr st \<Rightarrow> apply_settings ff xs st)"

definition written :: "(spelling \<times> string \<times> string) list \<Rightarrow> string list" where
  "written xs = concat (map (\<lambda>(sp, x). spell sp x) xs)"

definition writable :: "'z foreign_flags \<Rightarrow> string list \<Rightarrow> (spelling \<times> string \<times> string) list \<Rightarrow> bool" where
  "writable ff known xs \<longleftrightarrow> list_all (\<lambda>(sp, x). fst x \<in> set known \<and> spelling_ok ff sp x) xs"

lemma parse_written:
  assumes "\<And>name. name \<in> set known \<Longrightarrow> flag_name name"
  shows "writable ff known xs \<Longrightarrow> apply_settings ff (map snd xs) st = Inr st' \<Longrightarrow>
    parse_flags Quote ff known st (written xs @ rest) = parse_flags Quote ff known st' rest"
proof (induction xs arbitrary: st)
  case Nil
  then show ?case by (simp add: written_def)
next
  case (Cons x xs)
  obtain sp name v where x: "x = (sp, name, v)" by (cases x) auto
  obtain st1 where st1: "set_flag ff name v st = Inr st1" "apply_settings ff (map snd xs) st1 = Inr st'"
    using Cons.prems(2) by (auto simp: x split: sum.splits)
  have "name \<in> set known" "spelling_ok ff sp (name, v)" "writable ff known xs"
    using Cons.prems(1) by (simp_all add: writable_def x)
  from parse_one_spell [OF assms [OF this(1)] this(1,2) st1(1), of Quote "written xs @ rest"] Cons.IH [OF this(3) st1(2)]
  show ?case by (subst parse_flags.simps) (simp add: written_def x)
qed

lemma parse_flags_ended:
  "parse_flags Quote ff known st (''--'' # rest) = Inr (st, rest)"
  "rest = [] \<or> \<not> has_prefix (hd rest) ''-'' \<Longrightarrow> parse_flags Quote ff known st rest = Inr (st, rest)"
  by (subst parse_flags.simps, cases rest; cases "hd rest"; auto simp: parse_one_def has_prefix_def)+

lemma parse_settings:
  assumes "all_flag_names ff = Inr known" and "[] \<notin> set known" and "writable ff known xs"
    and "apply_settings ff (map snd xs) st = Inr st'"
  shows "parse_flags Quote ff known st (written xs @ ''--'' # rest) = Inr (st', rest)"
    and "rest = [] \<or> \<not> has_prefix (hd rest) ''-'' \<Longrightarrow>
      parse_flags Quote ff known st (written xs @ rest) = Inr (st', rest)"
  using parse_written [OF all_flag_names_good(2) [OF assms(1,2)] assms(3,4)] parse_flags_ended by metis+

definition write_bool :: "bool \<Rightarrow> string" where
  "write_bool b = (if b then ''true'' else ''false'')"

text \<open>All five flags of the manager, as a user would write them.\<close>

definition write_flags :: "flags \<Rightarrow> string list" where
  "write_flags fl =
     written [(Joined True, ''metrics-bind-address'', metricsAddr fl),
       (Separate True, ''health-probe-bind-address'', probeAddr fl),
       (Joined True, ''leader-elect'', write_bool (enableLeaderElection fl)),
       (Joined False, ''metrics-secure'', write_bool (secureMetrics fl)),
       (Joined True, ''enable-http2'', write_bool (enableHTTP2 fl))]"

lemma parse_write_flags:
  assumes "all_flag_names ff = Inr known" and "[] \<notin> set known"
  shows "parse_flags Quote ff known (fl0, z) (write_flags fl) = Inr ((fl, z), [])"
proof -
  have "parse_bool (write_bool b) = Some b" for b by (simp add: parse_bool_def write_bool_def)
  then have "apply_settings ff [(''metrics-bind-address'', metricsAddr fl), (''health-probe-bind-address'', probeAddr fl),
      (''leader-elect'', write_bool (enableLeaderElection fl)), (''metrics-secure'', write_bool (secureMetrics fl)),
      (''enable-http2'', write_bool (enableHTTP2 fl))] (fl0, z) = Inr (fl, z)"
    by (cases fl0; cases fl) (simp add: set_flag_def set_bool_def)
  then show ?thesis
    using parse_settings(2) [OF assms, of _ "(fl0, z)" "(fl, z)" "[]" Quote] all_flag_names_good(1) [OF assms]
    unfolding write_flags_def by (simp add: writable_def main_flag_names_def bool_flag_def)
qed

section \<open>Properties\<close>

text \<open>C30:
  Settings are read back.  Whatever settings are written, each in any of its spellings, the parser
  sets exactly these, in their order, and leaves the arguments after the double dash, or from the
  first one that is no flag on.  In particular the five flags of the manager, whatever they are and
  whatever was set before, are read back into their variables.\<close>
theorem parse_flags_settings:
  assumes "all_flag_names ff = Inr known" and "[] \<notin> set known" and "writable ff known xs"
    and "apply_settings ff (map snd xs) st = Inr st'"
  shows "parse_flags Quote ff known st (written xs @ ''--'' # rest) = Inr (st', rest) \<and>
    (rest = [] \<or> \<not> has_prefix (hd rest) ''-'' \<longrightarrow>
       parse_flags Quote ff known st (written xs @ rest) = Inr (st', rest)) \<and>
    parse_flags Quote ff known (fl0, z) (write_flags fl) = Inr ((fl, z), [])"
  using parse_settings [OF assms] parse_write_flags [OF assms(1,2)] by blast

text \<open>The flags that controller-runtime and its zap options define.\<close>

definition run_foreign :: "unit foreign_flags" where
  "run_foreign = \<lparr>ff_Before = [''kubeconfig''], ff_After = [''zap-devel'', ''zap-encoder'', ''zap-log-level'',
     ''zap-stacktrace-level'', ''zap-time-encoding''], ff_IsBool = (\<lambda>name. name = ''zap-devel''),
     ff_Set = (\<lambda>name v z. Inr z)\<rparr>"

lemma run_known:
  "all_flag_names run_foreign = Inr (ff_Before run_foreign @ main_flag_names @ ff_After run_foreign)"
  by code_simp

theorem parse_flags_settings_witness:
  "parse_flags id run_foreign (ff_Before run_foreign @ main_flag_names @ ff_After run_foreign) (default_flags, ())
     ([''-leader-elect'', ''--zap-log-level'', ''debug'', ''--metrics-secure=f''] @ ''--'' # [''-x'']) =
   Inr ((default_flags\<lparr>enableLeaderElection := True, secureMetrics := False\<rparr>, ()), [''-x''])"
proof -
  let ?known = "ff_Before run_foreign @ main_flag_names @ ff_After run_foreign"
  let ?xs = "[(Switch False, ''leader-elect'', ''true''), (Separate True, ''zap-log-level'', ''debug''),
      (Joined True, ''metrics-secure'', ''f'')]"
  have "[] \<notin> set ?known" "writable run_foreign ?known ?xs"
    "apply_settings run_foreign (map snd ?xs) (default_flags, ()) =
       Inr (default_flags\<lparr>enableLeaderElection := True, secureMetrics := False\<rparr>, ())"
    "written ?xs = [''-leader-elect'', ''--zap-log-level'', ''debug'', ''--metrics-secure=f'']"
    by (simp_all add: run_foreign_def main_flag_names_def writable_def bool_flag_def set_flag_def set_bool_def
        parse_bool_def written_def dashes_def)
  with parse_flags_settings [OF run_known this(1-3), where Quote = id and rest = "[''-x'']"] show ?thesis by simp
qed

end
