(* ===== verification/Process.thy ===== *)
theory Process
  imports Command_Line Validation_Result
begin

text \<open>
  The whole process (\<^theory_text>\<open>cmd/main.go\<close> with the init functions of \<^theory_text>\<open>pkg/helm\<close> and \<^theory_text>\<open>api/v1alpha1\<close>): the
  registration of the API types with the scheme, the command line, and the start of the manager.  The scheme and the
  builder's functions are controller-runtime's; adding types is an event with an answer.
\<close>

section \<open>The scheme\<close>

record scheme_builder =
  sb_GroupVersion :: "string \<times> string"
  sb_Types :: "string list list"

definition scheme_Register :: "string list \<Rightarrow> scheme_builder \<Rightarrow> scheme_builder" where
  "scheme_Register objects b = b\<lparr>sb_Types := sb_Types b @ [objects]\<rparr>"

definition NewSchemeBuilder :: scheme_builder where
  "NewSchemeBuilder = \<lparr>sb_GroupVersion = (Group, ''v1alpha1''), sb_Types = []\<rparr>"

text \<open>The init functions of the two files, which run in the order of the file names.\<close>

definition init_validationresult_types :: "scheme_builder \<Rightarrow> scheme_builder" where
  "init_validationresult_types = scheme_Register [''ValidationResult'', ''ValidationResultList'']"

definition init_validatorconfig_types :: "scheme_builder \<Rightarrow> scheme_builder" where
  "init_validatorconfig_types = scheme_Register [''ValidatorConfig'', ''ValidatorConfigList'']"

definition SchemeBuilder :: scheme_builder where
  "SchemeBuilder = init_validatorconfig_types (init_validationresult_types NewSchemeBuilder)"

fun add_types :: "main_env \<Rightarrow> string \<times> string \<Rightarrow> string list list \<Rightarrow> goerror option main" where
  "add_types env gv [] = go_return None"
| "add_types env gv (objects # rest) =
     go_bind (go_call (MgAddKnownTypes gv objects) (\<lambda>h. me_Call env h (MgAddKnownTypes gv objects))) (\<lambda>err.
     case err of Some e \<Rightarrow> go_return (Some e) | None \<Rightarrow> add_types env gv rest)"

definition AddToScheme :: "main_env \<Rightarrow> goerror option main" where
  "AddToScheme env = add_types env (sb_GroupVersion SchemeBuilder) (sb_Types SchemeBuilder)"

text \<open>\<^theory_text>\<open>utilruntime.Must\<close> panics with the error.\<close>

definition runtime_Must :: "goerror option \<Rightarrow> unit main" where
  "runtime_Must err = (case err of None \<Rightarrow> go_return () | Some e \<Rightarrow> go_panic (PanicValue (err_text e)))"

text \<open>The init function of \<^theory_text>\<open>pkg/helm\<close> reads the variable HELM_PRESERVE_FILES.\<close>

definition helm_init :: "main_env \<Rightarrow> unit main" where
  "helm_init env =
     (if me_PreserveFiles env = ''true'' then go_bind go_glob (\<lambda>g. go_set_glob (g\<lparr>preserve_files := True\<rparr>))
      else go_return ())"

definition main_init :: "main_env \<Rightarrow> unit main" where
  "main_init env =
     go_bind (go_call MgAddClientGo (\<lambda>h. me_Call env h MgAddClientGo)) (\<lambda>err.
     go_bind (runtime_Must err) (\<lambda>_.
     go_bind (AddToScheme env) runtime_Must))"

section \<open>The process\<close>

text \<open>
  The flag set ends the process on an error of its own: with code 0 after a request for help, with
  code 2 otherwise, after the usage has been printed.
\<close>

definition main_args ::
  "main_env \<Rightarrow> (string \<Rightarrow> string) \<Rightarrow> 'z foreign_flags \<Rightarrow> 'z \<Rightarrow> string list \<Rightarrow> nat main" where
  "main_args env Quote ff z args =
     (case all_flag_names ff of
        Inl p \<Rightarrow> go_panic (PanicValue p)
      | Inr known \<Rightarrow>
          (case parse_flags Quote ff known (default_flags, z) args of
             Inl HelpRequested \<Rightarrow> go_bind (go_call (MgUsage []) (\<lambda>_. ())) (\<lambda>_. go_return 0)
           | Inl (BadFlag msg) \<Rightarrow> go_bind (go_call (MgUsage msg) (\<lambda>_. ())) (\<lambda>_. go_return 2)
           | Inr ((fl, z), rest) \<Rightarrow> main_run env fl))"

definition go_process ::
  "main_env \<Rightarrow> (string \<Rightarrow> string) \<Rightarrow> 'z foreign_flags \<Rightarrow> 'z \<Rightarrow> string list \<Rightarrow> nat main" where
  "go_process env Quote ff z args =
     go_bind (helm_init env) (\<lambda>_. go_bind (main_init env) (\<lambda>_. main_args env Quote ff z args))"

section \<open>Lemmas\<close>

definition init_steps :: "main_event list" where
  "init_steps = [MgAddClientGo,
     MgAddKnownTypes (''validation.spectrocloud.labs'', ''v1alpha1'') [''ValidationResult'', ''ValidationResultList''],
     MgAddKnownTypes (''validation.spectrocloud.labs'', ''v1alpha1'') [''ValidatorConfig'', ''ValidatorConfigList'']]"

lemma main_init_run:
  "all_succeed env (hist s) init_steps \<Longrightarrow> wp (main_init env) Q s = Q () (s\<lparr>hist := hist s @ init_steps\<rparr>)"
  by (simp add: main_init_def AddToScheme_def SchemeBuilder_def init_validationresult_types_def
      init_validatorconfig_types_def scheme_Register_def NewSchemeBuilder_def init_steps_def runtime_Must_def
      Group_def wp_rules)

lemma main_init_panics:
  assumes "\<not> all_succeed env (hist s) init_steps"
  shows "\<exists>text s'. main_init env s = (Inl (PanicValue text), s')"
  using assms
  by (auto simp: main_init_def AddToScheme_def SchemeBuilder_def init_validationresult_types_def
      init_validatorconfig_types_def scheme_Register_def NewSchemeBuilder_def init_steps_def runtime_Must_def
      Group_def go_eval split: option.splits)

lemma helm_init_run:
  "wp (helm_init env) Q s =
     Q () (s\<lparr>glob := (glob s)\<lparr>preserve_files := preserve_files (glob s) \<or> me_PreserveFiles env = ''true''\<rparr>\<rparr>)"
  by (cases s; cases "glob s") (simp add: helm_init_def wp_rules)

text \<open>Nothing after the init function changes what helm's client does with its files.\<close>

lemma keeps_preserve_files: "keeps (\<lambda>s. preserve_files (glob s)) (main_args env Quote ff z args)"
proof -
  have "keeps (\<lambda>s. preserve_files (glob s)) (main_run env fl)" for fl
  proof -
    have c: "keeps (\<lambda>s. preserve_files (glob s)) (NewClient d)" for d by (simp add: keeps_def NewClient_def go_eval)
    show ?thesis by (auto simp: main_run_def main_serve_def must_def exit_with_def intro!: frame_intros c)
  qed
  then show ?thesis
    by (auto simp: main_args_def intro!: frame_intros split: sum.split flag_error.split)
qed

lemma main_args_run:
  assumes "all_flag_names ff = Inr known"
  shows "wp (main_args env Quote ff z args) (\<lambda>code s'.
    case parse_flags Quote ff known (default_flags, z) args of
      Inl HelpRequested \<Rightarrow> code = 0 \<and> hist s' = hist s @ [MgUsage []]
    | Inl (BadFlag msg) \<Rightarrow> code = 2 \<and> hist s' = hist s @ [MgUsage msg]
    | Inr ((fl, z'), rest) \<Rightarrow>
        if all_succeed env (hist s) (start_steps env fl) \<and> (\<exists>d. sink_timeout env = Inr d)
        then served env fl (hist s @ start_steps env fl) code s' else stopped env fl (hist s) code s') s"
  using main_run_outcome [of env _ s]
  by (auto simp: main_args_def assms wp_rules split: sum.split flag_error.split prod.split)

section \<open>Properties\<close>

text \<open>C29:
  The life of the process, from its arguments to its exit code, when the API types can be registered.
  A request for help ends it with code 0 and a bad command line with code 2, in both cases after the
  usage and before anything is started.  Otherwise it goes through the steps of \<open>start_steps\<close> with the
  flags as they were parsed: to the end, with code 0 and the timeout of the sinks set, when every step
  succeeds and the timeout can be read, and else, with code 1, to the first step that fails and its
  own message, or to the three steps before the timeout and the message that it cannot be parsed.  The helm client keeps its temporary files only when HELM_PRESERVE_FILES is true.\<close>
theorem process_outcome:
  assumes "all_succeed env (hist s) init_steps" and "all_flag_names ff = Inr known"
  shows "wp (go_process env Quote ff z args) (\<lambda>code s'.
    preserve_files (glob s') = (preserve_files (glob s) \<or> me_PreserveFiles env = ''true'') \<and>
    (case parse_flags Quote ff known (default_flags, z) args of
      Inl HelpRequested \<Rightarrow> code = 0 \<and> hist s' = hist s @ init_steps @ [MgUsage []]
    | Inl (BadFlag msg) \<Rightarrow> code = 2 \<and> hist s' = hist s @ init_steps @ [MgUsage msg]
    | Inr ((fl, z'), rest) \<Rightarrow>
        if all_succeed env (hist s @ init_steps) (start_steps env fl) \<and> (\<exists>d. sink_timeout env = Inr d)
        then code = 0 \<and> hist s' = hist s @ init_steps @ start_steps env fl \<and>
          sink_timeout env = Inr (hc_Timeout (default_client (glob s')))
        else code = 1 \<and> failed_start env fl (hist s @ init_steps) (hist s'))) s" (is "wp _ ?Q s")
proof -
  let ?s = "s\<lparr>glob := (glob s)\<lparr>preserve_files := preserve_files (glob s) \<or> me_PreserveFiles env = ''true''\<rparr>,
    hist := hist s @ init_steps\<rparr>"
  obtain code s' where run: "main_args env Quote ff z args ?s = (Inr code, s')" and
    out: "case parse_flags Quote ff known (default_flags, z) args of
      Inl HelpRequested \<Rightarrow> code = 0 \<and> hist s' = hist ?s @ [MgUsage []]
    | Inl (BadFlag msg) \<Rightarrow> code = 2 \<and> hist s' = hist ?s @ [MgUsage msg]
    | Inr ((fl, z'), rest) \<Rightarrow>
        if all_succeed env (hist ?s) (start_steps env fl) \<and> (\<exists>d. sink_timeout env = Inr d)
        then served env fl (hist ?s @ start_steps env fl) code s' else stopped env fl (hist ?s) code s'"
    using wp_returns [OF main_args_run [OF assms(2)]] by blast
  have "preserve_files (glob s') = preserve_files (glob ?s)" using keepsD [OF keeps_preserve_files run] .
  moreover have "wp (main_args env Quote ff z args) Q ?s = Q code s'" for Q by (simp add: wp_def run)
  then have "wp (go_process env Quote ff z args) Q s = Q code s'" for Q
    using assms(1) by (simp add: go_process_def wp_bind helm_init_run main_init_run)
  ultimately have p: "preserve_files (glob s') = (preserve_files (glob s) \<or> me_PreserveFiles env = ''true'')"
    and w: "wp (go_process env Quote ff z args) ?Q s = ?Q code s'" by simp_all
  show ?thesis
  proof (cases "parse_flags Quote ff known (default_flags, z) args")
    case (Inl e)
    then show ?thesis unfolding w using out p by (cases e) simp_all
  next
    case (Inr r)
    obtain fl z' rest where "r = ((fl, z'), rest)" by (cases r) auto
    then show ?thesis unfolding w using out p Inr by (simp add: served_def stopped_def split: if_splits)
  qed
qed

text \<open>A start with every flag of the manager on the command line.\<close>

definition run_flags :: flags where
  "run_flags = \<lparr>metricsAddr = '':8443'', probeAddr = '':8081'', enableLeaderElection = True, secureMetrics = True,
     enableHTTP2 = False\<rparr>"

definition run_start :: "(main_event, globals, unit) gostate" where
  "run_start = \<lparr>hist = [], glob = test_globals, obj = ()\<rparr>"

lemma test_env_succeeds: "all_succeed test_main_env h es"
  by (induction es arbitrary: h) (simp_all add: test_main_env_def)

theorem process_outcome_witness:
  "wp (go_process test_main_env id run_foreign () (write_flags run_flags))
     (\<lambda>code s'. \<not> preserve_files (glob s') \<and> code = 0 \<and>
       hist s' = init_steps @ start_steps test_main_env run_flags \<and>
       hc_Timeout (default_client (glob s')) = 30000000000) run_start"
proof -
  have n: "[] \<notin> set (ff_Before run_foreign @ main_flag_names @ ff_After run_foreign)"
    by (simp add: run_foreign_def main_flag_names_def)
  have e: "me_PreserveFiles test_main_env = []" by (simp add: test_main_env_def)
  have "sink_timeout test_main_env = Inr 30000000000"
    using sink_timeout_needs_unit [of 1 test_main_env] by (simp add: test_main_env_def)
  then show ?thesis
    using process_outcome [OF test_env_succeeds run_known, where s = run_start and Quote = id and z = "()"
      and args = "write_flags run_flags"]
    by (simp add: parse_write_flags [OF run_known n] test_env_succeeds e run_start_def test_globals_def)
qed

end
