(* ===== verification/Calendar.thy ===== *)
theory Calendar
  imports Main
begin

text \<open>
  The Gregorian calendar as Go's package time computes it, for the dates of Helm releases
  (\<^theory_text>\<open>pkg/helm/release/time.go\<close>).  Days are counted from 1 January of year 1.  The library counts
  from a year that is a multiple of 400 years earlier, so that its numbers are unsigned; with
  division that rounds down the shift matters only for years before that.  What comes from the
  arguments of \<^theory_text>\<open>Date\<close> wraps as 64-bit numbers do.  The lemmas compare the library's cycles of
  400, 100, 4 and 1 years with the usual rule for leap years, and show that going from a date to a
  day and back loses nothing, in both directions.
\<close>

section \<open>The library's functions\<close>

definition is_leap :: "int \<Rightarrow> bool" where
  "is_leap year \<longleftrightarrow> year mod 4 = 0 \<and> (year mod 100 \<noteq> 0 \<or> year mod 400 = 0)"

text \<open>\<^theory_text>\<open>daysBefore[m]\<close>: the days of a year that is not a leap year before month \<open>m + 1\<close>.\<close>

definition days_before :: "int list" where
  "days_before = [0, 31, 59, 90, 120, 151, 181, 212, 243, 273, 304, 334, 365]"

definition days_before_month :: "int \<Rightarrow> int" where
  "days_before_month month = days_before ! nat (month - 1)"

text \<open>\<^theory_text>\<open>daysSinceEpoch\<close>: the days before a year.\<close>

definition days_since_epoch :: "int \<Rightarrow> int" where
  "days_since_epoch year =
     (let y = year - 1;
          n = y div 400; y = y - 400 * n; d = 146097 * n;
          n = y div 100; y = y - 100 * n; d = d + 36524 * n;
          n = y div 4; y = y - 4 * n; d = d + 1461 * n
      in d + 365 * y)"

text \<open>The day of a date whose month is in its range; the day of the month may be anything.\<close>

definition day_number :: "int \<Rightarrow> int \<Rightarrow> int \<Rightarrow> int" where
  "day_number year month day =
     days_since_epoch year + days_before_month month +
       (if is_leap year \<and> month \<ge> 3 then 1 else 0) + (day - 1)"

text \<open>The year and the day of the year, from \<^theory_text>\<open>absDate\<close>.\<close>

definition year_of_days :: "int \<Rightarrow> int \<times> int" where
  "year_of_days d =
     (let n = d div 146097; y = 400 * n; d = d - 146097 * n;
          n = d div 36524; n = n - n div 4; y = y + 100 * n; d = d - 36524 * n;
          n = d div 1461; y = y + 4 * n; d = d - 1461 * n;
          n = d div 365; n = n - n div 4; y = y + n; d = d - 365 * n
      in (y + 1, d))"

text \<open>The month and the day of the month, from \<^theory_text>\<open>absDate\<close>: a guess of 31 days a month, corrected.\<close>

definition month_of_yday :: "bool \<Rightarrow> int \<Rightarrow> int \<times> int" where
  "month_of_yday leap yday =
     (if leap \<and> yday = 31 + 29 - 1 then (2, 29)
      else
        (let day = (if leap \<and> yday > 31 + 29 - 1 then yday - 1 else yday);
             month = day div 31;
             e = days_before ! nat (month + 1);
             (month, b) = (if day \<ge> e then (month + 1, e) else (month, days_before ! nat month))
         in (month + 1, day - b + 1)))"

definition civil :: "int \<Rightarrow> int \<times> int \<times> int" where
  "civil d = (let (year, yday) = year_of_days d in (year, month_of_yday (is_leap year) yday))"

text \<open>Go's \<^theory_text>\<open>int\<close> and \<^theory_text>\<open>int64\<close>: signed numbers of 64 bits, whose operations wrap.\<close>

definition go_int :: "int \<Rightarrow> int" where
  "go_int i = (i + 2 ^ 63) mod 2 ^ 64 - 2 ^ 63"

text \<open>
  \<^theory_text>\<open>norm\<close>: the excess of the low part is carried to the high part.  The dividends are not negative
  even when the negation wraps.
\<close>

definition norm_carry :: "int \<Rightarrow> int \<Rightarrow> int \<Rightarrow> int \<times> int" where
  "norm_carry hi lo base =
     (let (hi, lo) =
        (if lo < 0 then
           (let n = go_int (go_int (go_int (- lo) - 1) div base + 1) in (go_int (hi - n), go_int (lo + n * base)))
         else (hi, lo)) in
      if lo \<ge> base then (let n = lo div base in (go_int (hi + n), go_int (lo - n * base))) else (hi, lo))"

text \<open>
  The day of a date for any year of 64 bits: the library shifts the year by \<^theory_text>\<open>absoluteZeroYear\<close>, which is
  1 modulo 400, and takes the result as unsigned.
\<close>

definition shifted_year :: "int \<Rightarrow> int" where
  "shifted_year year = (year + 292277022399) mod 2 ^ 64 - 292277022399"

definition go_day_number :: "int \<Rightarrow> int \<Rightarrow> int \<Rightarrow> int" where
  "go_day_number year month day =
     days_since_epoch (shifted_year year) + days_before_month month +
       (if is_leap year \<and> month \<ge> 3 then 1 else 0) + (day - 1)"

text \<open>\<^theory_text>\<open>daysIn\<close>.\<close>

definition days_in :: "int \<Rightarrow> int \<Rightarrow> int" where
  "days_in month year =
     (if month = 2 \<and> is_leap year then 29
      else days_before ! nat month - days_before ! nat (month - 1))"

section \<open>Dates\<close>

definition valid_date :: "int \<Rightarrow> int \<Rightarrow> int \<Rightarrow> bool" where
  "valid_date year month day \<longleftrightarrow> 1 \<le> month \<and> month \<le> 12 \<and> 1 \<le> day \<and> day \<le> days_in month year"

lemma div_mod_eqI:
  fixes x :: int
  assumes "x = k * q + r" and "0 \<le> r" and "r < k"
  shows "x div k = q" and "x mod k = r"
  using assms int_div_pos_eq [of x k q r] int_mod_pos_eq [of x k q r] by auto

lemma div_mod_bounds:
  fixes x :: int
  assumes "0 < k"
  shows "0 \<le> x - k * (x div k)" and "x - k * (x div k) < k"
  using assms by (simp_all add: minus_mult_div_eq_mod)

lemma go_int_id: "- (2 ^ 63) \<le> i \<Longrightarrow> i < 2 ^ 63 \<Longrightarrow> go_int i = i"
  by (simp add: go_int_def)

lemma norm_carry_normal: "0 \<le> lo \<Longrightarrow> lo < base \<Longrightarrow> norm_carry hi lo base = (hi, lo)"
  by (simp add: norm_carry_def)

lemma go_day_number: "\<bar>year\<bar> \<le> 1000000000 \<Longrightarrow> go_day_number year month day = day_number year month day"
  by (simp add: go_day_number_def day_number_def shifted_year_def)

text \<open>The cycles count a leap day every 4 years, but not every 100, and yet every 400.\<close>

lemma days_since_epoch_rule:
  "days_since_epoch year = 365 * (year - 1) + (year - 1) div 4 - (year - 1) div 100 + (year - 1) div 400"
proof -
  define y where "y = year - 1"
  define a where "a = y div 400" define y1 where "y1 = y - 400 * a"
  define b where "b = y1 div 100" define y2 where "y2 = y1 - 100 * b"
  define c where "c = y2 div 4" define e where "e = y2 - 4 * c"
  have r: "0 \<le> y1" "y1 < 400" "0 \<le> y2" "y2 < 100" "0 \<le> e" "e < 4"
    using div_mod_bounds [of 400 y, folded a_def, folded y1_def] div_mod_bounds [of 100 y1, folded b_def, folded y2_def]
      div_mod_bounds [of 4 y2, folded c_def, folded e_def] by simp_all
  have "y = 100 * (4 * a + b) + y2" "y = 4 * (100 * a + 25 * b + c) + e" by (simp_all add: y1_def y2_def e_def)
  from div_mod_eqI(1) [OF this(1) r(3,4)] div_mod_eqI(1) [OF this(2) r(5,6)]
  have "y div 100 = 4 * a + b" "y div 4 = 100 * a + 25 * b + c" .
  then show ?thesis
    unfolding days_since_epoch_def Let_def y_def [symmetric] a_def [symmetric] y1_def [symmetric] b_def [symmetric]
      y2_def [symmetric] c_def [symmetric] e_def [symmetric]
    using y1_def y2_def e_def by simp
qed

lemma div_succ: "0 < k \<Longrightarrow> (x + 1) div k = x div k + (if (x + 1) mod k = 0 then 1 else 0)" for x :: int
proof -
  assume k: "0 < k"
  define q where "q = (x + 1) div k" define r where "r = (x + 1) mod k"
  have x: "x = k * q + r - 1" "0 \<le> r" "r < k" using k by (simp_all add: q_def r_def)
  show ?thesis
  proof (cases "r = 0")
    case True
    then have "x = k * (q - 1) + (k - 1)" using x by (simp add: algebra_simps)
    then have "x div k = q - 1" by (rule div_mod_eqI(1)) (use k in simp_all)
    then show ?thesis using True by (simp flip: q_def r_def)
  next
    case False
    then have "x = k * q + (r - 1)" using x by simp
    then have "x div k = q" by (rule div_mod_eqI(1)) (use x False in simp_all)
    then show ?thesis using False by (simp flip: q_def r_def)
  qed
qed

lemma leap_count:
  "(R \<Longrightarrow> Q) \<Longrightarrow> (Q \<Longrightarrow> P) \<Longrightarrow>
     (if P \<and> (\<not> Q \<or> R) then 366 else 365 :: int) =
       365 + (if P then 1 else 0) - (if Q then 1 else 0) + (if R then 1 else 0)"
  by auto

lemma year_sum:
  fixes x :: int
  shows "x' = 365 * y + p' - q' + r' \<Longrightarrow> x = 365 * (y - 1) + p - q + r \<Longrightarrow> p' = p + i \<Longrightarrow> q' = q + j \<Longrightarrow>
    r' = r + k \<Longrightarrow> z = 365 + i - j + k \<Longrightarrow> x' = x + z"
  by simp

lemma year_length: "days_since_epoch (year + 1) = days_since_epoch year + (if is_leap year then 366 else 365)"
proof -
  have s: "year div k = (year - 1) div k + (if year mod k = 0 then 1 else 0)" if "0 < k" for k
    using div_succ [OF that, of "year - 1"] by simp
  have m: "year mod 400 = 0 \<longrightarrow> year mod 100 = 0" "year mod 100 = 0 \<longrightarrow> year mod 4 = 0" by presburger+
  have "days_since_epoch (year + 1) = 365 * year + year div 4 - year div 100 + year div 400"
    by (simp add: days_since_epoch_rule)
  from year_sum [OF this days_since_epoch_rule s s s leap_count [OF m [THEN mp]]]
  show ?thesis by (simp add: is_leap_def)
qed

lemma days_since_epoch_mono: "y \<le> y' \<Longrightarrow> days_since_epoch y + 365 * (y' - y) \<le> days_since_epoch y'"
  by (induction y' rule: int_ge_induct) (simp_all add: year_length algebra_simps)

lemma year_of_days:
  assumes "year_of_days d = (year, yday)"
  shows "d = days_since_epoch year + yday" and "0 \<le> yday" and "yday < (if is_leap year then 366 else 365)"
proof -
  define a where "a = d div 146097" define d1 where "d1 = d - 146097 * a"
  define n where "n = d1 div 36524" define b where "b = n - n div 4" define d2 where "d2 = d1 - 36524 * b"
  define c where "c = d2 div 1461" define d3 where "d3 = d2 - 1461 * c"
  define m where "m = d3 div 365" define e where "e = m - m div 4" define d4 where "d4 = d3 - 365 * e"
  have y: "year = 400 * a + 100 * b + 4 * c + e + 1" "yday = d4"
    using assms unfolding year_of_days_def Let_def a_def [symmetric] d1_def [symmetric] n_def [symmetric] b_def [symmetric]
      d2_def [symmetric] c_def [symmetric] d3_def [symmetric] m_def [symmetric] e_def [symmetric] d4_def [symmetric]
    by simp_all
  have 1: "0 \<le> d1" "d1 < 146097" using div_mod_bounds [of 146097 d, folded a_def, folded d1_def] by simp_all
  have n: "0 \<le> d1 - 36524 * n" "d1 - 36524 * n < 36524" using div_mod_bounds [of 36524 d1, folded n_def] by simp_all
  from 1 n have "0 \<le> n" "n \<le> 4" by linarith+
  then have b: "b = (if n = 4 then 3 else n)" "0 \<le> b" "b \<le> 3" by (auto simp: b_def)
  then have 2: "0 \<le> d2" "d2 < 36525" "b < 3 \<longrightarrow> d2 < 36524"
    using 1 n by (auto simp: d2_def split: if_splits)
  have 3: "0 \<le> d3" "d3 < 1461" using div_mod_bounds [of 1461 d2, folded c_def, folded d3_def] by simp_all
  with 2 have c: "0 \<le> c" "c \<le> 24" "c = 24 \<and> b < 3 \<longrightarrow> d3 < 1460" unfolding d3_def by linarith+
  have m: "0 \<le> d3 - 365 * m" "d3 - 365 * m < 365" using div_mod_bounds [of 365 d3, folded m_def] by simp_all
  from 3 m have "0 \<le> m" "m \<le> 4" by linarith+
  then have e: "e = (if m = 4 then 3 else m)" "0 \<le> e" "e \<le> 3" by (auto simp: e_def)
  then have 4: "0 \<le> d4" "d4 < 366" "d4 = 365 \<longrightarrow> e = 3 \<and> d3 = 1460"
    using 3 m by (auto simp: d4_def split: if_splits)
  have "year - 1 = 400 * a + (100 * b + 4 * c + e)" "year - 1 = 100 * (4 * a + b) + (4 * c + e)"
    "year - 1 = 4 * (100 * a + 25 * b + c) + e" by (simp_all add: y(1))
  note q = this [THEN div_mod_eqI(1)]
  have "(year - 1) div 400 = a" by (rule q(1)) (use b(2,3) c e(2,3) in linarith)+
  moreover have "(year - 1) div 100 = 4 * a + b" by (rule q(2)) (use c e(2,3) in linarith)+
  moreover have "(year - 1) div 4 = 100 * a + 25 * b + c" by (rule q(3)) (use e(2,3) in linarith)+
  ultimately have "days_since_epoch year = 146097 * a + 36524 * b + 1461 * c + 365 * e"
    by (simp add: days_since_epoch_rule y(1))
  then show "d = days_since_epoch year + yday" by (simp add: y(2) d4_def d3_def d2_def d1_def)
  show "0 \<le> yday" using 4 by (simp add: y(2))
  have leap: "is_leap year" if "e = 3" "c \<noteq> 24 \<or> b = 3"
  proof -
    have 4: "year mod 4 = 0" using that by (simp add: y(1))
    have "year = 100 * (4 * a + b) + (4 * c + 4)"
      using that by (simp add: y(1))
    then have "year mod 100 \<noteq> 0" if "c \<noteq> 24" using that c div_mod_eqI(2) [of year 100 "4 * a + b" "4 * c + 4"] by simp
    moreover have "year mod 400 = 0" if "c = 24"
    proof -
      have "year = 400 * (a + 1) + 0" using \<open>c \<noteq> 24 \<or> b = 3\<close> that \<open>e = 3\<close> by (simp add: y(1))
      then show ?thesis by (rule div_mod_eqI(2)) simp_all
    qed
    ultimately show ?thesis using 4 unfolding is_leap_def by metis
  qed
  show "yday < (if is_leap year then 366 else 365)"
  proof (cases "d4 = 365")
    case True
    then have "is_leap year" using 4 b(3) c by (intro leap) auto
    then show ?thesis using 4 by (simp add: y(2))
  next
    case False
    then show ?thesis using 4 by (simp add: y(2))
  qed
qed

lemma year_of_days_unique:
  assumes "0 \<le> yday" and "yday < (if is_leap year then 366 else 365)"
  shows "year_of_days (days_since_epoch year + yday) = (year, yday)"
proof -
  obtain y q where yq: "year_of_days (days_since_epoch year + yday) = (y, q)" by force
  note d = year_of_days [OF yq]
  have "y = year"
  proof (rule ccontr)
    assume "y \<noteq> year"
    then consider "y + 1 \<le> year" | "year + 1 \<le> y" by linarith
    then show False
    proof cases
      case 1
      then show False using days_since_epoch_mono [OF 1] year_length [of y] d assms by (auto split: if_splits)
    next
      case 2
      then show False using days_since_epoch_mono [OF 2] year_length [of year] d assms by (auto split: if_splits)
    qed
  qed
  then show ?thesis using yq d(1) by simp
qed

text \<open>The table of the months, checked for every day of a year and for every date of a year.\<close>

definition month_days :: "bool \<Rightarrow> int \<Rightarrow> int" where
  "month_days leap month =
     (if month = 2 \<and> leap then 29 else days_before ! nat month - days_before ! nat (month - 1))"

definition yday_of :: "bool \<Rightarrow> int \<Rightarrow> int \<Rightarrow> int" where
  "yday_of leap month day = days_before_month month + (if leap \<and> month \<ge> 3 then 1 else 0) + (day - 1)"

definition yday_ok :: "bool \<Rightarrow> int \<Rightarrow> bool" where
  "yday_ok leap yday =
     (let (month, day) = month_of_yday leap yday in
      1 \<le> month \<and> month \<le> 12 \<and> 1 \<le> day \<and> day \<le> month_days leap month \<and> yday_of leap month day = yday)"

definition month_ok :: "bool \<Rightarrow> int \<Rightarrow> bool" where
  "month_ok leap month \<longleftrightarrow>
     list_all (\<lambda>day. month_of_yday leap (yday_of leap month day) = (month, day) \<and>
       0 \<le> yday_of leap month day \<and> yday_of leap month day < (if leap then 366 else 365))
       [1..month_days leap month]"

lemma tables_ok:
  "list_all (yday_ok False) [0..364]" "list_all (yday_ok True) [0..365]"
  "list_all (month_ok False) [1..12]" "list_all (month_ok True) [1..12]"
  by code_simp+

lemma yday_ok: "0 \<le> yday \<Longrightarrow> yday < (if leap then 366 else 365) \<Longrightarrow> yday_ok leap yday"
  using tables_ok(1,2) by (cases leap) (auto simp: list_all_iff)

lemma month_ok:
  "1 \<le> month \<Longrightarrow> month \<le> 12 \<Longrightarrow> 1 \<le> day \<Longrightarrow> day \<le> month_days leap month \<Longrightarrow>
     month_of_yday leap (yday_of leap month day) = (month, day) \<and>
       0 \<le> yday_of leap month day \<and> yday_of leap month day < (if leap then 366 else 365)"
  using tables_ok(3,4) by (cases leap) (auto simp: list_all_iff month_ok_def)

lemma day_number_yday: "day_number year month day = days_since_epoch year + yday_of (is_leap year) month day"
  by (simp add: day_number_def yday_of_def)

lemma days_in_month_days: "days_in month year = month_days (is_leap year) month"
  by (simp add: days_in_def month_days_def)

lemma civil_day_number:
  "valid_date year month day \<Longrightarrow> civil (day_number year month day) = (year, month, day)"
  using month_ok [of month day "is_leap year"]
  by (simp add: civil_def valid_date_def day_number_yday days_in_month_days year_of_days_unique)

lemma day_number_civil:
  assumes "civil d = (year, month, day)"
  shows "valid_date year month day" and "day_number year month day = d"
proof -
  obtain y q where yq: "year_of_days d = (y, q)" by force
  note d = year_of_days [OF yq]
  have "y = year" "month_of_yday (is_leap year) q = (month, day)" using assms yq by (auto simp: civil_def)
  then have "1 \<le> month \<and> month \<le> 12 \<and> 1 \<le> day \<and> day \<le> month_days (is_leap year) month \<and>
      yday_of (is_leap year) month day = q"
    using yday_ok [of q "is_leap year"] d by (simp add: yday_ok_def)
  then show "valid_date year month day" "day_number year month day = d"
    using d(1) \<open>y = year\<close> by (simp_all add: valid_date_def days_in_month_days day_number_yday)
qed

lemma day_number_add: "day_number year month (day + k) = day_number year month day + k"
  by (simp add: day_number_def)

definition length_ok :: "bool \<Rightarrow> int \<Rightarrow> bool" where
  "length_ok leap month \<longleftrightarrow> 28 \<le> month_days leap month \<and> month_days leap month \<le> 31 \<and>
     (if month \<le> 11 then yday_of leap month (month_days leap month + 1) = yday_of leap (month + 1) 1
      else month_days leap month = 31)"

lemma lengths_ok: "list_all (length_ok False) [1..12]" "list_all (length_ok True) [1..12]"
  by code_simp+

lemma length_ok: "1 \<le> month \<Longrightarrow> month \<le> 12 \<Longrightarrow> length_ok leap month"
  using lengths_ok by (cases leap) (auto simp: list_all_iff)

lemma days_in_bounds:
  assumes "1 \<le> month" and "month \<le> 12"
  shows "28 \<le> days_in month year" and "days_in month year \<le> 31" and "days_in month year < 31 \<Longrightarrow> month \<le> 11"
  using length_ok [OF assms, of "is_leap year"]
  by (auto simp: length_ok_def days_in_month_days split: if_splits)

lemma days_before_bounds: "1 \<le> month \<Longrightarrow> month \<le> 12 \<Longrightarrow> 0 \<le> days_before_month month \<and> days_before_month month \<le> 334"
proof -
  have "list_all (\<lambda>m. 0 \<le> days_before_month m \<and> days_before_month m \<le> 334) [1..12]" by code_simp
  then show "1 \<le> month \<Longrightarrow> month \<le> 12 \<Longrightarrow> 0 \<le> days_before_month month \<and> days_before_month month \<le> 334"
    by (simp add: list_all_iff)
qed

lemma day_number_bounds:
  assumes "\<bar>year\<bar> \<le> 1000000000" and "1 \<le> month" "month \<le> 12" and "\<bar>day\<bar> \<le> 1000000000"
  shows "\<bar>day_number year month day\<bar> \<le> 400000000000"
proof -
  have "(year - 1) div 4 \<le> 1000000000" "- 1000000001 \<le> (year - 1) div 4" "(year - 1) div 100 \<le> 1000000000"
    "- 1000000001 \<le> (year - 1) div 100" "(year - 1) div 400 \<le> 1000000000" "- 1000000001 \<le> (year - 1) div 400"
    using assms(1) by linarith+
  then show ?thesis
    using assms(1,4) days_before_bounds [OF assms(2,3)]
    by (auto simp: day_number_def days_since_epoch_rule abs_le_iff)
qed

end
