(* ===== verification/Release_Time.thy ===== *)
theory Release_Time
  imports Helm_Release Plugin_Frequency Calendar
begin

text \<open>
  \<^theory_text>\<open>pkg/helm/release/time.go\<close>: the wrapper around \<^theory_text>\<open>time.Time\<close> that Helm releases use for their times.
  A time is an instant, a number of nanoseconds since the zero time, with a location; times read
  from JSON have no monotonic part, and it is left out.  Durations are signed 64-bit numbers of
  nanoseconds.  What \<^theory_text>\<open>Date\<close>, \<^theory_text>\<open>AddDate\<close> and \<^theory_text>\<open>Unix\<close> compute of their arguments wraps at 64 bits, as
  in the library; the instants that the other functions compute are unbounded (the library's seconds
  reach 292 billion years either way).  The time zone database is a parameter, and so is the library's parser of layouts,
  behind \<^theory_text>\<open>Parse\<close> and \<^theory_text>\<open>ParseInLocation\<close>.
\<close>

datatype location = UTC_Location | Local_Location | Zone string | FixedZone string int

record release_time =
  tm_Instant :: gotime
  tm_Location :: location

definition max_duration :: int where "max_duration = 2 ^ 63 - 1"
definition min_duration :: int where "min_duration = - (2 ^ 63)"

text \<open>Between 1 January of year 1, the zero time, and 1 January 1970.\<close>

definition epoch_seconds :: int where
  "epoch_seconds = 62135596800"

text \<open>The seconds wrap at 64 bits.\<close>

definition time_Unix :: "int \<Rightarrow> int \<Rightarrow> release_time" where
  "time_Unix sec nsec =
     \<lparr>tm_Instant = go_int (sec + nsec div 1000000000 + epoch_seconds) * 1000000000 + nsec mod 1000000000,
      tm_Location = Local_Location\<rparr>"

definition time_Add :: "release_time \<Rightarrow> duration \<Rightarrow> release_time" where
  "time_Add t d = t\<lparr>tm_Instant := tm_Instant t + sint d\<rparr>"

definition time_After :: "release_time \<Rightarrow> release_time \<Rightarrow> bool" where
  "time_After t u \<longleftrightarrow> tm_Instant t > tm_Instant u"

definition time_Before :: "release_time \<Rightarrow> release_time \<Rightarrow> bool" where
  "time_Before t u \<longleftrightarrow> tm_Instant t < tm_Instant u"

definition time_Equal :: "release_time \<Rightarrow> release_time \<Rightarrow> bool" where
  "time_Equal t u \<longleftrightarrow> tm_Instant t = tm_Instant u"

definition time_In :: "release_time \<Rightarrow> location \<Rightarrow> release_time" where
  "time_In t l = t\<lparr>tm_Location := l\<rparr>"

definition time_Local :: "release_time \<Rightarrow> release_time" where
  "time_Local t = t\<lparr>tm_Location := Local_Location\<rparr>"

definition time_UTC :: "release_time \<Rightarrow> release_time" where
  "time_UTC t = t\<lparr>tm_Location := UTC_Location\<rparr>"

text \<open>\<^theory_text>\<open>time.Sub\<close> saturates: a difference beyond 64 bits is the largest or the smallest duration.\<close>

definition time_Sub :: "release_time \<Rightarrow> release_time \<Rightarrow> duration" where
  "time_Sub t u =
     (let d = word_of_int (tm_Instant t - tm_Instant u) in
      if time_Equal (time_Add u d) t then d
      else if time_Before t u then word_of_int min_duration
      else word_of_int max_duration)"

text \<open>The remainder since the zero time; rounding halves goes up.\<close>

definition time_Truncate :: "release_time \<Rightarrow> duration \<Rightarrow> release_time" where
  "time_Truncate t d =
     (if sint d \<le> 0 then t else t\<lparr>tm_Instant := tm_Instant t - tm_Instant t mod sint d\<rparr>)"

definition time_Round :: "release_time \<Rightarrow> duration \<Rightarrow> release_time" where
  "time_Round t d =
     (if sint d \<le> 0 then t
      else
        (let r = tm_Instant t mod sint d in
         if r + r < sint d then t\<lparr>tm_Instant := tm_Instant t - r\<rparr>
         else t\<lparr>tm_Instant := tm_Instant t + (sint d - r)\<rparr>))"

section \<open>Dates in a location\<close>

text \<open>
  \<^theory_text>\<open>Location.lookup\<close>: the offset from UTC in force at a Unix time, in seconds, and the interval of
  Unix times for which it is.
\<close>

type_synonym zone_data = "location \<Rightarrow> int \<Rightarrow> int \<times> int \<times> int"

definition lookup_zone :: "zone_data \<Rightarrow> location \<Rightarrow> int \<Rightarrow> int \<times> int \<times> int" where
  "lookup_zone zones loc unix =
     (case loc of
        UTC_Location \<Rightarrow> (0, - (2 ^ 63), 2 ^ 63 - 1)
      | FixedZone name offset \<Rightarrow> (offset, - (2 ^ 63), 2 ^ 63 - 1)
      | _ \<Rightarrow> zones loc unix)"

definition std_Date ::
  "zone_data \<Rightarrow> int \<Rightarrow> int \<Rightarrow> int \<Rightarrow> int \<Rightarrow> int \<Rightarrow> int \<Rightarrow> int \<Rightarrow> location \<Rightarrow> release_time" where
  "std_Date zones year month day hour minute sec nsec loc =
     (let (year, m) = norm_carry year (go_int (month - 1)) 12; month = m + 1;
          (sec, nsec) = norm_carry sec nsec 1000000000;
          (minute, sec) = norm_carry minute sec 60;
          (hour, minute) = norm_carry hour minute 60;
          (day, hour) = norm_carry day hour 24;
          unix = go_int (go_day_number year month day * 86400 + (hour * 3600 + minute * 60 + sec) - epoch_seconds);
          (offset, since, until) = lookup_zone zones loc unix;
          utc = go_int (unix - offset);
          offset = (if offset \<noteq> 0 \<and> (utc < since \<or> utc \<ge> until) then fst (lookup_zone zones loc utc) else offset)
      in \<lparr>tm_Instant = go_int (unix - offset + epoch_seconds) * 1000000000 + nsec, tm_Location = loc\<rparr>)"

text \<open>\<^theory_text>\<open>Date\<close> panics on a nil location.\<close>

definition release_Date ::
  "zone_data \<Rightarrow> int \<Rightarrow> int \<Rightarrow> int \<Rightarrow> int \<Rightarrow> int \<Rightarrow> int \<Rightarrow> int \<Rightarrow> location option \<Rightarrow> release_time option" where
  "release_Date zones year month day hour minute sec nsec loc =
     map_option (std_Date zones year month day hour minute sec nsec) loc"

text \<open>The seconds since the zero time on the clock of the location, the offset added.\<close>

definition time_offset :: "zone_data \<Rightarrow> release_time \<Rightarrow> int" where
  "time_offset zones t = fst (lookup_zone zones (tm_Location t) (tm_Instant t div 1000000000 - epoch_seconds))"

definition local_seconds :: "zone_data \<Rightarrow> release_time \<Rightarrow> int" where
  "local_seconds zones t = tm_Instant t div 1000000000 + time_offset zones t"

definition time_date :: "zone_data \<Rightarrow> release_time \<Rightarrow> int \<times> int \<times> int" where
  "time_date zones t = civil (local_seconds zones t div 86400)"

definition time_clock :: "zone_data \<Rightarrow> release_time \<Rightarrow> int \<times> int \<times> int" where
  "time_clock zones t =
     (let sec = local_seconds zones t mod 86400; hour = sec div 3600; sec = sec - hour * 3600;
          minute = sec div 60; sec = sec - minute * 60 in (hour, minute, sec))"

definition time_nsec :: "release_time \<Rightarrow> int" where
  "time_nsec t = tm_Instant t mod 1000000000"

definition time_AddDate :: "zone_data \<Rightarrow> release_time \<Rightarrow> int \<Rightarrow> int \<Rightarrow> int \<Rightarrow> release_time" where
  "time_AddDate zones t years months days =
     (let (year, month, day) = time_date zones t; (hour, minute, sec) = time_clock zones t in
      std_Date zones (go_int (year + years)) (go_int (month + months)) (go_int (day + days)) hour minute sec (time_nsec t) (tm_Location t))"

text \<open>
  \<^theory_text>\<open>Parse\<close> reads in UTC what has no zone, and takes offsets for the local zone where it can;
  \<^theory_text>\<open>ParseInLocation\<close> uses the given location for both.
\<close>

type_synonym time_parser = "string \<Rightarrow> string \<Rightarrow> location \<Rightarrow> location \<Rightarrow> release_time \<times> goerror option"

definition time_Parse :: "time_parser \<Rightarrow> string \<Rightarrow> string \<Rightarrow> release_time \<times> goerror option" where
  "time_Parse parse layout value =
     (let (t, err) = parse layout value UTC_Location Local_Location in (t, err))"

definition time_ParseInLocation ::
  "time_parser \<Rightarrow> string \<Rightarrow> string \<Rightarrow> location \<Rightarrow> release_time \<times> goerror option" where
  "time_ParseInLocation parse layout value loc =
     (let (t, err) = parse layout value loc loc in (t, err))"

definition release_Now :: "env \<Rightarrow> ('o, release_time) act" where
  "release_Now env = go_bind (time_Now env) (\<lambda>now. go_return \<lparr>tm_Instant = now, tm_Location = Local_Location\<rparr>)"

section \<open>Lemmas\<close>

lemma sint_duration_range: "min_duration \<le> sint (d :: duration)" "sint (d :: duration) \<le> max_duration"
  using sint_range_size [of d] by (simp_all add: min_duration_def max_duration_def wsst_TYs)

lemma sint_of_range:
  "min_duration \<le> i \<Longrightarrow> i \<le> max_duration \<Longrightarrow> sint (word_of_int i :: duration) = i"
  by (rule sint_word_of_int64) (simp_all add: min_duration_def max_duration_def)

lemma duration_ends:
  "min_duration \<le> max_duration"
  "sint (word_of_int min_duration :: duration) = min_duration"
  "sint (word_of_int max_duration :: duration) = max_duration"
  using sint_of_range [of min_duration] sint_of_range [of max_duration]
  by (simp_all add: min_duration_def max_duration_def)

lemma time_Sub_sint:
  "sint (time_Sub t u) = max min_duration (min max_duration (tm_Instant t - tm_Instant u))"
proof -
  define i where "i = tm_Instant t - tm_Instant u"
  define d where "d = (word_of_int i :: duration)"
  have eq: "time_Equal (time_Add u d) t \<longleftrightarrow> sint d = i" by (auto simp: time_Equal_def time_Add_def i_def)
  have before: "time_Before t u \<longleftrightarrow> i < 0" by (simp add: time_Before_def i_def)
  have sub: "time_Sub t u = (if sint d = i then d else if i < 0 then word_of_int min_duration
      else word_of_int max_duration)"
    unfolding time_Sub_def Let_def i_def [symmetric] d_def [symmetric] eq before ..
  show ?thesis
  proof (cases "min_duration \<le> i \<and> i \<le> max_duration")
    case True
    then have "sint d = i" by (simp add: d_def sint_of_range)
    then show ?thesis using True by (simp add: sub flip: i_def)
  next
    case False
    then have ne: "sint d \<noteq> i" using sint_duration_range [of d] by linarith
    show ?thesis
    proof (cases "i < min_duration")
      case True
      then have "i < 0" by (simp add: min_duration_def)
      then show ?thesis using True ne duration_ends by (simp add: sub flip: i_def)
    next
      case nb: False
      with False have "max_duration < i" by simp
      moreover from this have "\<not> i < 0" by (simp add: max_duration_def)
      ultimately show ?thesis using ne duration_ends by (simp add: sub flip: i_def)
    qed
  qed
qed

text \<open>
  Time arithmetic.  \<^theory_text>\<open>Sub\<close> is the difference of the instants, cut off at the ends of the 64-bit
  range; \<^theory_text>\<open>Add\<close> and \<^theory_text>\<open>Sub\<close> are inverse on every duration; \<^theory_text>\<open>Before\<close>, \<^theory_text>\<open>Equal\<close> and \<^theory_text>\<open>After\<close> are the
  sign of \<^theory_text>\<open>Sub\<close>; and the locations play no part in it.\<close>
lemma time_Sub_saturates:
  "sint (time_Sub t u) = max (- (2 ^ 63)) (min (2 ^ 63 - 1) (tm_Instant t - tm_Instant u)) \<and>
   time_Sub (time_Add t d) t = d \<and>
   (time_Before t u \<longleftrightarrow> sint (time_Sub t u) < 0) \<and> (time_Equal t u \<longleftrightarrow> sint (time_Sub t u) = 0) \<and>
   (time_After t u \<longleftrightarrow> 0 < sint (time_Sub t u)) \<and> time_Sub (time_In t l) (time_UTC u) = time_Sub t u"
proof -
  have "sint (time_Sub (time_Add t d) t) = sint d"
    using sint_duration_range [of d] by (simp add: time_Sub_sint time_Add_def)
  then have "time_Sub (time_Add t d) t = d" by (rule signed_word_eqI)
  moreover have "sint (time_Sub (time_In t l) (time_UTC u)) = sint (time_Sub t u)"
    by (simp add: time_Sub_sint time_In_def time_UTC_def)
  then have "time_Sub (time_In t l) (time_UTC u) = time_Sub t u" by (rule signed_word_eqI)
  ultimately show ?thesis
    by (auto simp: time_Sub_sint time_Before_def time_Equal_def time_After_def min_duration_def max_duration_def)
qed

text \<open>
  \<^theory_text>\<open>Round\<close> goes to the nearest multiple of a positive duration, up when it is half-way, and
  \<^theory_text>\<open>Truncate\<close> to the multiple below.\<close>
lemma time_Round_nearest:
  assumes d: "0 < sint d"
  shows "sint d dvd tm_Instant (time_Round t d) \<and>
     2 * (tm_Instant t - tm_Instant (time_Round t d)) < sint d \<and>
     2 * (tm_Instant (time_Round t d) - tm_Instant t) \<le> sint d \<and>
     sint d dvd tm_Instant (time_Truncate t d) \<and> tm_Instant (time_Truncate t d) \<le> tm_Instant t \<and>
     tm_Instant t < tm_Instant (time_Truncate t d) + sint d"
proof -
  define q where "q = tm_Instant t div sint d"
  define r where "r = tm_Instant t mod sint d"
  have t: "tm_Instant t = sint d * q + r" by (simp add: q_def r_def)
  have r: "0 \<le> r" "r < sint d" using d by (simp_all add: r_def)
  have 1: "tm_Instant t - r = sint d * q" "tm_Instant t + (sint d - r) = sint d * (q + 1)"
    by (simp_all add: t algebra_simps)
  have 2: "tm_Instant (time_Round t d) = (if r + r < sint d then sint d * q else sint d * (q + 1))"
    "tm_Instant (time_Truncate t d) = sint d * q"
    using d 1 by (simp_all add: time_Round_def time_Truncate_def Let_def flip: r_def)
  show ?thesis unfolding 2 using r t by (auto simp: algebra_simps)
qed

lemma time_Round_nearest_witness:
  "tm_Instant (time_Round \<lparr>tm_Instant = 25, tm_Location = UTC_Location\<rparr> 10) = 30"
proof -
  have s: "sint (10 :: duration) = 10" by simp
  have "10 dvd tm_Instant (time_Round \<lparr>tm_Instant = 25, tm_Location = UTC_Location\<rparr> 10) \<and>
      2 * (25 - tm_Instant (time_Round \<lparr>tm_Instant = 25, tm_Location = UTC_Location\<rparr> 10)) < 10 \<and>
      2 * (tm_Instant (time_Round \<lparr>tm_Instant = 25, tm_Location = UTC_Location\<rparr> 10) - 25) \<le> 10"
    using time_Round_nearest [of "10 :: duration" "\<lparr>tm_Instant = 25, tm_Location = UTC_Location\<rparr>"] by (simp add: s)
  then show ?thesis by (auto elim!: dvdE)
qed

section \<open>Dates and days\<close>

text \<open>A location without transitions: UTC, a fixed zone, or a zone whose offset never changed.\<close>

definition constant_offset :: "zone_data \<Rightarrow> location \<Rightarrow> int \<Rightarrow> bool" where
  "constant_offset zones loc offset \<longleftrightarrow> (\<forall>unix. fst (lookup_zone zones loc unix) = offset)"

lemma constant_offset_simps [simp]:
  "constant_offset zones UTC_Location 0" "constant_offset zones (FixedZone name offset) offset"
  by (simp_all add: constant_offset_def lookup_zone_def)

definition valid_clock :: "int \<Rightarrow> int \<Rightarrow> int \<Rightarrow> int \<Rightarrow> bool" where
  "valid_clock hour minute sec nsec \<longleftrightarrow> 0 \<le> hour \<and> hour < 24 \<and> 0 \<le> minute \<and> minute < 60 \<and> 0 \<le> sec \<and> sec < 60 \<and>
     0 \<le> nsec \<and> nsec < 1000000000"

lemma std_Date_normal:
  assumes c: "constant_offset zones loc off" and m: "1 \<le> month" "month \<le> 12" and k: "valid_clock hour minute sec nsec"
    and y: "\<bar>year\<bar> \<le> 1000000000" and d: "\<bar>day\<bar> \<le> 1000000000" and o: "\<bar>off\<bar> \<le> 1000000000"
  shows "std_Date zones year month day hour minute sec nsec loc =
     \<lparr>tm_Instant = (day_number year month day * 86400 + (hour * 3600 + minute * 60 + sec) - off) * 1000000000 + nsec,
      tm_Location = loc\<rparr>"
proof -
  have n: "norm_carry year (go_int (month - 1)) 12 = (year, month - 1)" "norm_carry sec nsec 1000000000 = (sec, nsec)"
    "norm_carry minute sec 60 = (minute, sec)" "norm_carry hour minute 60 = (hour, minute)" "norm_carry day hour 24 = (day, hour)"
    using m k by (simp_all add: norm_carry_normal go_int_id valid_clock_def)
  define unix where "unix = day_number year month day * 86400 + (hour * 3600 + minute * 60 + sec) - epoch_seconds"
  have u: "\<bar>unix\<bar> \<le> 40000000000000000"
    using day_number_bounds [OF y m d] k by (simp add: unix_def epoch_seconds_def valid_clock_def abs_le_iff)
  have g: "go_int unix = unix" "go_int (unix - off + epoch_seconds) = unix - off + epoch_seconds"
    using u o by (simp_all add: go_int_id epoch_seconds_def)
  have z: "fst (lookup_zone zones loc x) = off" for x using c by (simp add: constant_offset_def)
  obtain since until where l: "lookup_zone zones loc unix = (off, since, until)" using z [of unix] by (metis prod.collapse)
  have e: "go_day_number year month day * 86400 + (hour * 3600 + minute * 60 + sec) - epoch_seconds = unix"
    by (simp add: unix_def go_day_number [OF y])
  show ?thesis
    by (simp add: std_Date_def n Let_def e g l z) (simp add: unix_def epoch_seconds_def)
qed

lemma day_clock_split:
  assumes "valid_clock hour minute sec nsec" and "s = d * 86400 + (hour * 3600 + minute * 60 + sec)"
  shows "s div 86400 = d" and "s mod 86400 = hour * 3600 + minute * 60 + sec"
  using assms div_mod_eqI [of s 86400 d "hour * 3600 + minute * 60 + sec"] by (simp_all add: valid_clock_def)

lemma clock_of_seconds:
  assumes "valid_clock hour minute sec nsec"
  shows "(let s = hour * 3600 + minute * 60 + sec; h = s div 3600; s = s - h * 3600; m = s div 60; s = s - m * 60
     in (h, m, s)) = (hour, minute, sec)"
proof -
  have "(hour * 3600 + minute * 60 + sec) div 3600 = hour"
    using assms by (intro div_mod_eqI(1) [of _ _ _ "minute * 60 + sec"]) (simp_all add: valid_clock_def)
  moreover have "(minute * 60 + sec) div 60 = minute"
    using assms by (intro div_mod_eqI(1) [of _ _ _ sec]) (simp_all add: valid_clock_def)
  ultimately show ?thesis by (simp add: Let_def)
qed

lemma time_clock_valid:
  assumes "time_clock zones t = (hour, minute, sec)"
  shows "valid_clock hour minute sec (time_nsec t)"
    and "local_seconds zones t = local_seconds zones t div 86400 * 86400 + (hour * 3600 + minute * 60 + sec)"
proof -
  define s where "s = local_seconds zones t mod 86400"
  have s: "0 \<le> s" "s < 86400" by (simp_all add: s_def)
  have h: "hour = s div 3600" and m: "minute = (s - hour * 3600) div 60" and "sec = s - hour * 3600 - minute * 60"
    using assms by (auto simp: time_clock_def s_def Let_def)
  moreover have "0 \<le> s - 3600 * hour" "s - 3600 * hour < 3600"
    using div_mod_bounds [of 3600 s] unfolding h by simp_all
  moreover have "0 \<le> s - hour * 3600 - 60 * minute" "s - hour * 3600 - 60 * minute < 60"
    using div_mod_bounds [of 60 "s - hour * 3600"] unfolding m by simp_all
  ultimately show "valid_clock hour minute sec (time_nsec t)" using s by (simp add: valid_clock_def time_nsec_def)
  show "local_seconds zones t = local_seconds zones t div 86400 * 86400 + (hour * 3600 + minute * 60 + sec)"
    using \<open>sec = _\<close> by (simp add: s_def)
qed

lemma fields_of_instant:
  assumes "constant_offset zones loc off" and "valid_clock hour minute sec nsec"
    and "t = \<lparr>tm_Instant = (d * 86400 + (hour * 3600 + minute * 60 + sec) - off) * 1000000000 + nsec, tm_Location = loc\<rparr>"
  shows "time_date zones t = civil d" and "time_clock zones t = (hour, minute, sec)" and "time_nsec t = nsec"
proof -
  have "tm_Instant t div 1000000000 = d * 86400 + (hour * 3600 + minute * 60 + sec) - off \<and> tm_Instant t mod 1000000000 = nsec"
    using assms(2) div_mod_eqI [of "tm_Instant t" 1000000000 "d * 86400 + (hour * 3600 + minute * 60 + sec) - off" nsec]
    by (simp add: assms(3) valid_clock_def)
  then have l: "local_seconds zones t = d * 86400 + (hour * 3600 + minute * 60 + sec)" and "time_nsec t = nsec"
    using assms(1) by (simp_all add: local_seconds_def time_offset_def constant_offset_def time_nsec_def assms(3))
  then show "time_nsec t = nsec" by simp
  show "time_date zones t = civil d" "time_clock zones t = (hour, minute, sec)"
    using day_clock_split [OF assms(2) l] clock_of_seconds [OF assms(2)] by (simp_all add: time_date_def time_clock_def)
qed

text \<open>From a time to its date and its clock, and back.\<close>

lemma instant_of_fields:
  assumes "constant_offset zones (tm_Location t) off" and "time_clock zones t = (hour, minute, sec)"
  shows "t = \<lparr>tm_Instant = (local_seconds zones t div 86400 * 86400 + (hour * 3600 + minute * 60 + sec) - off) * 1000000000
      + time_nsec t, tm_Location = tm_Location t\<rparr>"
proof -
  have "local_seconds zones t = tm_Instant t div 1000000000 + off"
    using assms(1) by (simp add: local_seconds_def time_offset_def constant_offset_def)
  with time_clock_valid(2) [OF assms(2)]
  have "local_seconds zones t div 86400 * 86400 + (hour * 3600 + minute * 60 + sec) - off = tm_Instant t div 1000000000"
    by linarith
  then show ?thesis by (cases t) (simp add: time_nsec_def)
qed

text \<open>
  In a location whose offset does not change, \<^theory_text>\<open>Date\<close> makes a time again of its date and clock, and
  days added to the date are as many times 24 hours, as long as nothing comes near the ends of 64 bits.\<close>

lemma release_Date_days:
  assumes c: "constant_offset zones (tm_Location t) off" and d: "time_date zones t = (year, month, day)"
    and k: "time_clock zones t = (hour, minute, sec)"
    and y: "\<bar>year\<bar> \<le> 1000000000" and n: "\<bar>n\<bar> \<le> 100000000" and o: "\<bar>off\<bar> \<le> 1000000000"
  shows "release_Date zones year month (day + n) hour minute sec (time_nsec t) (Some (tm_Location t)) =
    Some (t\<lparr>tm_Instant := tm_Instant t + n * 86400000000000\<rparr>)"
proof -
  have v: "valid_date year month day" "day_number year month day = local_seconds zones t div 86400"
    using day_number_civil [OF d [unfolded time_date_def]] by simp_all
  then have m: "1 \<le> month" "month \<le> 12" and "1 \<le> day" "day \<le> 31"
    using days_in_bounds(2) [of month year] by (simp_all add: valid_date_def)
  then have "\<bar>day + n\<bar> \<le> 1000000000" using n by simp
  note * = std_Date_normal [OF c m time_clock_valid(1) [OF k] y this o]
  have "std_Date zones year month (day + n) hour minute sec (time_nsec t) (tm_Location t) =
      t\<lparr>tm_Instant := tm_Instant t + n * 86400000000000\<rparr>"
    using * v(2) arg_cong [OF instant_of_fields [OF c k], of tm_Instant]
    by (intro release_time.equality) (simp_all add: day_number_add algebra_simps)
  then show ?thesis by (simp add: release_Date_def)
qed

text \<open>29 February 2024, in a zone one hour east of Greenwich.\<close>

definition leap_day :: release_time where
  "leap_day = std_Date (\<lambda>l u. (0, 0, 0)) 2024 2 29 12 30 0 5 (FixedZone ''CET'' 3600)"

lemma leap_day_fields:
  "time_date (\<lambda>l u. (0, 0, 0)) leap_day = (2024, 2, 29)" "time_clock (\<lambda>l u. (0, 0, 0)) leap_day = (12, 30, 0)"
  "tm_Location leap_day = FixedZone ''CET'' 3600"
  by code_simp+

text \<open>A year later the day is 1 March.\<close>

lemma leap_day_later:
  "time_date (\<lambda>l u. (0, 0, 0)) (time_AddDate (\<lambda>l u. (0, 0, 0)) leap_day 1 0 0) = (2025, 3, 1)"
  by code_simp

end
