(* ===== verification/Release_Json.thy ===== *)
theory Release_Json
  imports Release_Time
begin

text \<open>
  The JSON form of a release time (\<^theory_text>\<open>pkg/helm/release/time.go\<close>): \<^theory_text>\<open>MarshalJSON\<close> and
  \<^theory_text>\<open>UnmarshalJSON\<close>, which treat the zero time and otherwise are those of \<^theory_text>\<open>time.Time\<close>, modelled here as
  the standard library has them: the RFC 3339 text with nanoseconds, its range checks, and the fast
  parser of that text.  What the fast parser rejects goes to the library's parser of layouts, which is
  a parameter.  The lemmas say when marshalling fails and that what was marshalled reads back.
\<close>

section \<open>Writing\<close>

definition pad_dec :: "nat \<Rightarrow> nat \<Rightarrow> string" where
  "pad_dec w n = replicate (w - length (dec_nat n)) CHR ''0'' @ dec_nat n"

definition appendInt :: "int \<Rightarrow> nat \<Rightarrow> string" where
  "appendInt x w = (if x < 0 then CHR ''-'' # pad_dec w (nat (- x)) else pad_dec w (nat x))"

text \<open>\<^theory_text>\<open>appendNano\<close> with nine digits: the trailing zeros are cut off, and a fraction of zero is not written.\<close>

definition format_nano :: "int \<Rightarrow> string" where
  "format_nano nsec =
     (if nsec = 0 then []
      else CHR ''.'' # rev (dropWhile (\<lambda>c. c = CHR ''0'') (rev (pad_dec 9 (nat nsec)))))"

text \<open>The offset in minutes; the division truncates.\<close>

definition format_zone :: "int \<Rightarrow> string" where
  "format_zone offset =
     (if offset = 0 then ''Z''
      else
        (let zone = (if offset < 0 then - (- offset div 60) else offset div 60);
             (sign, zone) = (if zone < 0 then (CHR ''-'', - zone) else (CHR ''+'', zone))
         in sign # appendInt (zone div 60) 2 @ '':'' @ appendInt (zone mod 60) 2))"

definition format_RFC3339 :: "zone_data \<Rightarrow> release_time \<Rightarrow> string" where
  "format_RFC3339 zones t =
     (let (year, month, day) = time_date zones t; (hour, minute, sec) = time_clock zones t in
      appendInt year 4 @ ''-'' @ appendInt month 2 @ ''-'' @ appendInt day 2 @ ''T'' @
      appendInt hour 2 @ '':'' @ appendInt minute 2 @ '':'' @ appendInt sec 2 @
      format_nano (time_nsec t) @ format_zone (time_offset zones t))"

definition strict_RFC3339 :: "zone_data \<Rightarrow> release_time \<Rightarrow> string + string" where
  "strict_RFC3339 zones t =
     (let b = format_RFC3339 zones t in
      if b ! 4 \<noteq> CHR ''-'' then Inl ''year outside of range [0,9999]''
      else if last b \<noteq> CHR ''Z'' \<and>
          (is_digit (b ! (length b - 6)) \<or> digits_value (take 2 (drop (length b - 5) b)) \<ge> 24)
      then Inl ''timezone hour outside of range [0,23]''
      else Inr b)"

definition emptyString :: string where
  "emptyString = [CHR 0x22, CHR 0x22]"

definition std_MarshalJSON :: "zone_data \<Rightarrow> release_time \<Rightarrow> goerror + string" where
  "std_MarshalJSON zones t =
     (case strict_RFC3339 zones t of
        Inl e \<Rightarrow> Inl (errors_New (''Time.MarshalJSON: '' @ e))
      | Inr b \<Rightarrow> Inr (CHR 0x22 # b @ [CHR 0x22]))"

definition time_MarshalJSON :: "zone_data \<Rightarrow> release_time \<Rightarrow> goerror + string" where
  "time_MarshalJSON zones t = (if tm_Instant t = 0 then Inr emptyString else std_MarshalJSON zones t)"

section \<open>Reading\<close>

text \<open>\<^theory_text>\<open>parseUint(s[i:j], lo, hi)\<close>.\<close>

definition parse_field :: "string \<Rightarrow> nat \<Rightarrow> nat \<Rightarrow> int \<Rightarrow> int \<Rightarrow> int option" where
  "parse_field s i j lo hi =
     (let x = take (j - i) (drop i s); v = int (digits_value x) in
      if list_all is_digit x \<and> lo \<le> v \<and> v \<le> hi then Some v else None)"

text \<open>The fractional second, of which nine digits count, and what follows it.\<close>

definition parse_nano :: "string \<Rightarrow> int \<times> string" where
  "parse_nano s =
     (if length s \<ge> 2 \<and> s ! 0 = CHR ''.'' \<and> is_digit (s ! 1) then
        (let ds = take 9 (takeWhile is_digit (tl s)) in
         (int (digits_value ds * 10 ^ (9 - length ds)), dropWhile is_digit (tl s)))
      else (0, s))"

definition parse_zone :: "zone_data \<Rightarrow> string \<Rightarrow> release_time \<Rightarrow> release_time option" where
  "parse_zone zones s t =
     (if s = ''Z'' then Some t
      else if length s \<noteq> 6 then None
      else
        (case (parse_field s 1 3 0 23, parse_field s 4 6 0 59) of
           (Some hr, Some mm) \<Rightarrow>
             if \<not> ((s ! 0 = CHR ''-'' \<or> s ! 0 = CHR ''+'') \<and> s ! 3 = CHR '':'') then None
             else
               (let offset = (hr * 60 + mm) * 60;
                    offset = (if s ! 0 = CHR ''-'' then - offset else offset);
                    t = t\<lparr>tm_Instant := tm_Instant t - offset * 1000000000\<rparr>
                in
                if fst (lookup_zone zones Local_Location (tm_Instant t div 1000000000 - epoch_seconds)) = offset
                then Some (t\<lparr>tm_Location := Local_Location\<rparr>)
                else Some (t\<lparr>tm_Location := FixedZone [] offset\<rparr>))
         | _ \<Rightarrow> None))"

definition parse_RFC3339 :: "zone_data \<Rightarrow> string \<Rightarrow> release_time option" where
  "parse_RFC3339 zones s =
     (if length s < 19 then None
      else
        (case (parse_field s 0 4 0 9999, parse_field s 5 7 1 12) of
           (Some year, Some month) \<Rightarrow>
             (case (parse_field s 8 10 1 (days_in month year), parse_field s 11 13 0 23,
                 parse_field s 14 16 0 59, parse_field s 17 19 0 59) of
                (Some day, Some hour, Some minute, Some sec) \<Rightarrow>
                  if \<not> (s ! 4 = CHR ''-'' \<and> s ! 7 = CHR ''-'' \<and> s ! 10 = CHR ''T'' \<and> s ! 13 = CHR '':'' \<and>
                      s ! 16 = CHR '':'') then None
                  else
                    (let (nsec, rest) = parse_nano (drop 19 s)
                     in parse_zone zones rest (std_Date zones year month day hour minute sec nsec UTC_Location))
              | _ \<Rightarrow> None)
         | _ \<Rightarrow> None))"

text \<open>\<open>slow\<close> is \<^theory_text>\<open>time.Parse(time.RFC3339, s)\<close>.\<close>

definition std_UnmarshalJSON ::
  "zone_data \<Rightarrow> (string \<Rightarrow> goerror + release_time) \<Rightarrow> string \<Rightarrow> release_time \<Rightarrow> goerror + release_time" where
  "std_UnmarshalJSON zones slow b t =
     (if b = ''null'' then Inr t
      else if length b < 2 \<or> b ! 0 \<noteq> CHR 0x22 \<or> last b \<noteq> CHR 0x22
      then Inl (errors_New ''Time.UnmarshalJSON: input is not a JSON string'')
      else
        (let s = butlast (tl b) in
         case parse_RFC3339 zones s of Some u \<Rightarrow> Inr u | None \<Rightarrow> slow s))"

text \<open>The receiver's old value is the last argument: for null and the empty string it stays.\<close>

definition time_UnmarshalJSON ::
  "zone_data \<Rightarrow> (string \<Rightarrow> goerror + release_time) \<Rightarrow> string \<Rightarrow> release_time \<Rightarrow> goerror + release_time" where
  "time_UnmarshalJSON zones slow b t =
     (if b = ''null'' then Inr t else if b = emptyString then Inr t else std_UnmarshalJSON zones slow b t)"

section \<open>Decimal fields\<close>

lemma digits_value_append: "digits_value (xs @ ys) = digits_value xs * 10 ^ length ys + digits_value ys"
  by (induction ys rule: rev_induct) (simp_all add: digits_value_snoc flip: append_assoc, simp add: digits_value_def)

lemma digits_value_zeros [simp]: "digits_value (replicate n CHR ''0'') = 0"
  by (induction n) (simp_all add: digits_value_def)

lemma length_dec_nat: "length (dec_nat n) \<le> Suc w \<longleftrightarrow> n < 10 ^ Suc w"
proof (induction n arbitrary: w rule: dec_nat.induct)
  case (1 n)
  show ?case
  proof (cases "n < 10")
    case True
    moreover have "(10 :: nat) \<le> 10 ^ Suc w" by simp
    ultimately have "n < 10 ^ Suc w" by linarith
    then show ?thesis using True by (subst dec_nat.simps) simp
  next
    case False
    then have l: "length (dec_nat n) = Suc (length (dec_nat (n div 10)))" by (subst dec_nat.simps) simp
    show ?thesis
    proof (cases w)
      case 0
      then show ?thesis using l dec_nat_digits [of "n div 10"] False by auto
    next
      case (Suc v)
      then show ?thesis using 1 [OF False, of v] by (simp add: l less_mult_imp_div_less div_less_iff_less_mult mult.commute)
    qed
  qed
qed

lemma pad_dec_digits: "list_all is_digit (pad_dec w n)"
  using dec_nat_digits [of n] by (auto simp: pad_dec_def list_all_iff is_digit_def)

lemma pad_dec_value: "digits_value (pad_dec w n) = n"
  by (simp add: pad_dec_def digits_value_append)

lemma pad_dec_length:
  "n < 10 ^ Suc w \<Longrightarrow> length (pad_dec (Suc w) n) = Suc w"
  "\<not> n < 10 ^ Suc w \<Longrightarrow> Suc w < length (pad_dec (Suc w) n)"
  using length_dec_nat [of n w] by (simp_all add: pad_dec_def)

lemma appendInt_field:
  assumes "0 \<le> x" and "x < 10 ^ Suc w"
  shows "length (appendInt x (Suc w)) = Suc w" and "list_all is_digit (appendInt x (Suc w))"
    and "int (digits_value (appendInt x (Suc w))) = x"
proof -
  have "nat x < 10 ^ Suc w" using assms by (simp add: nat_less_iff)
  then show "length (appendInt x (Suc w)) = Suc w" "list_all is_digit (appendInt x (Suc w))"
    "int (digits_value (appendInt x (Suc w))) = x"
    using assms(1) by (simp_all add: appendInt_def pad_dec_length(1) pad_dec_digits pad_dec_value)
qed

definition field :: "nat \<Rightarrow> int \<Rightarrow> string \<Rightarrow> bool" where
  "field w x f \<longleftrightarrow> length f = w \<and> list_all is_digit f \<and> int (digits_value f) = x"

lemma field_widths:
  "0 \<le> x \<Longrightarrow> x < 100 \<Longrightarrow> field 2 x (appendInt x 2)" "0 \<le> x \<Longrightarrow> x < 10000 \<Longrightarrow> field 4 x (appendInt x 4)"
  using appendInt_field [of x 1] appendInt_field [of x 3] by (simp_all add: field_def numeral_2_eq_2)

lemma parse_field_at:
  "field w v x \<Longrightarrow> lo \<le> v \<Longrightarrow> v \<le> hi \<Longrightarrow> parse_field (a @ x @ b) (length a) (length a + w) lo hi = Some v"
  by (auto simp: parse_field_def field_def Let_def)

lemma parse_field_from:
  "s = a @ x @ b \<Longrightarrow> field w v x \<Longrightarrow> length a = i \<Longrightarrow> i + w = j \<Longrightarrow> lo \<le> v \<Longrightarrow> v \<le> hi \<Longrightarrow>
     parse_field s i j lo hi = Some v"
  using parse_field_at by blast

section \<open>The parts of the text\<close>

definition date_text :: "int \<Rightarrow> int \<Rightarrow> int \<Rightarrow> int \<Rightarrow> int \<Rightarrow> int \<Rightarrow> string" where
  "date_text year month day hour minute sec =
     appendInt year 4 @ ''-'' @ appendInt month 2 @ ''-'' @ appendInt day 2 @ ''T'' @
     appendInt hour 2 @ '':'' @ appendInt minute 2 @ '':'' @ appendInt sec 2"

lemma parse_RFC3339_date:
  assumes d: "valid_date year month day" and c: "valid_clock hour minute sec nsec" and y: "0 \<le> year" "year \<le> 9999"
  shows "parse_RFC3339 zones (date_text year month day hour minute sec @ rest) =
    (let (nsec, rest) = parse_nano rest
     in parse_zone zones rest (std_Date zones year month day hour minute sec nsec UTC_Location))"
proof -
  have r: "1 \<le> month" "month \<le> 12" "1 \<le> day" "day \<le> days_in month year" "days_in month year \<le> 31"
    "0 \<le> hour" "hour \<le> 23" "0 \<le> minute" "minute \<le> 59" "0 \<le> sec" "sec \<le> 59"
    using d c days_in_bounds(2) [of month year] by (simp_all add: valid_date_def valid_clock_def)
  define A B C D E F where "A = appendInt year 4" and "B = appendInt month 2" and "C = appendInt day 2"
    and "D = appendInt hour 2" and "E = appendInt minute 2" and "F = appendInt sec 2"
  note defs = this
  have fields: "field 4 year A" "field 2 month B" "field 2 day C" "field 2 hour D" "field 2 minute E" "field 2 sec F"
    using r y by (auto simp: defs intro!: field_widths)
  then have len: "length A = 4" "length B = 2" "length C = 2" "length D = 2" "length E = 2" "length F = 2"
    by (simp_all add: field_def)
  define s where "s = A @ ''-'' @ B @ ''-'' @ C @ ''T'' @ D @ '':'' @ E @ '':'' @ F @ rest"
  have s: "date_text year month day hour minute sec @ rest = s" by (simp add: date_text_def s_def defs)
  have "s = [] @ A @ drop 4 s" "s = (A @ ''-'') @ B @ drop 7 s" "s = (A @ ''-'' @ B @ ''-'') @ C @ drop 10 s"
    "s = (A @ ''-'' @ B @ ''-'' @ C @ ''T'') @ D @ drop 13 s"
    "s = (A @ ''-'' @ B @ ''-'' @ C @ ''T'' @ D @ '':'') @ E @ drop 16 s"
    "s = (A @ ''-'' @ B @ ''-'' @ C @ ''T'' @ D @ '':'' @ E @ '':'') @ F @ drop 19 s"
    by (simp_all add: s_def len)
  note at = this [THEN arg_cong, of "\<lambda>x. parse_field x _ _ _ _"]
  have f: "parse_field s 0 4 0 9999 = Some year" "parse_field s 5 7 1 12 = Some month"
    "parse_field s 8 10 1 (days_in month year) = Some day" "parse_field s 11 13 0 23 = Some hour"
    "parse_field s 14 16 0 59 = Some minute" "parse_field s 17 19 0 59 = Some sec"
    using y r at(1) [of 0 4 0 9999] parse_field_at [OF fields(1), of 0 9999 "[]" "drop 4 s"]
      at(2) [of 5 7 1 12] parse_field_at [OF fields(2), of 1 12 "A @ ''-''" "drop 7 s"]
      at(3) [of 8 10 1 "days_in month year"]
      parse_field_at [OF fields(3), of 1 "days_in month year" "A @ ''-'' @ B @ ''-''" "drop 10 s"]
      at(4) [of 11 13 0 23] parse_field_at [OF fields(4), of 0 23 "A @ ''-'' @ B @ ''-'' @ C @ ''T''" "drop 13 s"]
      at(5) [of 14 16 0 59]
      parse_field_at [OF fields(5), of 0 59 "A @ ''-'' @ B @ ''-'' @ C @ ''T'' @ D @ '':''" "drop 16 s"]
      at(6) [of 17 19 0 59]
      parse_field_at [OF fields(6), of 0 59 "A @ ''-'' @ B @ ''-'' @ C @ ''T'' @ D @ '':'' @ E @ '':''" "drop 19 s"]
    by (simp_all add: len)
  have p: "s ! 4 = CHR ''-''" "s ! 7 = CHR ''-''" "s ! 10 = CHR ''T''" "s ! 13 = CHR '':''" "s ! 16 = CHR '':''"
    "length s = 19 + length rest" "drop 19 s = rest"
    by (simp_all add: s_def len nth_append)
  show ?thesis unfolding s by (simp add: parse_RFC3339_def f p Let_def)
qed

lemma strip_zeros:
  obtains k where "xs = rev (dropWhile (\<lambda>c. c = CHR ''0'') (rev xs)) @ replicate k CHR ''0''"
proof -
  have "rev xs = takeWhile (\<lambda>c. c = CHR ''0'') (rev xs) @ dropWhile (\<lambda>c. c = CHR ''0'') (rev xs)" by simp
  moreover have "takeWhile (\<lambda>c. c = CHR ''0'') (rev xs) = replicate (length (takeWhile (\<lambda>c. c = CHR ''0'') (rev xs))) CHR ''0''"
    by (rule replicate_length_same [symmetric]) (auto dest: set_takeWhileD)
  ultimately have "xs = rev (dropWhile (\<lambda>c. c = CHR ''0'') (rev xs)) @
      rev (replicate (length (takeWhile (\<lambda>c. c = CHR ''0'') (rev xs))) CHR ''0'')"
    by (metis rev_append rev_rev_ident)
  then show thesis by (intro that) simp
qed

lemma parse_nano_format:
  assumes n: "0 \<le> nsec" "nsec < 1000000000" and rest: "rest \<noteq> []" "hd rest \<noteq> CHR ''.''" "\<not> is_digit (hd rest)"
  shows "parse_nano (format_nano nsec @ rest) = (nsec, rest)"
proof (cases "nsec = 0")
  case True
  then show ?thesis using rest by (cases rest) (auto simp: format_nano_def parse_nano_def)
next
  case False
  define d where "d = rev (dropWhile (\<lambda>c. c = CHR ''0'') (rev (pad_dec 9 (nat nsec))))"
  obtain k where p: "pad_dec 9 (nat nsec) = d @ replicate k CHR ''0''" unfolding d_def by (rule strip_zeros)
  have "length (pad_dec 9 (nat nsec)) = 9" using pad_dec_length(1) [of "nat nsec" 8] n by (simp add: nat_less_iff)
  then have l: "length d + k = 9" by (simp add: p)
  have digits: "list_all is_digit d" using pad_dec_digits [of 9 "nat nsec"] by (simp add: p)
  have v: "digits_value d * 10 ^ k = nat nsec"
    using pad_dec_value [of 9 "nat nsec"] by (simp add: p digits_value_append)
  with False n have "d \<noteq> []" by (auto simp: digits_value_def)
  then obtain c cs where d: "d = c # cs" by (cases d) auto
  obtain r rs where rest': "rest = r # rs" "r \<noteq> CHR ''.''" "\<not> is_digit r" using rest by (cases rest) auto
  have "takeWhile is_digit (d @ rest) = d" "dropWhile is_digit (d @ rest) = rest"
    using digits by (simp_all add: rest' list_all_iff takeWhile_append2 dropWhile_append2)
  moreover have "int (digits_value d * 10 ^ (9 - length d)) = nsec"
  proof -
    have "9 - length d = k" using l by simp
    then show ?thesis using v n by simp
  qed
  moreover have "take 9 d = d" using l by simp
  moreover have "format_nano nsec = CHR ''.'' # d" using False by (simp add: format_nano_def flip: d_def)
  ultimately show ?thesis using digits d by (simp add: parse_nano_def Let_def)
qed

section \<open>The zone\<close>

text \<open>The sign, the hours and the minutes of an offset.\<close>

definition zone_sign :: "int \<Rightarrow> char" where
  "zone_sign offset = (if offset \<le> - 60 then CHR ''-'' else CHR ''+'')"

lemma format_zone_parts:
  "offset \<noteq> 0 \<Longrightarrow> format_zone offset =
     zone_sign offset # appendInt (\<bar>offset\<bar> div 60 div 60) 2 @ '':'' @ appendInt (\<bar>offset\<bar> div 60 mod 60) 2"
proof -
  have "0 < - offset div 60 \<longleftrightarrow> offset \<le> - 60" if "offset < 0"
    using that pos_imp_zdiv_pos_iff [of 60 "- offset"] by auto
  then show "offset \<noteq> 0 \<Longrightarrow> ?thesis"
    by (auto simp: format_zone_def zone_sign_def Let_def abs_if pos_imp_zdiv_pos_iff not_less
        intro: order_antisym div_int_pos_iff [THEN iffD2])
qed

lemma parse_zone_format:
  assumes o: "offset mod 60 = 0" "\<bar>offset\<bar> < 86400" and l: "tm_Location t = UTC_Location"
  obtains u where "parse_zone zones (format_zone offset) t = Some u"
    and "tm_Instant u = tm_Instant t - offset * 1000000000" and "time_offset zones u = offset"
proof (cases "offset = 0")
  case True
  then show thesis using l that [of t]
    by (simp add: format_zone_def parse_zone_def time_offset_def lookup_zone_def)
next
  case False
  define h m where "h = \<bar>offset\<bar> div 60 div 60" and "m = \<bar>offset\<bar> div 60 mod 60"
  define H M where "H = appendInt h 2" and "M = appendInt m 2"
  have "60 dvd offset" using o(1) by auto
  then obtain k where k: "offset = 60 * k" ..
  have hm: "(h * 60 + m) * 60 = \<bar>offset\<bar>" by (simp add: h_def m_def k abs_mult)
  have r: "0 \<le> h" "h \<le> 23" "0 \<le> m" "m \<le> 59"
  proof -
    show m: "0 \<le> m" "m \<le> 59" using pos_mod_bound [of 60 "\<bar>offset\<bar> div 60"] by (simp_all add: m_def)
    show "0 \<le> h" by (simp add: h_def pos_imp_zdiv_nonneg_iff)
    have "3600 * h < 3600 * 24" using hm m(1) o(2) by simp
    then show "h \<le> 23" by simp
  qed
  have f: "field 2 h H" "field 2 m M" using r by (simp_all add: H_def M_def field_widths)
  then have len: "length H = 2" "length M = 2" by (simp_all add: field_def)
  define z where "z = zone_sign offset # H @ '':'' @ M"
  have z: "format_zone offset = z" using format_zone_parts [OF False] by (simp add: z_def H_def M_def h_def m_def)
  have "z = [zone_sign offset] @ H @ ('':'' @ M)" "z = (zone_sign offset # H @ '':'') @ M @ []" by (simp_all add: z_def)
  note at = this [THEN parse_field_from]
  have p: "parse_field z 1 3 0 23 = Some h" "parse_field z 4 6 0 59 = Some m"
    by (rule at(1) [OF f(1)]; use r in simp) (rule at(2) [OF f(2)]; use r len in simp)
  have q: "length z = 6" "z ! 0 = zone_sign offset" "z ! 3 = CHR '':''" "z \<noteq> ''Z''"
  proof -
    obtain a b where "H = [a, b]" using len(1) by (auto simp: length_Suc_conv numeral_2_eq_2)
    then show "length z = 6" "z ! 0 = zone_sign offset" "z ! 3 = CHR '':''" "z \<noteq> ''Z''"
      by (simp_all add: z_def len(2))
  qed
  have sign: "zone_sign offset = (if offset < 0 then CHR ''-'' else CHR ''+'')" using k by (simp add: zone_sign_def)
  define u where "u = (if fst (lookup_zone zones Local_Location ((tm_Instant t - offset * 1000000000) div 1000000000 - epoch_seconds)) = offset
    then t\<lparr>tm_Instant := tm_Instant t - offset * 1000000000, tm_Location := Local_Location\<rparr>
    else t\<lparr>tm_Instant := tm_Instant t - offset * 1000000000, tm_Location := FixedZone [] offset\<rparr>)"
  have "(tm_Instant t - offset * 1000000000) div 1000000000 = tm_Instant t div 1000000000 - offset"
    using div_mult_self1 [of 1000000000 "tm_Instant t" "- offset"] by simp
  then have "parse_zone zones z t = Some u"
    by (cases "offset < 0")
      (simp_all add: parse_zone_def p [unfolded One_nat_def] q u_def Let_def sign hm del: distrib_right_numeral)
  moreover have "tm_Instant u = tm_Instant t - offset * 1000000000" "time_offset zones u = offset"
    by (simp_all add: u_def time_offset_def lookup_zone_def)
  ultimately show thesis using that z by simp
qed

section \<open>The range checks\<close>

lemma digit_not_sign: "is_digit c \<Longrightarrow> c \<noteq> CHR ''-'' \<and> c \<noteq> CHR ''+'' \<and> c \<noteq> CHR ''Z'' \<and> c \<noteq> CHR ''.''"
  by (auto simp: is_digit_def)

lemma year_check: "(appendInt year 4 @ ''-'' @ rest) ! 4 = CHR ''-'' \<longleftrightarrow> 0 \<le> year \<and> year \<le> 9999"
proof -
  have digit: "is_digit (pad_dec 4 n ! i)" if "i < length (pad_dec 4 n)" for n i
    using pad_dec_digits [of 4 n] that by (simp add: list_all_length)
  have len: "4 \<le> length (pad_dec 4 n)" "n \<le> 9999 \<Longrightarrow> length (pad_dec 4 n) = 4" "\<not> n \<le> 9999 \<Longrightarrow> 4 < length (pad_dec 4 n)" for n
    using pad_dec_length [of n 3] by (simp_all add: pad_dec_def)
  consider "year < 0" | "0 \<le> year" "year \<le> 9999" | "9999 < year" by linarith
  then show ?thesis
  proof cases
    case 1
    then show ?thesis using digit [of 3 "nat (- year)"] len(1) [of "nat (- year)"] digit_not_sign
      by (auto simp: appendInt_def nth_append)
  next
    case 2
    then show ?thesis using len(2) [of "nat year"] by (simp add: appendInt_def nth_append)
  next
    case 3
    then show ?thesis using digit [of 4 "nat year"] len(3) [of "nat year"] digit_not_sign
      by (auto simp: appendInt_def nth_append)
  qed
qed

lemma zone_check:
  "(last (pre @ format_zone offset) \<noteq> CHR ''Z'' \<and>
      (is_digit ((pre @ format_zone offset) ! (length (pre @ format_zone offset) - 6)) \<or>
       24 \<le> digits_value (take 2 (drop (length (pre @ format_zone offset) - 5) (pre @ format_zone offset))))) \<longleftrightarrow>
   86400 \<le> \<bar>offset\<bar>"
proof (cases "offset = 0")
  case True
  then show ?thesis by (simp add: format_zone_def)
next
  case False
  define h m where "h = \<bar>offset\<bar> div 60 div 60" and "m = \<bar>offset\<bar> div 60 mod 60"
  define H M where "H = appendInt h 2" and "M = appendInt m 2"
  have r: "0 \<le> h" "0 \<le> m" "m < 100" by (simp_all add: h_def m_def pos_imp_zdiv_nonneg_iff less_le_trans [OF pos_mod_bound])
  have h24: "24 \<le> h \<longleftrightarrow> 86400 \<le> \<bar>offset\<bar>"
    using div_mod_bounds [of 60 "\<bar>offset\<bar>"] div_mod_bounds [of 60 "\<bar>offset\<bar> div 60", folded h_def]
    by (intro iffI) simp_all
  have M: "length M = 2" "list_all is_digit M" using field_widths(1) [OF r(2,3)] by (simp_all add: M_def field_def)
  then obtain c d where M: "M = [c, d]" "is_digit d" by (auto simp: length_Suc_conv numeral_2_eq_2)
  have z: "format_zone offset = zone_sign offset # H @ '':'' @ M"
    using format_zone_parts [OF False] by (simp add: H_def M_def h_def m_def)
  have last: "last (pre @ format_zone offset) \<noteq> CHR ''Z''" using digit_not_sign [OF M(2)] by (simp add: z M(1))
  have sign: "\<not> is_digit (zone_sign offset)" by (simp add: zone_sign_def is_digit_def)
  show ?thesis
  proof (cases "h < 100")
    case True
    then have f: "field 2 h H" using r(1) by (simp add: H_def field_widths)
    then obtain a b where H: "H = [a, b]" by (auto simp: field_def length_Suc_conv numeral_2_eq_2)
    have "h = int (digits_value H)" using f by (simp add: field_def)
    then have "24 \<le> digits_value H \<longleftrightarrow> 24 \<le> h" by simp
    then have "(pre @ format_zone offset) ! (length (pre @ format_zone offset) - 6) = zone_sign offset"
      "take 2 (drop (length (pre @ format_zone offset) - 5) (pre @ format_zone offset)) = H"
      by (simp_all add: z M(1) H)
    then show ?thesis using sign last h24 \<open>24 \<le> digits_value H \<longleftrightarrow> 24 \<le> h\<close> by simp
  next
    case False
    have "H = pad_dec 2 (nat h)" using r(1) by (simp add: H_def appendInt_def)
    then have H: "list_all is_digit H" "2 < length H"
      using pad_dec_digits [of 2 "nat h"] pad_dec_length(2) [of "nat h" 1] False r(1) by (simp_all add: numeral_2_eq_2 nat_less_iff)
    define D where "D = drop (length H - 3) H"
    have "length D = 3" using H(2) by (simp add: D_def)
    then obtain x y w where "D = [x, y, w]" by (auto simp: length_Suc_conv numeral_3_eq_3)
    then obtain G where G: "H = G @ [x, y, w]" unfolding D_def by (metis append_take_drop_id)
    have "(pre @ format_zone offset) ! (length (pre @ format_zone offset) - 6) = x"
      using nth_append_length [of "pre @ zone_sign offset # G" x "[y, w] @ '':'' @ M"] by (simp add: z M(1) G)
    moreover have "is_digit x" using H(1) by (simp add: G)
    ultimately show ?thesis using False last h24 by simp
  qed
qed

lemma strict_RFC3339_iff:
  assumes "time_date zones t = (year, month, day)"
  shows "strict_RFC3339 zones t =
    (if 0 \<le> year \<and> year \<le> 9999
     then if \<bar>time_offset zones t\<bar> < 86400 then Inr (format_RFC3339 zones t)
       else Inl ''timezone hour outside of range [0,23]''
     else Inl ''year outside of range [0,9999]'')"
proof -
  obtain hour minute sec where c: "time_clock zones t = (hour, minute, sec)" by (cases "time_clock zones t") auto
  define pre where "pre = appendInt year 4 @ ''-'' @ appendInt month 2 @ ''-'' @ appendInt day 2 @ ''T'' @
      appendInt hour 2 @ '':'' @ appendInt minute 2 @ '':'' @ appendInt sec 2 @ format_nano (time_nsec t)"
  have b: "format_RFC3339 zones t = pre @ format_zone (time_offset zones t)"
    by (simp add: format_RFC3339_def assms c pre_def)
  have "format_RFC3339 zones t ! 4 = CHR ''-'' \<longleftrightarrow> 0 \<le> year \<and> year \<le> 9999"
    unfolding b pre_def append_assoc by (rule year_check)
  then show ?thesis
    using zone_check [of pre "time_offset zones t"] by (auto simp: strict_RFC3339_def Let_def simp flip: b)
qed

section \<open>Properties\<close>

lemma parse_format:
  assumes d: "time_date zones t = (year, month, day)" and y: "0 \<le> year" "year \<le> 9999"
    and o: "time_offset zones t mod 60 = 0" "\<bar>time_offset zones t\<bar> < 86400"
  obtains u where "parse_RFC3339 zones (format_RFC3339 zones t) = Some u" and "tm_Instant u = tm_Instant t"
    and "time_offset zones u = time_offset zones t"
proof -
  obtain hour minute sec where c: "time_clock zones t = (hour, minute, sec)" by (cases "time_clock zones t") auto
  define off ns where "off = time_offset zones t" and "ns = time_nsec t"
  have v: "valid_date year month day" "day_number year month day = local_seconds zones t div 86400"
    and k: "valid_clock hour minute sec ns"
    using day_number_civil d time_clock_valid(1) [OF c] by (simp_all add: time_date_def ns_def)
  then have m: "1 \<le> month" "month \<le> 12" by (simp_all add: valid_date_def)
  have z: "format_zone off \<noteq> []" "hd (format_zone off) \<noteq> CHR ''.''" "\<not> is_digit (hd (format_zone off))"
    using format_zone_parts [of off] by (cases "off = 0"; simp add: format_zone_def zone_sign_def is_digit_def)+
  define t0 where "t0 = std_Date zones year month day hour minute sec ns UTC_Location"
  have t0: "t0 = \<lparr>tm_Instant = local_seconds zones t * 1000000000 + ns, tm_Location = UTC_Location\<rparr>"
    using std_Date_normal [OF constant_offset_simps(1) m k] time_clock_valid(2) [OF c] v(1) days_in_bounds(2) [OF m, of year] y
    by (simp add: t0_def v(2) valid_date_def)
  obtain u where u: "parse_zone zones (format_zone off) t0 = Some u" "tm_Instant u = tm_Instant t0 - off * 1000000000"
    "time_offset zones u = off" by (rule parse_zone_format [of off t0 zones]) (use o in \<open>simp_all add: t0 off_def\<close>)
  have "format_RFC3339 zones t = date_text year month day hour minute sec @ format_nano ns @ format_zone off"
    by (simp add: format_RFC3339_def d c date_text_def ns_def off_def)
  moreover have "parse_nano (format_nano ns @ format_zone off) = (ns, format_zone off)"
    using k z by (intro parse_nano_format) (simp_all add: valid_clock_def)
  ultimately have "parse_RFC3339 zones (format_RFC3339 zones t) = Some u"
    using u(1) by (simp add: parse_RFC3339_date [OF v(1) k y] t0_def)
  moreover have "tm_Instant u = tm_Instant t"
    using u(2) by (simp add: t0 local_seconds_def off_def ns_def time_nsec_def algebra_simps)
  ultimately show thesis using that u(3) by (simp add: off_def)
qed

lemma time_MarshalJSON_iff:
  assumes "time_date zones t = (year, month, day)"
  shows "(\<exists>j. time_MarshalJSON zones t = Inr j) \<longleftrightarrow>
    tm_Instant t = 0 \<or> 0 \<le> year \<and> year \<le> 9999 \<and> \<bar>time_offset zones t\<bar> < 86400"
  by (auto simp: time_MarshalJSON_def std_MarshalJSON_def strict_RFC3339_iff [OF assms])

text \<open>C31:
  The JSON form of a release time.  Marshalling fails exactly when the time is not the zero time and
  its year does not have four digits or its offset is a day or more.  Otherwise, in a zone whose offset
  is a number of minutes, reading the text into a fresh value gives a time that is equal and, unless it
  is the zero time, has the same offset.\<close>
theorem release_time_json:
  assumes "time_offset zones t mod 60 = 0"
  shows "case time_MarshalJSON zones t of
      Inl e \<Rightarrow> tm_Instant t \<noteq> 0 \<and>
        (fst (time_date zones t) < 0 \<or> fst (time_date zones t) > 9999 \<or> \<bar>time_offset zones t\<bar> \<ge> 86400)
    | Inr j \<Rightarrow> \<exists>u. time_UnmarshalJSON zones slow j \<lparr>tm_Instant = 0, tm_Location = UTC_Location\<rparr> = Inr u \<and>
        time_Equal u t \<and> (tm_Instant t \<noteq> 0 \<longrightarrow> time_offset zones u = time_offset zones t)"
proof -
  obtain year month day where d: "time_date zones t = (year, month, day)" by (cases "time_date zones t") auto
  show ?thesis
  proof (cases "tm_Instant t = 0")
    case True
    then show ?thesis by (simp add: time_MarshalJSON_def time_UnmarshalJSON_def emptyString_def time_Equal_def)
  next
    case nz: False
    show ?thesis
    proof (cases "0 \<le> year \<and> year \<le> 9999 \<and> \<bar>time_offset zones t\<bar> < 86400")
      case True
      then have y: "0 \<le> year" "year \<le> 9999" and o: "\<bar>time_offset zones t\<bar> < 86400" by simp_all
      obtain u where u: "parse_RFC3339 zones (format_RFC3339 zones t) = Some u" "tm_Instant u = tm_Instant t"
        "time_offset zones u = time_offset zones t" using parse_format [OF d y assms o] .
      have "length (format_RFC3339 zones t) \<ge> 19" using u(1) by (auto simp: parse_RFC3339_def split: if_splits)
      then show ?thesis using nz u True
        by (auto simp: time_MarshalJSON_def std_MarshalJSON_def strict_RFC3339_iff [OF d] time_UnmarshalJSON_def
            std_UnmarshalJSON_def emptyString_def time_Equal_def)
    next
      case False
      then show ?thesis using nz
        by (auto simp: time_MarshalJSON_def std_MarshalJSON_def strict_RFC3339_iff [OF d] d)
    qed
  qed
qed

text \<open>The text of a time half an hour past noon, an hour east of Greenwich.\<close>

lemma leap_day_text:
  "time_MarshalJSON (\<lambda>l u. (0, 0, 0)) leap_day = Inr (CHR 0x22 # ''2024-02-29T12:30:00.000000005+01:00'' @ [CHR 0x22])"
  by code_simp

theorem release_time_json_witness:
  "\<exists>u. time_UnmarshalJSON (\<lambda>l u. (0, 0, 0)) (\<lambda>s. Inl (errors_New s))
     (CHR 0x22 # ''2024-02-29T12:30:00.000000005+01:00'' @ [CHR 0x22]) \<lparr>tm_Instant = 0, tm_Location = UTC_Location\<rparr> = Inr u \<and>
     time_Equal u leap_day"
proof -
  have "time_offset (\<lambda>l u. (0, 0, 0)) leap_day mod 60 = 0" by code_simp
  from release_time_json [OF this, of "\<lambda>s. Inl (errors_New s)"] show ?thesis
    unfolding leap_day_text by auto
qed

end
