(* ===== verification/File_Util.thy ===== *)
theory File_Util
  imports Runtime
begin

text \<open>
  \<^theory_text>\<open>pkg/util/file.go\<close>: \<^theory_text>\<open>Gzip\<close>, which copies a file through a gzip writer, with three deferred
  closures.  The local variable \<^theory_text>\<open>err\<close>, which the closures read and assign, is the \<open>obj\<close> of the
  state; the function's result is not named, so a deferred closure cannot change it.
\<close>

datatype gz_event =
    GzOpen string
  | GzCreate string
  | GzNewWriter
  | GzCopy
  | GzCloseWriter
  | GzCloseOutput
  | GzCloseInput
  | GzLog string

record gz_env =
  gz_Open :: "gz_event list \<Rightarrow> string \<Rightarrow> goerror option"
  gz_Create :: "gz_event list \<Rightarrow> string \<Rightarrow> goerror option"
  gz_Copy :: "gz_event list \<Rightarrow> goerror option"
  gz_Close :: "gz_event list \<Rightarrow> gz_event \<Rightarrow> goerror option"

type_synonym 'a gz = "(gz_event, unit, goerror option, 'a) go"

text \<open>\<^theory_text>\<open>fmt.Errorf\<close> with \<^theory_text>\<open>%w\<close>, and the \<^theory_text>\<open>%v\<close> of an error.\<close>

definition errorf_wrap :: "string \<Rightarrow> goerror \<Rightarrow> goerror" where
  "errorf_wrap msg e = GoError (msg @ '': '' @ err_text e) (is_not_found e)"

text \<open>One deferred closure: close, then keep the error if there is none yet, else log the old one.\<close>

definition deferred_close :: "gz_env \<Rightarrow> gz_event \<Rightarrow> string \<Rightarrow> unit gz" where
  "deferred_close env e what =
     go_bind (go_call e (\<lambda>h. gz_Close env h e)) (\<lambda>closeErr.
     go_bind go_obj (\<lambda>err.
     case err of
       None \<Rightarrow> go_set closeErr
     | Some x \<Rightarrow> go_call (GzLog (''failed to close '' @ what @ '': '' @ err_text x)) (\<lambda>_. ())))"

definition deferring :: "'a gz \<Rightarrow> unit gz \<Rightarrow> 'a \<Rightarrow> 'a gz" where
  "deferring m closing zero = go_defer zero m (\<lambda>r. go_bind closing (\<lambda>_. go_return r))"

definition Gzip :: "gz_env \<Rightarrow> string \<Rightarrow> string \<Rightarrow> goerror option gz" where
  "Gzip env input output =
     go_bind (go_call (GzOpen input) (\<lambda>h. gz_Open env h input)) (\<lambda>err.
     go_bind (go_set err) (\<lambda>_.
     case err of
       Some e \<Rightarrow> go_return (Some (errorf_wrap ''failed to open input file'' e))
     | None \<Rightarrow>
         deferring
           (go_bind (go_call (GzCreate output) (\<lambda>h. gz_Create env h output)) (\<lambda>err.
            go_bind (go_set err) (\<lambda>_.
            case err of
              Some e \<Rightarrow> go_return (Some (errorf_wrap ''failed to create output file'' e))
            | None \<Rightarrow>
                deferring
                  (go_bind (go_call GzNewWriter (\<lambda>_. ())) (\<lambda>_.
                   deferring
                     (go_bind (go_call GzCopy (\<lambda>h. gz_Copy env h)) (\<lambda>cerr.
                      case cerr of
                        Some e \<Rightarrow> go_return (Some (errorf_wrap ''failed to write compressed data'' e))
                      | None \<Rightarrow> go_return None))
                     (deferred_close env GzCloseWriter ''gzipWriter'') None))
                  (deferred_close env GzCloseOutput ''output file'') None)))
           (deferred_close env GzCloseInput ''input file'') None))"

section \<open>Properties\<close>

definition closes :: "gz_event list \<Rightarrow> gz_event list" where
  "closes h = filter (\<lambda>e. e \<in> {GzCloseWriter, GzCloseOutput, GzCloseInput}) h"

lemma closes_simps [simp]: "closes [] = []" "closes (xs @ ys) = closes xs @ closes ys"
  "closes (GzOpen f # es) = closes es" "closes (GzCreate f # es) = closes es"
  "closes (GzNewWriter # es) = closes es" "closes (GzCopy # es) = closes es"
  "closes (GzLog t # es) = closes es" "closes (GzCloseWriter # es) = GzCloseWriter # closes es"
  "closes (GzCloseOutput # es) = GzCloseOutput # closes es" "closes (GzCloseInput # es) = GzCloseInput # closes es"
  by (simp_all add: closes_def)

lemma wp_fun: "wp (go_return a) Q = Q a" "wp (go_bind m f) Q = wp m (\<lambda>a. wp (f a) Q)"
  by (simp_all add: fun_eq_iff wp_return wp_bind)

lemma wp_deferring:
  "wp (deferring m closing z) Q s = wp m (\<lambda>r. wp closing (\<lambda>_. Q r)) s"
  by (simp add: deferring_def wp_defer wp_fun)

text \<open>C37: 
  What \<^theory_text>\<open>Gzip\<close> opens it closes, in reverse order, on every path; and its result depends on opening,
  creating and copying only: it is nil as soon as the data has been handed to the writer, so an error of the closing
  of the gzip writer, which is what writes the end of the archive, or of the output file is lost.\<close>
theorem Gzip_closes_and_loses_errors:
  "wp (Gzip env input output) (\<lambda>r s'. \<exists>es. hist s' = hist s @ es \<and>
     (case gz_Open env (hist s) input of
        Some e \<Rightarrow> r = Some (errorf_wrap ''failed to open input file'' e) \<and> closes es = []
      | None \<Rightarrow>
          (case gz_Create env (hist s @ [GzOpen input]) output of
             Some e \<Rightarrow> r = Some (errorf_wrap ''failed to create output file'' e) \<and> closes es = [GzCloseInput]
           | None \<Rightarrow>
               r = map_option (errorf_wrap ''failed to write compressed data'')
                     (gz_Copy env (hist s @ [GzOpen input, GzCreate output, GzNewWriter])) \<and>
               closes es = [GzCloseWriter, GzCloseOutput, GzCloseInput]))) s"
  by (auto simp: Gzip_def deferred_close_def wp_deferring wp_rules split: option.split)

end
