(* ===== verification/Kube_Config.thy ===== *)
theory Kube_Config
  imports Runtime
begin

text \<open>
  \<^theory_text>\<open>pkg/kube/kube.go\<close>: the REST configuration of the manager as a kubeconfig with one context, from
  which the Helm client later writes its kubeconfig file.  Of the two third-party structs the fields
  are here that the conversion reads or writes, and two of \<^theory_text>\<open>rest.Config\<close> that it does not read: the
  server name of the TLS settings and the UID of the impersonated user.
\<close>

record impersonation =
  im_UserName :: string
  im_UID :: string
  im_Groups :: "string list"
  im_Extra :: "string \<rightharpoonup> string list"

record rest_config =
  rs_Host :: string
  rs_Insecure :: bool
  rs_ServerName :: string
  rs_CAData :: string
  rs_CAFile :: string
  rs_BearerToken :: string
  rs_BearerTokenFile :: string
  rs_Impersonate :: impersonation
  rs_CertFile :: string
  rs_CertData :: string
  rs_KeyFile :: string
  rs_KeyData :: string
  rs_Username :: string
  rs_Password :: string
  rs_AuthProvider :: "string option"
  rs_ExecProvider :: "string option"

record kube_context =
  cx_Cluster :: string
  cx_AuthInfo :: string

record kube_cluster =
  cl_Server :: string
  cl_InsecureSkipTLSVerify :: bool
  cl_TLSServerName :: string
  cl_CertificateAuthorityData :: string
  cl_CertificateAuthority :: string

record auth_info =
  au_Token :: string
  au_TokenFile :: string
  au_Impersonate :: string
  au_ImpersonateUID :: string
  au_ImpersonateGroups :: "string list"
  au_ImpersonateUserExtra :: "string \<rightharpoonup> string list"
  au_ClientCertificate :: string
  au_ClientCertificateData :: string
  au_ClientKey :: string
  au_ClientKeyData :: string
  au_Username :: string
  au_Password :: string
  au_AuthProvider :: "string option"
  au_Exec :: "string option"

record kube_config =
  kc_Clusters :: "string \<rightharpoonup> kube_cluster"
  kc_AuthInfos :: "string \<rightharpoonup> auth_info"
  kc_Contexts :: "string \<rightharpoonup> kube_context"
  kc_CurrentContext :: string

definition empty_kube_config :: kube_config where
  "empty_kube_config = \<lparr>kc_Clusters = Map.empty, kc_AuthInfos = Map.empty, kc_Contexts = Map.empty,
     kc_CurrentContext = []\<rparr>"

text \<open>The fields left out of a composite literal have their zero value.\<close>

definition convertRestConfigToClientConfig :: "rest_config \<Rightarrow> kube_config" where
  "convertRestConfigToClientConfig config =
     (let contextName = ''local'';
          kubeConfig = empty_kube_config;
          kubeConfig = kubeConfig\<lparr>kc_Contexts :=
            [contextName \<mapsto> \<lparr>cx_Cluster = contextName, cx_AuthInfo = contextName\<rparr>]\<rparr>;
          kubeConfig = kubeConfig\<lparr>kc_Clusters := [contextName \<mapsto>
            \<lparr>cl_Server = rs_Host config, cl_InsecureSkipTLSVerify = rs_Insecure config, cl_TLSServerName = [],
             cl_CertificateAuthorityData = rs_CAData config, cl_CertificateAuthority = rs_CAFile config\<rparr>]\<rparr>;
          kubeConfig = kubeConfig\<lparr>kc_AuthInfos := [contextName \<mapsto>
            \<lparr>au_Token = rs_BearerToken config, au_TokenFile = rs_BearerTokenFile config,
             au_Impersonate = im_UserName (rs_Impersonate config), au_ImpersonateUID = [],
             au_ImpersonateGroups = im_Groups (rs_Impersonate config),
             au_ImpersonateUserExtra = im_Extra (rs_Impersonate config),
             au_ClientCertificate = rs_CertFile config, au_ClientCertificateData = rs_CertData config,
             au_ClientKey = rs_KeyFile config, au_ClientKeyData = rs_KeyData config,
             au_Username = rs_Username config, au_Password = rs_Password config,
             au_AuthProvider = rs_AuthProvider config, au_Exec = rs_ExecProvider config\<rparr>]\<rparr>
      in kubeConfig\<lparr>kc_CurrentContext := contextName\<rparr>)"

text \<open>\<open>raw\<close> is \<^theory_text>\<open>clientcmd.NewDefaultClientConfig\<close> with no overrides, followed by \<^theory_text>\<open>RawConfig\<close>.\<close>

definition ConvertRestConfigToRawConfig ::
  "(kube_config \<Rightarrow> kube_config \<times> goerror option) \<Rightarrow> rest_config \<Rightarrow> kube_config \<times> goerror option" where
  "ConvertRestConfigToRawConfig raw config = raw (convertRestConfigToClientConfig config)"

section \<open>Properties\<close>

text \<open>What a client makes of a kubeconfig: the cluster and the user of its current context.\<close>

definition client_of :: "kube_config \<Rightarrow> rest_config option" where
  "client_of kc =
     (case kc_Contexts kc (kc_CurrentContext kc) of
        None \<Rightarrow> None
      | Some cx \<Rightarrow>
          (case (kc_Clusters kc (cx_Cluster cx), kc_AuthInfos kc (cx_AuthInfo cx)) of
             (Some cl, Some au) \<Rightarrow> Some \<lparr>rs_Host = cl_Server cl, rs_Insecure = cl_InsecureSkipTLSVerify cl,
                 rs_ServerName = cl_TLSServerName cl, rs_CAData = cl_CertificateAuthorityData cl,
                 rs_CAFile = cl_CertificateAuthority cl, rs_BearerToken = au_Token au,
                 rs_BearerTokenFile = au_TokenFile au,
                 rs_Impersonate = \<lparr>im_UserName = au_Impersonate au, im_UID = au_ImpersonateUID au,
                   im_Groups = au_ImpersonateGroups au, im_Extra = au_ImpersonateUserExtra au\<rparr>,
                 rs_CertFile = au_ClientCertificate au, rs_CertData = au_ClientCertificateData au,
                 rs_KeyFile = au_ClientKey au, rs_KeyData = au_ClientKeyData au,
                 rs_Username = au_Username au, rs_Password = au_Password au,
                 rs_AuthProvider = au_AuthProvider au, rs_ExecProvider = au_Exec au\<rparr>
           | _ \<Rightarrow> None))"

text \<open>
  Converting the REST configuration to a kubeconfig and reading it back gives the configuration, but
  for the TLS server name and the impersonated UID, which are lost: helm talks to the same server
  with the same credentials, and checks another host name when one is set.\<close>
lemma kube_config_roundtrip:
  "client_of (convertRestConfigToClientConfig config) =
     Some (config\<lparr>rs_ServerName := [], rs_Impersonate := (rs_Impersonate config)\<lparr>im_UID := []\<rparr>\<rparr>)"
  by (simp add: client_of_def convertRestConfigToClientConfig_def empty_kube_config_def Let_def)

end
