(* ===== verification/Go_Store.thy ===== *)
theory Go_Store
  imports Api_Types
begin

text \<open>
  An explicit Go heap, for the one place where sharing matters: the generated deep copies.  A store
  is a list of cells, an address an index; allocation appends.  A slice is a window of a backing
  array and may be nil.  \<open>deep_copyable\<close> is the contract of a \<^theory_text>\<open>DeepCopyInto\<close>: the copy has the same
  abstract value, the old cells are unchanged, and every cell the copy reaches is new.  Its lemmas
  lift the contract to loops, slices, pointers, pairs and structs, and show that the copy and the
  original cannot see each other's writes.
\<close>

type_synonym addr = nat

record slice =
  sl_addr :: addr
  sl_off :: nat
  sl_len :: nat

text \<open>The memory of a \<open>'c\<close> store; \<open>new\<close> is the content of a fresh cell.\<close>

definition alloc :: "'c \<Rightarrow> 'c list \<Rightarrow> addr \<times> 'c list" where
  "alloc c st = (length st, st @ [c])"

definition slice_elems :: "('c \<Rightarrow> 'a list) \<Rightarrow> 'c list \<Rightarrow> slice \<Rightarrow> 'a list" where
  "slice_elems elems st sl = take (sl_len sl) (drop (sl_off sl) (elems (st ! sl_addr sl)))"

text \<open>The loop that calls \<^theory_text>\<open>DeepCopyInto\<close> on every element of a slice; \<open>flat\<close> copies one element of \<^theory_text>\<open>copy\<close>.\<close>

fun copy_elems :: "('a \<Rightarrow> 'c list \<Rightarrow> 'a \<times> 'c list) \<Rightarrow> 'a list \<Rightarrow> 'c list \<Rightarrow> 'a list \<times> 'c list" where
  "copy_elems into [] st = ([], st)"
| "copy_elems into (x # xs) st =
     (let (y, st) = into x st; (ys, st) = copy_elems into xs st in (y # ys, st))"

definition flat :: "'a \<Rightarrow> 'c list \<Rightarrow> 'a \<times> 'c list" where
  "flat v st = (v, st)"

definition copy_slice ::
  "'c \<Rightarrow> ('c \<Rightarrow> 'a list) \<Rightarrow> ('a list \<Rightarrow> 'c) \<Rightarrow> ('a \<Rightarrow> 'c list \<Rightarrow> 'a \<times> 'c list) \<Rightarrow>
     slice option \<Rightarrow> 'c list \<Rightarrow> slice option \<times> 'c list" where
  "copy_slice new elems cell into s st =
     (case s of
        None \<Rightarrow> (None, st)
      | Some sl \<Rightarrow>
          (let (a, st) = alloc new st;
               (ys, st) = copy_elems into (slice_elems elems st sl) st in
           (Some \<lparr>sl_addr = a, sl_off = 0, sl_len = length ys\<rparr>, st[a := cell ys])))"

text \<open>The shape of every \<^theory_text>\<open>DeepCopy\<close>: nil stays nil; otherwise \<^theory_text>\<open>out := new(T); in.DeepCopyInto(out); return out\<close>.\<close>

definition copy_ptr ::
  "'c \<Rightarrow> ('c \<Rightarrow> 'a) \<Rightarrow> ('a \<Rightarrow> 'c) \<Rightarrow> ('a \<Rightarrow> 'c list \<Rightarrow> 'a \<times> 'c list) \<Rightarrow>
     addr option \<Rightarrow> 'c list \<Rightarrow> addr option \<times> 'c list" where
  "copy_ptr new deref cell into p st =
     (case p of
        None \<Rightarrow> (None, st)
      | Some a \<Rightarrow>
          (let (b, st) = alloc new st; (v, st) = into (deref (st ! a)) st in (Some b, st[b := cell v])))"

section \<open>Values behind slices and pointers\<close>

definition view_slice :: "('c \<Rightarrow> 'a list) \<Rightarrow> ('c list \<Rightarrow> 'a \<Rightarrow> 'v) \<Rightarrow> 'c list \<Rightarrow> slice option \<Rightarrow> 'v list option" where
  "view_slice elems view st s = map_option (\<lambda>sl. map (view st) (slice_elems elems st sl)) s"

definition reach_slice :: "('c \<Rightarrow> 'a list) \<Rightarrow> ('c list \<Rightarrow> 'a \<Rightarrow> addr set) \<Rightarrow> 'c list \<Rightarrow> slice option \<Rightarrow> addr set" where
  "reach_slice elems reach st s =
     (case s of None \<Rightarrow> {} | Some sl \<Rightarrow> insert (sl_addr sl) (\<Union>x \<in> set (slice_elems elems st sl). reach st x))"

definition view_ptr :: "('c \<Rightarrow> 'a) \<Rightarrow> ('c list \<Rightarrow> 'a \<Rightarrow> 'v) \<Rightarrow> 'c list \<Rightarrow> addr option \<Rightarrow> 'v option" where
  "view_ptr deref view st p = map_option (\<lambda>a. view st (deref (st ! a))) p"

definition reach_ptr :: "('c \<Rightarrow> 'a) \<Rightarrow> ('c list \<Rightarrow> 'a \<Rightarrow> addr set) \<Rightarrow> 'c list \<Rightarrow> addr option \<Rightarrow> addr set" where
  "reach_ptr deref reach st p = (case p of None \<Rightarrow> {} | Some a \<Rightarrow> insert a (reach st (deref (st ! a))))"

text \<open>Values without pointers.\<close>

definition view_flat :: "'c list \<Rightarrow> 'a \<Rightarrow> 'a" where
  "view_flat st v = v"

definition reach_flat :: "'c list \<Rightarrow> 'a \<Rightarrow> addr set" where
  "reach_flat st v = {}"

section \<open>The contract of a deep copy\<close>

definition within :: "addr set \<Rightarrow> 'c list \<Rightarrow> bool" where
  "within A st \<longleftrightarrow> (\<forall>a \<in> A. a < length st)"

definition fresh :: "addr set \<Rightarrow> 'c list \<Rightarrow> 'c list \<Rightarrow> bool" where
  "fresh A st st' \<longleftrightarrow> (\<forall>a \<in> A. length st \<le> a \<and> a < length st')"

lemma fresh_simps [simp]: "fresh {} st st'"
  "fresh (insert a A) st st' \<longleftrightarrow> length st \<le> a \<and> a < length st' \<and> fresh A st st'"
  "fresh (A \<union> B) st st' \<longleftrightarrow> fresh A st st' \<and> fresh B st st'"
  "fresh (\<Union>x \<in> X. f x) st st' \<longleftrightarrow> (\<forall>x \<in> X. fresh (f x) st st')"
  by (auto simp: fresh_def)

lemma within_simps [simp]: "within {} st"
  "within (insert a A) st \<longleftrightarrow> a < length st \<and> within A st"
  "within (A \<union> B) st \<longleftrightarrow> within A st \<and> within B st"
  "within (\<Union>x \<in> X. f x) st \<longleftrightarrow> (\<forall>x \<in> X. within (f x) st)"
  by (auto simp: within_def)

lemma fresh_weaken: "fresh A st1 st2 \<Longrightarrow> length st \<le> length st1 \<Longrightarrow> length st2 \<le> length st' \<Longrightarrow> fresh A st st'"
  by (fastforce simp: fresh_def)

lemma fresh_not_in: "fresh A st st' \<Longrightarrow> n < length st \<Longrightarrow> n \<notin> A"
  by (fastforce simp: fresh_def)

lemma fresh_within: "fresh A st st' \<Longrightarrow> within A st'"
  by (simp add: fresh_def within_def)

lemma within_mono: "within A st \<Longrightarrow> length st \<le> length st' \<Longrightarrow> within A st'"
  by (fastforce simp: within_def)

locale deep_copyable =
  fixes view :: "'c list \<Rightarrow> 'a \<Rightarrow> 'v"
    and reach :: "'c list \<Rightarrow> 'a \<Rightarrow> addr set"
    and into :: "'a \<Rightarrow> 'c list \<Rightarrow> 'a \<times> 'c list"
  assumes view_local: "\<lbrakk>within (reach st v) st; length st \<le> length st2; \<forall>a \<in> reach st v. st2 ! a = st ! a\<rbrakk> \<Longrightarrow>
      view st2 v = view st v"
    and reach_local: "\<lbrakk>within (reach st v) st; length st \<le> length st2; \<forall>a \<in> reach st v. st2 ! a = st ! a\<rbrakk> \<Longrightarrow>
      reach st2 v = reach st v"
    and into_grows: "within (reach st v) st \<Longrightarrow> into v st = (v', st') \<Longrightarrow> \<exists>new. st' = st @ new"
    and into_view: "within (reach st v) st \<Longrightarrow> into v st = (v', st') \<Longrightarrow> view st' v' = view st v"
    and into_fresh: "within (reach st v) st \<Longrightarrow> into v st = (v', st') \<Longrightarrow> fresh (reach st' v') st st'"
begin

lemma view_append: "within (reach st v) st \<Longrightarrow> view (st @ new) v = view st v"
  by (rule view_local) (auto simp: within_def nth_append)

lemma reach_append: "within (reach st v) st \<Longrightarrow> reach (st @ new) v = reach st v"
  by (rule reach_local) (auto simp: within_def nth_append)

lemma within_append: "within (reach st v) st \<Longrightarrow> within (reach (st @ new) v) (st @ new)"
  by (auto simp: reach_append within_def)

lemma view_update: "within (reach st v) st \<Longrightarrow> a \<notin> reach st v \<Longrightarrow> view (st[a := c]) v = view st v"
  by (rule view_local) (simp_all, metis nth_list_update_neq)

lemma reach_update: "within (reach st v) st \<Longrightarrow> a \<notin> reach st v \<Longrightarrow> reach (st[a := c]) v = reach st v"
  by (rule reach_local) (simp_all, metis nth_list_update_neq)

text \<open>Copy and original do not see each other's writes.\<close>

lemma copy_writes_invisible:
  assumes w: "within (reach st v) st" and i: "into v st = (v', st')" and a: "a \<in> reach st' v'"
  shows "view (st'[a := c]) v = view st v"
proof -
  from into_grows [OF w i] obtain new where st': "st' = st @ new" by blast
  have "a \<notin> reach st' v" using into_fresh [OF w i] a w
    unfolding st' reach_append [OF w] within_def fresh_def by (meson not_less)
  then show ?thesis using w by (simp add: st' view_update within_append view_append)
qed

lemma original_writes_invisible:
  assumes w: "within (reach st v) st" and i: "into v st = (v', st')" and a: "a \<in> reach st v"
  shows "view (st'[a := c]) v' = view st v"
proof -
  have fr: "fresh (reach st' v') st st'" by (rule into_fresh [OF w i])
  then have "within (reach st' v') st'" and "a \<notin> reach st' v'" using w a
    unfolding within_def fresh_def by (blast, meson not_less)
  then show ?thesis using into_view [OF w i] by (simp add: view_update)
qed

text \<open>Lists: the loop over the elements.\<close>

definition list_reach :: "'c list \<Rightarrow> 'a list \<Rightarrow> addr set" where
  "list_reach st xs = (\<Union>x \<in> set xs. reach st x)"

lemma copy_elems_spec:
  assumes "within (list_reach st xs) st" and "copy_elems into xs st = (ys, st')"
  shows "(\<exists>new. st' = st @ new) \<and> map (view st') ys = map (view st) xs \<and>
     fresh (list_reach st' ys) st st' \<and> length ys = length xs"
  using assms
proof (induction xs arbitrary: st ys st')
  case Nil
  then show ?case by (simp add: list_reach_def fresh_def)
next
  case (Cons x xs)
  obtain y st1 where y: "into x st = (y, st1)" by fastforce
  obtain zs st2 where zs: "copy_elems into xs st1 = (zs, st2)" by fastforce
  have r: "ys = y # zs" "st' = st2" using Cons.prems(2) y zs by simp_all
  have wx: "within (reach st x) st" and wxs: "\<And>z. z \<in> set xs \<Longrightarrow> within (reach st z) st"
    using Cons.prems(1) by (auto simp: list_reach_def within_def)
  obtain n1 where s1: "st1 = st @ n1" using into_grows [OF wx y] by blast
  have "within (list_reach st1 xs) st1"
    using wxs within_append by (simp add: list_reach_def s1)
  from Cons.IH [OF this zs] obtain n2 where s2: "st2 = st1 @ n2"
    and a2: "map (view st2) zs = map (view st1) xs" and f2: "fresh (list_reach st2 zs) st1 st2"
    and l2: "length zs = length xs" by blast
  have a1: "map (view st1) xs = map (view st) xs" using wxs by (simp add: s1 view_append)
  have fy: "fresh (reach st1 y) st st1" by (rule into_fresh [OF wx y])
  then have wy: "within (reach st1 y) st1" by (auto simp: within_def fresh_def)
  have "view st2 y = view st x" using into_view [OF wx y] view_append [OF wy] by (simp add: s2)
  moreover have "reach st2 y = reach st1 y" using reach_append [OF wy] by (simp add: s2)
  moreover have "fresh (reach st2 y) st st2" "fresh (list_reach st2 zs) st st2"
    using fresh_weaken [OF fy, of st st2] fresh_weaken [OF f2, of st st2] calculation(2) by (simp_all add: s1 s2)
  ultimately show ?case using a1 a2 l2 by (simp add: r s1 s2 list_reach_def)
qed

lemma slice_copyable:
  assumes inv: "\<And>xs. elems (cell xs) = xs"
  shows "deep_copyable (view_slice elems view) (reach_slice elems reach) (copy_slice new elems cell into)"
proof
  fix st st2 :: "'c list" and s
  assume w: "within (reach_slice elems reach st s) st" and l: "length st \<le> length st2"
    and eq: "\<forall>a \<in> reach_slice elems reach st s. st2 ! a = st ! a"
  have wx: "within (reach st x) st" and ex: "\<forall>a \<in> reach st x. st2 ! a = st ! a"
    if "s = Some sl" "x \<in> set (slice_elems elems st sl)" for sl x
    using w eq that by (auto simp: reach_slice_def within_def)
  have same: "slice_elems elems st2 sl = slice_elems elems st sl" if "s = Some sl" for sl
    using eq that by (simp add: slice_elems_def reach_slice_def)
  show "view_slice elems view st2 s = view_slice elems view st s"
    using same view_local [OF wx l ex] by (cases s) (auto simp: view_slice_def)
  show "reach_slice elems reach st2 s = reach_slice elems reach st s"
    using same reach_local [OF wx l ex] by (cases s) (auto simp: reach_slice_def)
next
  fix st st' :: "'c list" and s s'
  assume w: "within (reach_slice elems reach st s) st" and i: "copy_slice new elems cell into s st = (s', st')"
  have "(\<exists>n. st' = st @ n) \<and> view_slice elems view st' s' = view_slice elems view st s \<and>
      fresh (reach_slice elems reach st' s') st st'"
  proof (cases s)
    case None
    then show ?thesis using i by (auto simp: copy_slice_def view_slice_def reach_slice_def fresh_def)
  next
    case (Some sl)
    let ?xs = "slice_elems elems st sl" and ?st1 = "st @ [new]"
    have a: "sl_addr sl < length st" and wx: "\<And>x. x \<in> set ?xs \<Longrightarrow> within (reach st x) st"
      using w by (auto simp: Some reach_slice_def within_def)
    obtain ys st2 where c: "copy_elems into ?xs ?st1 = (ys, st2)" by fastforce
    have same: "slice_elems elems ?st1 sl = ?xs" using a by (simp add: slice_elems_def nth_append)
    have r: "s' = Some \<lparr>sl_addr = length st, sl_off = 0, sl_len = length ys\<rparr>" "st' = st2[length st := cell ys]"
      using i c same by (simp_all add: Some copy_slice_def alloc_def)
    have "within (list_reach ?st1 ?xs) ?st1"
      using wx within_append by (simp add: list_reach_def)
    from copy_elems_spec [OF this c] obtain n where s2: "st2 = ?st1 @ n"
      and ay: "map (view st2) ys = map (view ?st1) ?xs" and fy: "fresh (list_reach st2 ys) ?st1 st2" by blast
    have s': "st' = st @ cell ys # n" by (simp add: r s2)
    have wy: "within (reach st2 y) st2" and ny: "length st \<notin> reach st2 y" if "y \<in> set ys" for y
      using fy that fresh_within [of "reach st2 y"] fresh_not_in [of "reach st2 y" ?st1 st2 "length st"]
      by (auto simp: list_reach_def)
    have ry: "view st' y = view st2 y" "reach st' y = reach st2 y" if "y \<in> set ys" for y
      using view_update [OF wy ny] reach_update [OF wy ny] that by (simp_all add: r)
    have e: "slice_elems elems st' \<lparr>sl_addr = length st, sl_off = 0, sl_len = length ys\<rparr> = ys"
      by (simp add: slice_elems_def s' inv)
    have "map (view st') ys = map (view st) ?xs" using ry(1) ay wx by (simp add: view_append cong: map_cong)
    moreover have "fresh (insert (length st) (\<Union>y \<in> set ys. reach st' y)) st st'"
      using fy ry(2) fresh_weaken [of "reach st2 y" ?st1 st2 st st' for y] by (simp add: list_reach_def s' s2)
    ultimately show ?thesis by (simp add: Some r(1) view_slice_def reach_slice_def e) (simp add: s')
  qed
  then show "\<exists>n. st' = st @ n" "view_slice elems view st' s' = view_slice elems view st s"
    "fresh (reach_slice elems reach st' s') st st'" by auto
qed

lemma ptr_copyable:
  assumes inv: "\<And>v. deref (cell v) = v"
  shows "deep_copyable (view_ptr deref view) (reach_ptr deref reach) (copy_ptr new deref cell into)"
proof
  fix st st2 :: "'c list" and p
  assume w: "within (reach_ptr deref reach st p) st" and l: "length st \<le> length st2"
    and eq: "\<forall>a \<in> reach_ptr deref reach st p. st2 ! a = st ! a"
  have wx: "within (reach st (deref (st ! a))) st" and ex: "\<forall>b \<in> reach st (deref (st ! a)). st2 ! b = st ! b"
    and same: "st2 ! a = st ! a" if "p = Some a" for a
    using w eq that by (auto simp: reach_ptr_def within_def)
  show "view_ptr deref view st2 p = view_ptr deref view st p"
    using same view_local [OF wx l ex] by (cases p) (auto simp: view_ptr_def)
  show "reach_ptr deref reach st2 p = reach_ptr deref reach st p"
    using same reach_local [OF wx l ex] by (cases p) (auto simp: reach_ptr_def)
next
  fix st st' :: "'c list" and p p'
  assume w: "within (reach_ptr deref reach st p) st" and i: "copy_ptr new deref cell into p st = (p', st')"
  have "(\<exists>n. st' = st @ n) \<and> view_ptr deref view st' p' = view_ptr deref view st p \<and>
      fresh (reach_ptr deref reach st' p') st st'"
  proof (cases p)
    case None
    then show ?thesis using i by (auto simp: copy_ptr_def view_ptr_def reach_ptr_def fresh_def)
  next
    case (Some a)
    let ?v = "deref (st ! a)" and ?st1 = "st @ [new]"
    have a: "a < length st" and wv: "within (reach st ?v) st" using w by (auto simp: Some reach_ptr_def within_def)
    obtain v st2 where c: "into ?v ?st1 = (v, st2)" by fastforce
    have r: "p' = Some (length st)" "st' = st2[length st := cell v]"
      using i c a by (simp_all add: Some copy_ptr_def alloc_def nth_append)
    note w1 = within_append [OF wv]
    obtain n where s2: "st2 = ?st1 @ n" using into_grows [OF w1 c] by blast
    have s': "st' = st @ cell v # n" by (simp add: r s2)
    have f: "fresh (reach st2 v) ?st1 st2" by (rule into_fresh [OF w1 c])
    have wy: "within (reach st2 v) st2" and ny: "length st \<notin> reach st2 v"
      by (rule fresh_within [OF f], rule fresh_not_in [OF f]) simp
    have "view st' v = view st ?v"
      using view_update [OF wy ny] into_view [OF w1 c] wv by (simp add: r view_append)
    moreover have "fresh (insert (length st) (reach st' v)) st st'"
    proof -
      have "reach st' v = reach st2 v" using reach_update [OF wy ny] by (simp add: r(2))
      moreover have "fresh (reach st2 v) st st'" by (rule fresh_weaken [OF f]) (simp_all add: s' s2)
      ultimately show ?thesis by (simp add: s')
    qed
    ultimately show ?thesis by (simp add: Some r(1) view_ptr_def reach_ptr_def s' inv)
  qed
  then show "\<exists>n. st' = st @ n" "view_ptr deref view st' p' = view_ptr deref view st p"
    "fresh (reach_ptr deref reach st' p') st st'" by auto
qed

end

section \<open>Pairs and structs\<close>

definition view_pair where
  "view_pair v1 v2 st p = (v1 st (fst p), v2 st (snd p))"

definition reach_pair :: "('c list \<Rightarrow> 'a \<Rightarrow> addr set) \<Rightarrow> ('c list \<Rightarrow> 'b \<Rightarrow> addr set) \<Rightarrow> 'c list \<Rightarrow> 'a \<times> 'b \<Rightarrow> addr set" where
  "reach_pair r1 r2 st p = r1 st (fst p) \<union> r2 st (snd p)"

definition copy_pair where
  "copy_pair i1 i2 p st = (let (a, st) = i1 (fst p) st; (b, st) = i2 (snd p) st in ((a, b), st))"

lemma flat_copyable: "deep_copyable view_flat reach_flat flat"
  by unfold_locales (auto simp: view_flat_def reach_flat_def flat_def)

lemma pair_copyable:
  assumes d1: "deep_copyable v1 r1 i1" and d2: "deep_copyable v2 r2 i2"
  shows "deep_copyable (view_pair v1 v2) (reach_pair r1 r2) (copy_pair i1 i2)"
proof
  fix st st2 :: "'a list" and p
  assume w: "within (reach_pair r1 r2 st p) st" and l: "length st \<le> length st2"
    and eq: "\<forall>a \<in> reach_pair r1 r2 st p. st2 ! a = st ! a"
  from w eq have a: "within (r1 st (fst p)) st" "within (r2 st (snd p)) st"
    "\<forall>a \<in> r1 st (fst p). st2 ! a = st ! a" "\<forall>a \<in> r2 st (snd p). st2 ! a = st ! a"
    by (simp_all add: reach_pair_def)
  show "view_pair v1 v2 st2 p = view_pair v1 v2 st p"
    using deep_copyable.view_local [OF d1 a(1) l a(3)] deep_copyable.view_local [OF d2 a(2) l a(4)]
    by (simp add: view_pair_def)
  show "reach_pair r1 r2 st2 p = reach_pair r1 r2 st p"
    using deep_copyable.reach_local [OF d1 a(1) l a(3)] deep_copyable.reach_local [OF d2 a(2) l a(4)]
    by (simp add: reach_pair_def)
next
  fix st st' :: "'a list" and p p'
  assume w: "within (reach_pair r1 r2 st p) st" and i: "copy_pair i1 i2 p st = (p', st')"
  from w have w1: "within (r1 st (fst p)) st" and w2: "within (r2 st (snd p)) st" by (simp_all add: reach_pair_def)
  obtain a st1 where a: "i1 (fst p) st = (a, st1)" by fastforce
  obtain b st2 where b: "i2 (snd p) st1 = (b, st2)" by fastforce
  have r: "p' = (a, b)" "st' = st2" using i a b by (simp_all add: copy_pair_def)
  obtain n1 where n1: "st1 = st @ n1" using deep_copyable.into_grows [OF d1 w1 a] by blast
  have w2': "within (r2 st1 (snd p)) st1" unfolding n1 by (rule deep_copyable.within_append [OF d2 w2])
  obtain n2 where n2: "st2 = st1 @ n2" using deep_copyable.into_grows [OF d2 w2' b] by blast
  show "\<exists>n. st' = st @ n" by (simp add: r n1 n2)
  have fa: "fresh (r1 st1 a) st st1" by (rule deep_copyable.into_fresh [OF d1 w1 a])
  have fb: "fresh (r2 st2 b) st1 st2" by (rule deep_copyable.into_fresh [OF d2 w2' b])
  note wa = fresh_within [OF fa]
  have "v1 st2 a = v1 st (fst p)" "r1 st2 a = r1 st1 a"
    using deep_copyable.view_append [OF d1 wa] deep_copyable.reach_append [OF d1 wa]
      deep_copyable.into_view [OF d1 w1 a] by (simp_all add: n2)
  moreover have "v2 st2 b = v2 st (snd p)"
    using deep_copyable.into_view [OF d2 w2' b] deep_copyable.view_append [OF d2 w2] by (simp add: n1)
  moreover have "fresh (r1 st1 a) st st2" "fresh (r2 st2 b) st st2"
    using fresh_weaken [OF fa, of st st2] fresh_weaken [OF fb, of st st2] by (simp_all add: n1 n2)
  ultimately show "view_pair v1 v2 st' p' = view_pair v1 v2 st p" "fresh (reach_pair r1 r2 st' p') st st'"
    by (simp_all add: r view_pair_def reach_pair_def)
qed

text \<open>A struct whose pointers are in \<open>parts\<close>; \<open>build\<close> makes the abstract value.\<close>

lemma struct_copyable:
  assumes d: "deep_copyable view' reach' into'"
    and reach: "\<And>st v. reach st v = reach' st (parts v)"
    and view: "\<And>st v. view st v = build v (view' st (parts v))"
    and upd: "\<And>v p. parts (upd v p) = p" "\<And>v p. build (upd v p) = build v"
    and into: "\<And>v st. into v st = (let (p, st') = into' (parts v) st in (upd v p, st'))"
  shows "deep_copyable view reach into"
proof
  fix st st2 v
  assume "within (reach st v) st" "length st \<le> length st2" "\<forall>a \<in> reach st v. st2 ! a = st ! a"
  then have a: "within (reach' st (parts v)) st" "length st \<le> length st2"
      "\<forall>a \<in> reach' st (parts v). st2 ! a = st ! a" by (simp_all add: reach)
  show "view st2 v = view st v" "reach st2 v = reach st v"
    using deep_copyable.view_local [OF d a] deep_copyable.reach_local [OF d a] by (simp_all add: view reach)
next
  fix st v v' st'
  assume "within (reach st v) st" and i: "into v st = (v', st')"
  then have w: "within (reach' st (parts v)) st" by (simp add: reach)
  obtain p st1 where p: "into' (parts v) st = (p, st1)" by fastforce
  have r: "v' = upd v p" "st' = st1" using i p by (simp_all add: into)
  show "\<exists>n. st' = st @ n" "view st' v' = view st v" "fresh (reach st' v') st st'"
    using deep_copyable.into_grows [OF d w p] deep_copyable.into_view [OF d w p] deep_copyable.into_fresh [OF d w p]
    by (simp_all add: r view reach upd)
qed

lemma flat_struct_copyable:
  assumes "\<And>v st. into v st = (v, st)"
  shows "deep_copyable view_flat reach_flat into"
  by unfold_locales (auto simp: view_flat_def reach_flat_def assms)

end
