(* ===== verification/Deep_Copy.thy ===== *)
theory Deep_Copy
  imports Go_Store
begin

text \<open>
  \<^theory_text>\<open>api/v1alpha1/zz_generated.deepcopy.go\<close> over the explicit store.  The structs here are the Go
  structs with their slices and pointers; their views are the values of \<^theory_text>\<open>Api_Types\<close>, in which the
  rest of the development works.  The metadata of an object is a handle to a cell, since its maps and
  slices are copied by \<^theory_text>\<open>metav1.ObjectMeta.DeepCopyInto\<close>, which is an argument (\<open>copiers\<close>), like
  \<^theory_text>\<open>metav1.ListMeta\<close>, \<^theory_text>\<open>metav1.Time\<close> and \<^theory_text>\<open>clusterv1beta1.Condition\<close>; \<open>copiers_ok\<close> is what these
  functions document.  The lemmas show that every deep copy has the view of its original and shares
  no cell with it.
\<close>

section \<open>Go structs\<close>

record go_condition =
  gc_ValidationType :: string
  gc_ValidationRule :: string
  gc_Message :: string
  gc_Details :: "slice option"
  gc_Failures :: "slice option"
  gc_Status :: string
  gc_LastValidationTime :: gotime

record go_status =
  gs_State :: string
  gs_Conditions :: "slice option"
  gs_ValidationConditions :: "slice option"

record go_result =
  gr_TypeMeta :: type_meta
  gr_ObjectMeta :: addr
  gr_Spec :: validation_result_spec
  gr_Status :: go_status

record go_result_list =
  gl_TypeMeta :: type_meta
  gl_ListMeta :: addr
  gl_Items :: "slice option"

record go_config_spec =
  gp_HelmConfig :: helm_config
  gp_Plugins :: "slice option"
  gp_Sink :: "addr option"

record go_config_status =
  gt_Conditions :: "slice option"

record go_config =
  gg_TypeMeta :: type_meta
  gg_ObjectMeta :: addr
  gg_Spec :: go_config_spec
  gg_Status :: go_config_status

record go_config_list =
  gk_TypeMeta :: type_meta
  gk_ListMeta :: addr
  gk_Items :: "slice option"

text \<open>The contents of a cell: a backing array, metadata, or what a pointer points to.\<close>

datatype cell =
    CNew
  | CStrings (cell_strings: "string list")
  | CConditions (cell_conditions: "cluster_condition list")
  | CValidationConditions (cell_vconditions: "go_condition list")
  | CReleases (cell_releases: "plugin_release list")
  | CPluginConditions (cell_pconditions: "plugin_condition list")
  | CResults (cell_results: "go_result list")
  | CConfigs (cell_configs: "go_config list")
  | CObjectMeta (cell_meta: object_meta)
  | CListMeta (cell_listmeta: string)
  | CHelmChart (cell_chart: helm_chart)
  | CHelmConfig (cell_helmconfig: helm_config)
  | CHelmRelease (cell_release: plugin_release)
  | CSink (cell_sink: sink_config)
  | CValidationCondition (cell_vcondition: go_condition)
  | CResult (cell_result: go_result)
  | CResultList (cell_resultlist: go_result_list)
  | CResultSpec (cell_resultspec: validation_result_spec)
  | CResultStatus (cell_resultstatus: go_status)
  | CConfig (cell_config: go_config)
  | CConfigList (cell_configlist: go_config_list)
  | CConfigSpec (cell_configspec: go_config_spec)
  | CConfigStatus (cell_configstatus: go_config_status)
  | CPluginCondition (cell_pcondition: plugin_condition)

type_synonym store = "cell list"
type_synonym 'a copier = "'a \<Rightarrow> store \<Rightarrow> 'a \<times> store"

record copiers =
  cp_ObjectMeta :: "addr copier"
  cp_ListMeta :: "addr copier"
  cp_Time :: "gotime \<Rightarrow> gotime"
  cp_Condition :: "cluster_condition \<Rightarrow> cluster_condition"

section \<open>DeepCopyInto\<close>

text \<open>\<^theory_text>\<open>*out = *in\<close> for the structs without pointers.\<close>

definition HelmChart_into :: "helm_chart copier" where
  "HelmChart_into v st = (v, st)"

definition HelmConfig_into :: "helm_config copier" where
  "HelmConfig_into v st = (v, st)"

definition HelmRelease_into :: "plugin_release copier" where
  "HelmRelease_into v st = (let out = v in (out\<lparr>pr_Chart := pr_Chart v\<rparr>, st))"

definition Sink_into :: "sink_config copier" where
  "Sink_into v st = (v, st)"

definition ResultSpec_into :: "validation_result_spec copier" where
  "ResultSpec_into v st = (v, st)"

definition PluginCondition_into :: "copiers \<Rightarrow> plugin_condition copier" where
  "PluginCondition_into cp v st =
     (let out = v in (out\<lparr>pc_LastTransitionTime := cp_Time cp (pc_LastTransitionTime v)\<rparr>, st))"

abbreviation copy_strings :: "slice option copier" where
  "copy_strings \<equiv> copy_slice CNew cell_strings CStrings flat"

definition ValidationCondition_into :: "copiers \<Rightarrow> go_condition copier" where
  "ValidationCondition_into cp v st =
     (let out = v;
          (ds, st) = copy_strings (gc_Details v) st; out = out\<lparr>gc_Details := ds\<rparr>;
          (fs, st) = copy_strings (gc_Failures v) st; out = out\<lparr>gc_Failures := fs\<rparr> in
      (out\<lparr>gc_LastValidationTime := cp_Time cp (gc_LastValidationTime v)\<rparr>, st))"

definition Condition_into :: "copiers \<Rightarrow> cluster_condition copier" where
  "Condition_into cp v st = (cp_Condition cp v, st)"

definition ResultStatus_into :: "copiers \<Rightarrow> go_status copier" where
  "ResultStatus_into cp v st =
     (let out = v;
          (cs, st) = copy_slice CNew cell_conditions CConditions (Condition_into cp) (gs_Conditions v) st;
          out = out\<lparr>gs_Conditions := cs\<rparr>;
          (vs, st) = copy_slice CNew cell_vconditions CValidationConditions (ValidationCondition_into cp)
            (gs_ValidationConditions v) st in
      (out\<lparr>gs_ValidationConditions := vs\<rparr>, st))"

definition Result_into :: "copiers \<Rightarrow> go_result copier" where
  "Result_into cp v st =
     (let out = v; out = out\<lparr>gr_TypeMeta := gr_TypeMeta v\<rparr>;
          (m, st) = cp_ObjectMeta cp (gr_ObjectMeta v) st; out = out\<lparr>gr_ObjectMeta := m\<rparr>;
          out = out\<lparr>gr_Spec := gr_Spec v\<rparr>;
          (s, st) = ResultStatus_into cp (gr_Status v) st in
      (out\<lparr>gr_Status := s\<rparr>, st))"

definition ResultList_into :: "copiers \<Rightarrow> go_result_list copier" where
  "ResultList_into cp v st =
     (let out = v; out = out\<lparr>gl_TypeMeta := gl_TypeMeta v\<rparr>;
          (m, st) = cp_ListMeta cp (gl_ListMeta v) st; out = out\<lparr>gl_ListMeta := m\<rparr>;
          (is, st) = copy_slice CNew cell_results CResults (Result_into cp) (gl_Items v) st in
      (out\<lparr>gl_Items := is\<rparr>, st))"

text \<open>The plugins are copied element by element with \<^theory_text>\<open>copy\<close>, the sink into a fresh struct.\<close>

definition ConfigSpec_into :: "go_config_spec copier" where
  "ConfigSpec_into v st =
     (let out = v; out = out\<lparr>gp_HelmConfig := gp_HelmConfig v\<rparr>;
          (ps, st) = copy_slice CNew cell_releases CReleases flat (gp_Plugins v) st;
          out = out\<lparr>gp_Plugins := ps\<rparr>;
          (s, st) = copy_ptr CNew cell_sink CSink flat (gp_Sink v) st in
      (out\<lparr>gp_Sink := s\<rparr>, st))"

definition ConfigStatus_into :: "copiers \<Rightarrow> go_config_status copier" where
  "ConfigStatus_into cp v st =
     (let out = v;
          (cs, st) = copy_slice CNew cell_pconditions CPluginConditions (PluginCondition_into cp) (gt_Conditions v) st in
      (out\<lparr>gt_Conditions := cs\<rparr>, st))"

definition Config_into :: "copiers \<Rightarrow> go_config copier" where
  "Config_into cp v st =
     (let out = v; out = out\<lparr>gg_TypeMeta := gg_TypeMeta v\<rparr>;
          (m, st) = cp_ObjectMeta cp (gg_ObjectMeta v) st; out = out\<lparr>gg_ObjectMeta := m\<rparr>;
          (p, st) = ConfigSpec_into (gg_Spec v) st; out = out\<lparr>gg_Spec := p\<rparr>;
          (s, st) = ConfigStatus_into cp (gg_Status v) st in
      (out\<lparr>gg_Status := s\<rparr>, st))"

definition ConfigList_into :: "copiers \<Rightarrow> go_config_list copier" where
  "ConfigList_into cp v st =
     (let out = v; out = out\<lparr>gk_TypeMeta := gk_TypeMeta v\<rparr>;
          (m, st) = cp_ListMeta cp (gk_ListMeta v) st; out = out\<lparr>gk_ListMeta := m\<rparr>;
          (is, st) = copy_slice CNew cell_configs CConfigs (Config_into cp) (gk_Items v) st in
      (out\<lparr>gk_Items := is\<rparr>, st))"

section \<open>DeepCopy and DeepCopyObject\<close>

definition HelmChart_DeepCopy :: "addr option copier" where
  "HelmChart_DeepCopy = copy_ptr CNew cell_chart CHelmChart HelmChart_into"

definition HelmConfig_DeepCopy :: "addr option copier" where
  "HelmConfig_DeepCopy = copy_ptr CNew cell_helmconfig CHelmConfig HelmConfig_into"

definition HelmRelease_DeepCopy :: "addr option copier" where
  "HelmRelease_DeepCopy = copy_ptr CNew cell_release CHelmRelease HelmRelease_into"

definition Sink_DeepCopy :: "addr option copier" where
  "Sink_DeepCopy = copy_ptr CNew cell_sink CSink Sink_into"

definition ValidationCondition_DeepCopy :: "copiers \<Rightarrow> addr option copier" where
  "ValidationCondition_DeepCopy cp = copy_ptr CNew cell_vcondition CValidationCondition (ValidationCondition_into cp)"

definition Result_DeepCopy :: "copiers \<Rightarrow> addr option copier" where
  "Result_DeepCopy cp = copy_ptr CNew cell_result CResult (Result_into cp)"

definition ResultList_DeepCopy :: "copiers \<Rightarrow> addr option copier" where
  "ResultList_DeepCopy cp = copy_ptr CNew cell_resultlist CResultList (ResultList_into cp)"

definition ResultSpec_DeepCopy :: "addr option copier" where
  "ResultSpec_DeepCopy = copy_ptr CNew cell_resultspec CResultSpec ResultSpec_into"

definition ResultStatus_DeepCopy :: "copiers \<Rightarrow> addr option copier" where
  "ResultStatus_DeepCopy cp = copy_ptr CNew cell_resultstatus CResultStatus (ResultStatus_into cp)"

definition Config_DeepCopy :: "copiers \<Rightarrow> addr option copier" where
  "Config_DeepCopy cp = copy_ptr CNew cell_config CConfig (Config_into cp)"

definition ConfigList_DeepCopy :: "copiers \<Rightarrow> addr option copier" where
  "ConfigList_DeepCopy cp = copy_ptr CNew cell_configlist CConfigList (ConfigList_into cp)"

definition ConfigSpec_DeepCopy :: "addr option copier" where
  "ConfigSpec_DeepCopy = copy_ptr CNew cell_configspec CConfigSpec ConfigSpec_into"

definition ConfigStatus_DeepCopy :: "copiers \<Rightarrow> addr option copier" where
  "ConfigStatus_DeepCopy cp = copy_ptr CNew cell_configstatus CConfigStatus (ConfigStatus_into cp)"

definition PluginCondition_DeepCopy :: "copiers \<Rightarrow> addr option copier" where
  "PluginCondition_DeepCopy cp = copy_ptr CNew cell_pcondition CPluginCondition (PluginCondition_into cp)"

text \<open>
  \<^theory_text>\<open>DeepCopyObject\<close> returns a \<^theory_text>\<open>runtime.Object\<close>: an interface value, nil or a pointer with its type.
  A nil pointer gives the nil interface, not an interface that holds a nil pointer.
\<close>

datatype runtime_object = ResultObject "addr option" | ResultListObject "addr option"
  | ConfigObject "addr option" | ConfigListObject "addr option"

definition as_object :: "(addr option \<Rightarrow> runtime_object) \<Rightarrow> addr option \<times> store \<Rightarrow> runtime_object option \<times> store" where
  "as_object mk r = (case r of (c, st) \<Rightarrow> if c \<noteq> None then (Some (mk c), st) else (None, st))"

definition Result_DeepCopyObject where
  "Result_DeepCopyObject cp p st = as_object ResultObject (Result_DeepCopy cp p st)"

definition ResultList_DeepCopyObject where
  "ResultList_DeepCopyObject cp p st = as_object ResultListObject (ResultList_DeepCopy cp p st)"

definition Config_DeepCopyObject where
  "Config_DeepCopyObject cp p st = as_object ConfigObject (Config_DeepCopy cp p st)"

definition ConfigList_DeepCopyObject where
  "ConfigList_DeepCopyObject cp p st = as_object ConfigListObject (ConfigList_DeepCopy cp p st)"

section \<open>Views\<close>

definition or_nil :: "'a list option \<Rightarrow> 'a list" where
  "or_nil s = (case s of None \<Rightarrow> [] | Some xs \<Rightarrow> xs)"

abbreviation view_strings where "view_strings \<equiv> view_slice cell_strings view_flat"
abbreviation reach_strings where "reach_strings \<equiv> reach_slice cell_strings reach_flat"

definition view_condition :: "store \<Rightarrow> go_condition \<Rightarrow> validation_condition" where
  "view_condition st v = \<lparr>c_ValidationType = gc_ValidationType v, c_ValidationRule = gc_ValidationRule v,
     c_Message = gc_Message v, c_Details = or_nil (view_strings st (gc_Details v)),
     c_Failures = or_nil (view_strings st (gc_Failures v)), c_Status = gc_Status v,
     c_LastValidationTime = gc_LastValidationTime v\<rparr>"

definition reach_condition :: "store \<Rightarrow> go_condition \<Rightarrow> addr set" where
  "reach_condition st v = reach_strings st (gc_Details v) \<union> reach_strings st (gc_Failures v)"

definition view_status :: "store \<Rightarrow> go_status \<Rightarrow> validation_result_status" where
  "view_status st v = \<lparr>st_State = gs_State v,
     st_Conditions = or_nil (view_slice cell_conditions view_flat st (gs_Conditions v)),
     st_ValidationConditions = or_nil (view_slice cell_vconditions view_condition st (gs_ValidationConditions v))\<rparr>"

definition reach_status :: "store \<Rightarrow> go_status \<Rightarrow> addr set" where
  "reach_status st v = reach_slice cell_conditions reach_flat st (gs_Conditions v) \<union>
     reach_slice cell_vconditions reach_condition st (gs_ValidationConditions v)"

definition view_meta :: "store \<Rightarrow> addr \<Rightarrow> object_meta" where
  "view_meta st a = cell_meta (st ! a)"

definition view_listmeta :: "store \<Rightarrow> addr \<Rightarrow> string" where
  "view_listmeta st a = cell_listmeta (st ! a)"

definition reach_meta :: "store \<Rightarrow> addr \<Rightarrow> addr set" where
  "reach_meta st a = {a}"

definition view_result :: "store \<Rightarrow> go_result \<Rightarrow> validation_result" where
  "view_result st v = \<lparr>vr_TypeMeta = gr_TypeMeta v, vr_ObjectMeta = view_meta st (gr_ObjectMeta v),
     vr_Spec = gr_Spec v, vr_Status = view_status st (gr_Status v)\<rparr>"

definition reach_result :: "store \<Rightarrow> go_result \<Rightarrow> addr set" where
  "reach_result st v = reach_meta st (gr_ObjectMeta v) \<union> reach_status st (gr_Status v)"

definition view_resultlist :: "store \<Rightarrow> go_result_list \<Rightarrow> type_meta \<times> string \<times> validation_result list" where
  "view_resultlist st v = (gl_TypeMeta v, view_listmeta st (gl_ListMeta v),
     or_nil (view_slice cell_results view_result st (gl_Items v)))"

definition reach_resultlist :: "store \<Rightarrow> go_result_list \<Rightarrow> addr set" where
  "reach_resultlist st v = reach_meta st (gl_ListMeta v) \<union> reach_slice cell_results reach_result st (gl_Items v)"

definition view_spec :: "store \<Rightarrow> go_config_spec \<Rightarrow> validator_config_spec" where
  "view_spec st v = \<lparr>vcs_HelmConfig = gp_HelmConfig v,
     vcs_Plugins = or_nil (view_slice cell_releases view_flat st (gp_Plugins v)),
     vcs_Sink = view_ptr cell_sink view_flat st (gp_Sink v)\<rparr>"

definition reach_spec :: "store \<Rightarrow> go_config_spec \<Rightarrow> addr set" where
  "reach_spec st v = reach_slice cell_releases reach_flat st (gp_Plugins v) \<union> reach_ptr cell_sink reach_flat st (gp_Sink v)"

definition view_cstatus :: "store \<Rightarrow> go_config_status \<Rightarrow> plugin_condition list" where
  "view_cstatus st v = or_nil (view_slice cell_pconditions view_flat st (gt_Conditions v))"

definition reach_cstatus :: "store \<Rightarrow> go_config_status \<Rightarrow> addr set" where
  "reach_cstatus st v = reach_slice cell_pconditions reach_flat st (gt_Conditions v)"

definition view_config :: "store \<Rightarrow> go_config \<Rightarrow> type_meta \<times> validator_config" where
  "view_config st v = (gg_TypeMeta v, \<lparr>vc_ObjectMeta = view_meta st (gg_ObjectMeta v),
     vc_Spec = view_spec st (gg_Spec v), vc_Conditions = view_cstatus st (gg_Status v)\<rparr>)"

definition reach_config :: "store \<Rightarrow> go_config \<Rightarrow> addr set" where
  "reach_config st v = reach_meta st (gg_ObjectMeta v) \<union> (reach_spec st (gg_Spec v) \<union> reach_cstatus st (gg_Status v))"

definition view_configlist :: "store \<Rightarrow> go_config_list \<Rightarrow> type_meta \<times> string \<times> (type_meta \<times> validator_config) list" where
  "view_configlist st v = (gk_TypeMeta v, view_listmeta st (gk_ListMeta v),
     or_nil (view_slice cell_configs view_config st (gk_Items v)))"

definition reach_configlist :: "store \<Rightarrow> go_config_list \<Rightarrow> addr set" where
  "reach_configlist st v = reach_meta st (gk_ListMeta v) \<union> reach_slice cell_configs reach_config st (gk_Items v)"

definition copiers_ok :: "copiers \<Rightarrow> bool" where
  "copiers_ok cp \<longleftrightarrow> deep_copyable view_meta reach_meta (cp_ObjectMeta cp) \<and>
     deep_copyable view_listmeta reach_meta (cp_ListMeta cp) \<and>
     (\<forall>t. cp_Time cp t = t) \<and> (\<forall>c. cp_Condition cp c = c)"

section \<open>Every deep copy keeps its contract\<close>

interpretation helm_release: deep_copyable view_flat reach_flat HelmRelease_into
  by (rule flat_struct_copyable) (simp add: HelmRelease_into_def)

interpretation strings: deep_copyable view_strings reach_strings copy_strings
  by (rule deep_copyable.slice_copyable [OF flat_copyable]) simp

interpretation releases: deep_copyable "view_slice cell_releases view_flat" "reach_slice cell_releases reach_flat"
  "copy_slice CNew cell_releases CReleases flat"
  by (rule deep_copyable.slice_copyable [OF flat_copyable]) simp

interpretation sink_ptr: deep_copyable "view_ptr cell_sink view_flat" "reach_ptr cell_sink reach_flat"
  "copy_ptr CNew cell_sink CSink flat"
  by (rule deep_copyable.ptr_copyable [OF flat_copyable]) simp

interpretation config_spec: deep_copyable view_spec reach_spec ConfigSpec_into
  by (rule struct_copyable [OF pair_copyable [OF releases.deep_copyable_axioms sink_ptr.deep_copyable_axioms],
        where parts = "\<lambda>v. (gp_Plugins v, gp_Sink v)" and upd = "\<lambda>v p. v\<lparr>gp_Plugins := fst p, gp_Sink := snd p\<rparr>"
        and build = "\<lambda>v p. \<lparr>vcs_HelmConfig = gp_HelmConfig v, vcs_Plugins = or_nil (fst p), vcs_Sink = snd p\<rparr>"])
     (simp_all add: reach_spec_def reach_pair_def view_spec_def view_pair_def fun_eq_iff ConfigSpec_into_def
        copy_pair_def Let_def split: prod.split)

lemma condition_copyable:
  assumes "copiers_ok cp"
  shows "deep_copyable view_condition reach_condition (ValidationCondition_into cp)"
  by (rule struct_copyable [OF pair_copyable [OF strings.deep_copyable_axioms strings.deep_copyable_axioms],
        where parts = "\<lambda>v. (gc_Details v, gc_Failures v)" and upd = "\<lambda>v p. v\<lparr>gc_Details := fst p, gc_Failures := snd p\<rparr>"
        and build = "\<lambda>v p. \<lparr>c_ValidationType = gc_ValidationType v, c_ValidationRule = gc_ValidationRule v,
          c_Message = gc_Message v, c_Details = or_nil (fst p), c_Failures = or_nil (snd p),
          c_Status = gc_Status v, c_LastValidationTime = gc_LastValidationTime v\<rparr>"])
     (use assms in \<open>simp_all add: reach_condition_def reach_pair_def view_condition_def view_pair_def fun_eq_iff
        ValidationCondition_into_def copy_pair_def copiers_ok_def Let_def split: prod.split\<close>)

lemma cluster_condition_copyable:
  "copiers_ok cp \<Longrightarrow> deep_copyable view_flat reach_flat (Condition_into cp)"
  by (rule flat_struct_copyable) (simp add: Condition_into_def copiers_ok_def)

lemma plugin_condition_copyable:
  "copiers_ok cp \<Longrightarrow> deep_copyable view_flat reach_flat (PluginCondition_into cp)"
  by (rule flat_struct_copyable) (simp add: PluginCondition_into_def copiers_ok_def)

lemma status_copyable:
  assumes ok: "copiers_ok cp"
  shows "deep_copyable view_status reach_status (ResultStatus_into cp)"
  by (rule struct_copyable [OF pair_copyable [
          OF deep_copyable.slice_copyable [OF cluster_condition_copyable [OF ok], where elems = cell_conditions and cell = CConditions and new = CNew]
             deep_copyable.slice_copyable [OF condition_copyable [OF ok], where elems = cell_vconditions and cell = CValidationConditions and new = CNew]],
        where parts = "\<lambda>v. (gs_Conditions v, gs_ValidationConditions v)"
        and upd = "\<lambda>v p. v\<lparr>gs_Conditions := fst p, gs_ValidationConditions := snd p\<rparr>"
        and build = "\<lambda>v p. \<lparr>st_State = gs_State v, st_Conditions = or_nil (fst p), st_ValidationConditions = or_nil (snd p)\<rparr>"])
     (simp_all add: reach_status_def reach_pair_def view_status_def view_pair_def fun_eq_iff
        ResultStatus_into_def copy_pair_def Let_def split: prod.split)

lemma meta_copyable:
  assumes "copiers_ok cp"
  shows "deep_copyable view_meta reach_meta (cp_ObjectMeta cp)" "deep_copyable view_listmeta reach_meta (cp_ListMeta cp)"
  using assms by (simp_all add: copiers_ok_def)

lemma result_copyable:
  assumes ok: "copiers_ok cp"
  shows "deep_copyable view_result reach_result (Result_into cp)"
  by (rule struct_copyable [OF pair_copyable [OF meta_copyable(1) [OF ok] status_copyable [OF ok]],
        where parts = "\<lambda>v. (gr_ObjectMeta v, gr_Status v)"
        and upd = "\<lambda>v p. v\<lparr>gr_ObjectMeta := fst p, gr_Status := snd p\<rparr>"
        and build = "\<lambda>v p. \<lparr>vr_TypeMeta = gr_TypeMeta v, vr_ObjectMeta = fst p, vr_Spec = gr_Spec v, vr_Status = snd p\<rparr>"])
     (simp_all add: reach_result_def reach_pair_def view_result_def view_pair_def fun_eq_iff
        Result_into_def copy_pair_def Let_def split: prod.split)

lemma resultlist_copyable:
  assumes ok: "copiers_ok cp"
  shows "deep_copyable view_resultlist reach_resultlist (ResultList_into cp)"
  by (rule struct_copyable [OF pair_copyable [OF meta_copyable(2) [OF ok]
          deep_copyable.slice_copyable [OF result_copyable [OF ok], where elems = cell_results and cell = CResults and new = CNew]],
        where parts = "\<lambda>v. (gl_ListMeta v, gl_Items v)"
        and upd = "\<lambda>v p. v\<lparr>gl_ListMeta := fst p, gl_Items := snd p\<rparr>"
        and build = "\<lambda>v p. (gl_TypeMeta v, fst p, or_nil (snd p))"])
     (simp_all add: reach_resultlist_def reach_pair_def view_resultlist_def view_pair_def fun_eq_iff
        ResultList_into_def copy_pair_def Let_def split: prod.split)

lemma cstatus_copyable:
  assumes ok: "copiers_ok cp"
  shows "deep_copyable view_cstatus reach_cstatus (ConfigStatus_into cp)"
  by (rule struct_copyable [OF deep_copyable.slice_copyable [OF plugin_condition_copyable [OF ok],
          where elems = cell_pconditions and cell = CPluginConditions and new = CNew],
        where parts = gt_Conditions and upd = "\<lambda>v p. v\<lparr>gt_Conditions := p\<rparr>" and build = "\<lambda>v p. or_nil p"])
     (simp_all add: reach_cstatus_def view_cstatus_def fun_eq_iff ConfigStatus_into_def Let_def split: prod.split)

lemma config_copyable:
  assumes ok: "copiers_ok cp"
  shows "deep_copyable view_config reach_config (Config_into cp)"
  by (rule struct_copyable [OF pair_copyable [OF meta_copyable(1) [OF ok]
          pair_copyable [OF config_spec.deep_copyable_axioms cstatus_copyable [OF ok]]],
        where parts = "\<lambda>v. (gg_ObjectMeta v, gg_Spec v, gg_Status v)"
        and upd = "\<lambda>v p. v\<lparr>gg_ObjectMeta := fst p, gg_Spec := fst (snd p), gg_Status := snd (snd p)\<rparr>"
        and build = "\<lambda>v p. (gg_TypeMeta v, \<lparr>vc_ObjectMeta = fst p, vc_Spec = fst (snd p), vc_Conditions = snd (snd p)\<rparr>)"])
     (simp_all add: reach_config_def reach_pair_def view_config_def view_pair_def fun_eq_iff
        Config_into_def copy_pair_def Let_def split: prod.split)

lemma configlist_copyable:
  assumes ok: "copiers_ok cp"
  shows "deep_copyable view_configlist reach_configlist (ConfigList_into cp)"
  by (rule struct_copyable [OF pair_copyable [OF meta_copyable(2) [OF ok]
          deep_copyable.slice_copyable [OF config_copyable [OF ok], where elems = cell_configs and cell = CConfigs and new = CNew]],
        where parts = "\<lambda>v. (gk_ListMeta v, gk_Items v)"
        and upd = "\<lambda>v p. v\<lparr>gk_ListMeta := fst p, gk_Items := snd p\<rparr>"
        and build = "\<lambda>v p. (gk_TypeMeta v, fst p, or_nil (snd p))"])
     (simp_all add: reach_configlist_def reach_pair_def view_configlist_def view_pair_def fun_eq_iff
        ConfigList_into_def copy_pair_def Let_def split: prod.split)

text \<open>The contract of a \<^theory_text>\<open>DeepCopy\<close>, as one predicate on a pointer copier.\<close>

lemma DeepCopy_independent:
  assumes d: "deep_copyable view reach into" and inv: "\<And>v. deref (cell v) = v"
    and w: "within (reach_ptr deref reach st p) st" and c: "copy_ptr CNew deref cell into p st = (p', st')"
  shows "take (length st) st' = st \<and> (p' = None \<longleftrightarrow> p = None) \<and>
     view_ptr deref view st' p' = view_ptr deref view st p \<and>
     reach_ptr deref reach st' p' \<inter> reach_ptr deref reach st p = {} \<and>
     (\<forall>a x. a \<in> reach_ptr deref reach st' p' \<longrightarrow> view_ptr deref view (st'[a := x]) p = view_ptr deref view st p) \<and>
     (\<forall>a x. a \<in> reach_ptr deref reach st p \<longrightarrow> view_ptr deref view (st'[a := x]) p' = view_ptr deref view st p)"
proof -
  note D = deep_copyable.ptr_copyable [where deref = deref and cell = cell and new = CNew, OF d inv]
  obtain n where n: "st' = st @ n" using deep_copyable.into_grows [OF D w c] by blast
  have v: "view_ptr deref view st' p' = view_ptr deref view st p" by (rule deep_copyable.into_view [OF D w c])
  have f: "fresh (reach_ptr deref reach st' p') st st'" by (rule deep_copyable.into_fresh [OF D w c])
  have "p' = None \<longleftrightarrow> p = None" using v by (auto simp: view_ptr_def)
  moreover have "a \<notin> reach_ptr deref reach st' p'" if "a \<in> reach_ptr deref reach st p" for a
    using fresh_not_in [OF f] w that by (simp add: within_def)
  ultimately show ?thesis using n v
      deep_copyable.copy_writes_invisible [OF D w c] deep_copyable.original_writes_invisible [OF D w c]
    by auto
qed

section \<open>Properties\<close>

text \<open>C34: 
  \<^theory_text>\<open>ValidationResult.DeepCopy\<close> gives a value.  The copy reads as the same ValidationResult, nothing
  that existed is changed, copy and original share no cell, and a write to any cell of the one is
  invisible in the other; nil is copied to nil.\<close>
theorem Result_DeepCopy_independent:
  assumes "copiers_ok cp" and "within (reach_ptr cell_result reach_result st p) st"
    and "Result_DeepCopy cp p st = (p', st')"
  shows "take (length st) st' = st \<and> (p' = None \<longleftrightarrow> p = None) \<and>
     view_ptr cell_result view_result st' p' = view_ptr cell_result view_result st p \<and>
     reach_ptr cell_result reach_result st' p' \<inter> reach_ptr cell_result reach_result st p = {} \<and>
     (\<forall>a x. a \<in> reach_ptr cell_result reach_result st' p' \<longrightarrow>
        view_ptr cell_result view_result (st'[a := x]) p = view_ptr cell_result view_result st p) \<and>
     (\<forall>a x. a \<in> reach_ptr cell_result reach_result st p \<longrightarrow>
        view_ptr cell_result view_result (st'[a := x]) p' = view_ptr cell_result view_result st p)"
  using DeepCopy_independent [OF result_copyable [OF assms(1)] _ assms(2), of CResult p' st'] assms(3)
  by (simp add: Result_DeepCopy_def)

text \<open>C35: 
  The same for \<^theory_text>\<open>ValidatorConfig.DeepCopy\<close>, whose plugins, sink, conditions and metadata all get
  cells of their own.\<close>
theorem Config_DeepCopy_independent:
  assumes "copiers_ok cp" and "within (reach_ptr cell_config reach_config st p) st"
    and "Config_DeepCopy cp p st = (p', st')"
  shows "take (length st) st' = st \<and> (p' = None \<longleftrightarrow> p = None) \<and>
     view_ptr cell_config view_config st' p' = view_ptr cell_config view_config st p \<and>
     reach_ptr cell_config reach_config st' p' \<inter> reach_ptr cell_config reach_config st p = {} \<and>
     (\<forall>a x. a \<in> reach_ptr cell_config reach_config st' p' \<longrightarrow>
        view_ptr cell_config view_config (st'[a := x]) p = view_ptr cell_config view_config st p) \<and>
     (\<forall>a x. a \<in> reach_ptr cell_config reach_config st p \<longrightarrow>
        view_ptr cell_config view_config (st'[a := x]) p' = view_ptr cell_config view_config st p)"
  using DeepCopy_independent [OF config_copyable [OF assms(1)] _ assms(2), of CConfig p' st'] assms(3)
  by (simp add: Config_DeepCopy_def)

definition test_copiers :: copiers where
  "test_copiers = \<lparr>cp_ObjectMeta = (\<lambda>a st. (length st, st @ [st ! a])),
     cp_ListMeta = (\<lambda>a st. (length st, st @ [st ! a])), cp_Time = id, cp_Condition = id\<rparr>"

lemma test_copiers_ok: "copiers_ok test_copiers"
  by (auto simp: copiers_ok_def test_copiers_def view_meta_def view_listmeta_def reach_meta_def
      nth_append intro!: deep_copyable.intro)

text \<open>A result with two conditions that share a details array.\<close>

definition shared_condition :: go_condition where
  "shared_condition = \<lparr>gc_ValidationType = ''t'', gc_ValidationRule = ''r'', gc_Message = [],
     gc_Details = Some \<lparr>sl_addr = 0, sl_off = 1, sl_len = 1\<rparr>, gc_Failures = None,
     gc_Status = ConditionTrue, gc_LastValidationTime = 5\<rparr>"

definition shared_store :: store where
  "shared_store = [CStrings [''a'', ''b''],
     CValidationConditions [shared_condition, shared_condition], CObjectMeta empty_meta,
     CResult \<lparr>gr_TypeMeta = \<lparr>tm_APIVersion = [], tm_Kind = []\<rparr>, gr_ObjectMeta = 2,
       gr_Spec = \<lparr>vrs_Plugin = ''AWS'', vrs_ExpectedResults = 2\<rparr>,
       gr_Status = \<lparr>gs_State = ValidationSucceeded, gs_Conditions = None,
         gs_ValidationConditions = Some \<lparr>sl_addr = 1, sl_off = 0, sl_len = 2\<rparr>\<rparr>\<rparr>]"

theorem Result_DeepCopy_independent_witness:
  "case Result_DeepCopy test_copiers (Some 3) shared_store of (p', st') \<Rightarrow>
     view_ptr cell_result view_result st' p' = view_ptr cell_result view_result shared_store (Some 3)"
proof -
  obtain p' st' where c: "Result_DeepCopy test_copiers (Some 3) shared_store = (p', st')" by fastforce
  have "within (reach_ptr cell_result reach_result shared_store (Some 3)) shared_store"
    by (simp add: shared_store_def reach_ptr_def reach_result_def reach_meta_def reach_status_def
        reach_slice_def slice_elems_def reach_condition_def shared_condition_def reach_flat_def)
  from Result_DeepCopy_independent [OF test_copiers_ok this c] show ?thesis using c by simp
qed

definition config_store :: store where
  "config_store = [CSink \<lparr>sk_Type = ''slack'', sk_SecretName = ''s''\<rparr>,
     CReleases [\<lparr>pr_Chart = \<lparr>hc_Name = ''aws'', hc_Repository = ''r'', hc_Version = ''v''\<rparr>, pr_Values = []\<rparr>],
     CObjectMeta empty_meta,
     CConfig \<lparr>gg_TypeMeta = \<lparr>tm_APIVersion = [], tm_Kind = []\<rparr>, gg_ObjectMeta = 2,
       gg_Spec = \<lparr>gp_HelmConfig = \<lparr>hcfg_Registry = [], hcfg_CAFile = [], hcfg_InsecureSkipTLSVerify = False,
           hcfg_AuthSecretName = []\<rparr>,
         gp_Plugins = Some \<lparr>sl_addr = 1, sl_off = 0, sl_len = 1\<rparr>, gp_Sink = Some 0\<rparr>,
       gg_Status = \<lparr>gt_Conditions = None\<rparr>\<rparr>]"

theorem Config_DeepCopy_independent_witness:
  "case Config_DeepCopy test_copiers (Some 3) config_store of (p', st') \<Rightarrow>
     view_ptr cell_config view_config st' p' = view_ptr cell_config view_config config_store (Some 3)"
proof -
  obtain p' st' where c: "Config_DeepCopy test_copiers (Some 3) config_store = (p', st')" by fastforce
  have "within (reach_ptr cell_config reach_config config_store (Some 3)) config_store"
    by (simp add: config_store_def reach_ptr_def reach_config_def reach_meta_def reach_spec_def
        reach_cstatus_def reach_slice_def slice_elems_def reach_flat_def)
  from Config_DeepCopy_independent [OF test_copiers_ok this c] show ?thesis using c by simp
qed

end
