(* ===== verification/Test_Doubles.thy ===== *)
theory Test_Doubles
  imports Deep_Copy Runtime
begin

text \<open>
  \<^theory_text>\<open>pkg/test\<close>: the mocks of the API client and the patch helper, and \<^theory_text>\<open>CheckTestCase\<close>.  The methods
  of the mocks have value receivers: they work on a copy of the mock, so that the assignment to the
  receiver, which should use up an error, is lost.  The mock of the caller is the \<open>obj\<close> of the
  state; the copy is a local value.  A nil slice is \<open>None\<close>.
\<close>

section \<open>Mocks\<close>

type_synonym error_list = "goerror option list option"

record sub_resource_mock =
  sm_UpdateErrors :: error_list

record client_mock =
  cm_CreateErrors :: error_list
  cm_GetErrors :: error_list
  cm_UpdateErrors :: error_list
  cm_SubResourceMock :: sub_resource_mock

record patch_helper_mock =
  pm_PatchErrors :: error_list

type_synonym ('o, 'a) mocked = "(unit, unit, 'o, 'a) go"

text \<open>\<^theory_text>\<open>if m.Errors != nil { err, errs = m.Errors[0], m.Errors[1:] }\<close>\<close>

definition next_error :: "error_list \<Rightarrow> ('o, goerror option \<times> error_list) mocked" where
  "next_error errors =
     (case errors of
        None \<Rightarrow> go_return (None, None)
      | Some [] \<Rightarrow> go_panic IndexOutOfRange
      | Some (e # es) \<Rightarrow> go_return (e, Some es))"

definition mock_sub_Update :: "(sub_resource_mock, goerror option) mocked" where
  "mock_sub_Update =
     go_bind go_obj (\<lambda>m.
     go_bind (next_error (sm_UpdateErrors m)) (\<lambda>(err, errs).
     let m = \<lparr>sm_UpdateErrors = errs\<rparr> in go_return err))"

definition mock_Get :: "(client_mock, goerror option) mocked" where
  "mock_Get =
     go_bind go_obj (\<lambda>m.
     go_bind (next_error (cm_GetErrors m)) (\<lambda>(err, errs).
     let m = \<lparr>cm_CreateErrors = cm_CreateErrors m, cm_GetErrors = errs, cm_UpdateErrors = cm_UpdateErrors m,
       cm_SubResourceMock = \<lparr>sm_UpdateErrors = None\<rparr>\<rparr> in go_return err))"

definition mock_Create :: "(client_mock, goerror option) mocked" where
  "mock_Create =
     go_bind go_obj (\<lambda>m.
     go_bind (next_error (cm_CreateErrors m)) (\<lambda>(err, errs).
     let m = \<lparr>cm_CreateErrors = errs, cm_GetErrors = cm_GetErrors m, cm_UpdateErrors = cm_UpdateErrors m,
       cm_SubResourceMock = \<lparr>sm_UpdateErrors = None\<rparr>\<rparr> in go_return err))"

definition mock_Update :: "(client_mock, goerror option) mocked" where
  "mock_Update =
     go_bind go_obj (\<lambda>m.
     go_bind (next_error (cm_UpdateErrors m)) (\<lambda>(err, errs).
     let m = \<lparr>cm_CreateErrors = cm_CreateErrors m, cm_GetErrors = cm_GetErrors m, cm_UpdateErrors = errs,
       cm_SubResourceMock = \<lparr>sm_UpdateErrors = None\<rparr>\<rparr> in go_return err))"

definition mock_Patch :: "(patch_helper_mock, goerror option) mocked" where
  "mock_Patch =
     go_bind go_obj (\<lambda>m.
     go_bind (next_error (pm_PatchErrors m)) (\<lambda>(err, errs).
     let m = \<lparr>pm_PatchErrors = errs\<rparr> in go_return err))"

text \<open>\<open>n\<close> calls in a row, and what they return.\<close>

fun times :: "nat \<Rightarrow> ('o, 'a) mocked \<Rightarrow> ('o, 'a list) mocked" where
  "times 0 m = go_return []"
| "times (Suc n) m = go_bind m (\<lambda>x. go_bind (times n m) (\<lambda>xs. go_return (x # xs)))"

lemma times_constant: "m s = (Inr x, s) \<Longrightarrow> times n m s = (Inr (replicate n x), s)"
  by (induction n) (simp_all add: go_eval)

text \<open>
  The mocks never use up an error.  Whatever the list of errors, every call of a mocked method
  returns its first one, and the mock stays as it is.\<close>
lemma mocks_repeat_first_error:
  "times n mock_Get (s\<lparr>obj := m\<lparr>cm_GetErrors := Some (e # es)\<rparr>\<rparr>) =
     (Inr (replicate n e), s\<lparr>obj := m\<lparr>cm_GetErrors := Some (e # es)\<rparr>\<rparr>) \<and>
   times n mock_Create (s\<lparr>obj := m\<lparr>cm_CreateErrors := Some (e # es)\<rparr>\<rparr>) =
     (Inr (replicate n e), s\<lparr>obj := m\<lparr>cm_CreateErrors := Some (e # es)\<rparr>\<rparr>) \<and>
   times n mock_Update (s\<lparr>obj := m\<lparr>cm_UpdateErrors := Some (e # es)\<rparr>\<rparr>) =
     (Inr (replicate n e), s\<lparr>obj := m\<lparr>cm_UpdateErrors := Some (e # es)\<rparr>\<rparr>)"
  by (intro conjI times_constant)
     (simp_all add: mock_Get_def mock_Create_def mock_Update_def next_error_def go_eval)

section \<open>CheckTestCase\<close>

text \<open>
  A rule result as the Go struct it is: the condition behind its pointer has slices in the store,
  and \<^theory_text>\<open>reflect.DeepEqual\<close> tells a nil slice from an empty one, as \<^const>\<open>view_strings\<close> does.  The
  texts of the reports are left out; each is named by what it is about.
\<close>

record go_rule_result =
  gq_State :: "string option"
  gq_Condition :: "go_condition option"

datatype complaint = BadState | BadType | BadRule | BadMessage | BadDetails | BadFailures | BadStatus
  | MissingError | WrongError

definition t_Errorf :: "complaint \<Rightarrow> (complaint, unit, 'o, unit) go" where
  "t_Errorf c = go_call c (\<lambda>_. ())"

definition complain_if :: "bool \<Rightarrow> complaint \<Rightarrow> (complaint, unit, 'o, unit) go" where
  "complain_if b c = (if b then t_Errorf c else go_return ())"

definition deref :: "'a option \<Rightarrow> ('e, unit, 'o, 'a) go" where
  "deref p = (case p of None \<Rightarrow> go_panic NilDereference | Some v \<Rightarrow> go_return v)"

definition CheckTestCase ::
  "store \<Rightarrow> go_rule_result option \<Rightarrow> go_rule_result \<Rightarrow> goerror option \<Rightarrow> goerror option \<Rightarrow>
     (complaint, unit, 'o, unit) go" where
  "CheckTestCase st res expectedResult err expectedError =
     go_bind (deref res) (\<lambda>res.
     go_bind (complain_if (gq_State res \<noteq> gq_State expectedResult) BadState) (\<lambda>_.
     go_bind (deref (gq_Condition res)) (\<lambda>c.
     go_bind (deref (gq_Condition expectedResult)) (\<lambda>x.
     go_bind (complain_if (gc_ValidationType c \<noteq> gc_ValidationType x) BadType) (\<lambda>_.
     go_bind (complain_if (gc_ValidationRule c \<noteq> gc_ValidationRule x) BadRule) (\<lambda>_.
     go_bind (complain_if (gc_Message c \<noteq> gc_Message x) BadMessage) (\<lambda>_.
     go_bind (complain_if (view_strings st (gc_Details c) \<noteq> view_strings st (gc_Details x)) BadDetails) (\<lambda>_.
     go_bind (complain_if (view_strings st (gc_Failures c) \<noteq> view_strings st (gc_Failures x)) BadFailures) (\<lambda>_.
     go_bind (complain_if (gc_Status c \<noteq> gc_Status x) BadStatus) (\<lambda>_.
     case expectedError of
       None \<Rightarrow> go_return ()
     | Some e \<Rightarrow>
         go_bind (complain_if (err = None) MissingError) (\<lambda>_.
         go_bind (deref err) (\<lambda>err.
         complain_if (err_text err \<noteq> err_text e) WrongError))))))))))))"

text \<open>What two conditions agree on.\<close>

definition same_condition :: "store \<Rightarrow> go_condition \<Rightarrow> go_condition \<Rightarrow> bool" where
  "same_condition st c x \<longleftrightarrow> gc_ValidationType c = gc_ValidationType x \<and>
     gc_ValidationRule c = gc_ValidationRule x \<and> gc_Message c = gc_Message x \<and>
     view_strings st (gc_Details c) = view_strings st (gc_Details x) \<and>
     view_strings st (gc_Failures c) = view_strings st (gc_Failures x) \<and> gc_Status c = gc_Status x"

text \<open>
  \<^theory_text>\<open>CheckTestCase\<close> passes, with no complaint and no panic, exactly when the result has the expected
  state and condition (the time aside) and, if an error is expected, there is an error of that
  text.  An error that is not expected passes, and a missing one that is expected is reported and
  then ends in a nil dereference.\<close>
lemma CheckTestCase_passes_iff:
  "(\<exists>s'. CheckTestCase st (Some r) x err expected s = (Inr (), s') \<and> hist s' = hist s) \<longleftrightarrow>
     gq_State r = gq_State x \<and>
     (\<exists>c d. gq_Condition r = Some c \<and> gq_Condition x = Some d \<and> same_condition st c d) \<and>
     (case expected of None \<Rightarrow> True | Some e \<Rightarrow> map_option err_text err = Some (err_text e))"
  by (cases "gq_Condition r"; cases "gq_Condition x"; cases expected; cases err)
     (auto simp: CheckTestCase_def deref_def complain_if_def t_Errorf_def go_eval same_condition_def)

end
