(* ===== verification/E2E_Utils.thy ===== *)
theory E2E_Utils
  imports GoLib
begin

text \<open>
  \<^theory_text>\<open>tests/utils/utils.go\<close>: the helpers of the end-to-end tests.  They run kubectl and kind in the
  directory of the project and edit a kustomization file.  The working directory, the commands and the
  files are events with an answer; the environment of a command, GO111MODULE=on added, is left out.
\<close>

section \<open>Commands\<close>

datatype e2e_event =
    E2Getwd
  | E2Chdir string
  | E2Exec string "string list"
  | E2Print string
  | E2ReadFile string
  | E2WriteFile string string

record e2e_env =
  ee_Getwd :: "e2e_event list \<Rightarrow> string \<times> goerror option"
  ee_Chdir :: "e2e_event list \<Rightarrow> string \<Rightarrow> goerror option"
  ee_Exec :: "e2e_event list \<Rightarrow> string \<Rightarrow> string list \<Rightarrow> string \<times> goerror option"
  ee_ReadFile :: "e2e_event list \<Rightarrow> string \<Rightarrow> goerror + string"
  ee_WriteFile :: "e2e_event list \<Rightarrow> string \<Rightarrow> string \<Rightarrow> goerror option"
  ee_KindCluster :: "string option"

type_synonym 'a e2e = "(e2e_event, unit, unit, 'a) go"

definition newline :: char where
  "newline = CHR 0x0A"

definition e2e_print :: "string \<Rightarrow> unit e2e" where
  "e2e_print s = go_call (E2Print s) (\<lambda>_. ())"

definition warnError :: "goerror \<Rightarrow> unit e2e" where
  "warnError err = e2e_print (''warning: '' @ err_text err @ [newline])"

text \<open>\<^theory_text>\<open>strings.Replace\<close> of a pattern that is not empty by nothing.\<close>

function remove_all :: "string \<Rightarrow> string \<Rightarrow> string" where
  "remove_all old s =
     (if s = [] then []
      else if old \<noteq> [] \<and> has_prefix s old then remove_all old (drop (length old) s)
      else hd s # remove_all old (tl s))"
  by pat_completeness auto

termination
  by (relation "measure (\<lambda>(old, s). length s)") auto

declare remove_all.simps [simp del]

definition GetProjectDir :: "e2e_env \<Rightarrow> (string \<times> goerror option) e2e" where
  "GetProjectDir env =
     go_bind (go_call E2Getwd (ee_Getwd env)) (\<lambda>(wd, err).
     case err of Some e \<Rightarrow> go_return (wd, Some e) | None \<Rightarrow> go_return (remove_all ''/tests/e2e'' wd, None))"

definition e2e_Run :: "e2e_env \<Rightarrow> string list \<Rightarrow> (string \<times> goerror option) e2e" where
  "e2e_Run env args =
     go_bind (GetProjectDir env) (\<lambda>(dir, err).
     go_bind (go_call (E2Chdir dir) (\<lambda>h. ee_Chdir env h dir)) (\<lambda>err.
     go_bind
       (case err of
          Some e \<Rightarrow> e2e_print (''chdir dir: '' @ err_text e @ [newline])
        | None \<Rightarrow> go_return ()) (\<lambda>_.
     let command = join args '' '' in
     go_bind (e2e_print (''running: '' @ command @ [newline])) (\<lambda>_.
     go_bind (go_call (E2Exec dir args) (\<lambda>h. ee_Exec env h dir args)) (\<lambda>(output, err).
     case err of
       Some e \<Rightarrow> go_return (output,
         Some (errors_New (command @ '' failed with error: ('' @ err_text e @ '') '' @ output)))
     | None \<Rightarrow> go_return (output, None))))))"

definition prometheusOperatorURL :: string where
  "prometheusOperatorURL =
     ''https://github.com/prometheus-operator/prometheus-operator/releases/download/v0.77.1/bundle.yaml''"

definition certmanagerURL :: string where
  "certmanagerURL = ''https://github.com/jetstack/cert-manager/releases/download/v1.16.0/cert-manager.yaml''"

definition InstallPrometheusOperator :: "e2e_env \<Rightarrow> goerror option e2e" where
  "InstallPrometheusOperator env =
     go_bind (e2e_Run env [''kubectl'', ''create'', ''-f'', prometheusOperatorURL]) (\<lambda>(out, err). go_return err)"

definition UninstallPrometheusOperator :: "e2e_env \<Rightarrow> unit e2e" where
  "UninstallPrometheusOperator env =
     go_bind (e2e_Run env [''kubectl'', ''delete'', ''-f'', prometheusOperatorURL]) (\<lambda>(out, err).
     case err of Some e \<Rightarrow> warnError e | None \<Rightarrow> go_return ())"

definition UninstallCertManager :: "e2e_env \<Rightarrow> unit e2e" where
  "UninstallCertManager env =
     go_bind (e2e_Run env [''kubectl'', ''delete'', ''-f'', certmanagerURL]) (\<lambda>(out, err).
     case err of Some e \<Rightarrow> warnError e | None \<Rightarrow> go_return ())"

definition InstallCertManager :: "e2e_env \<Rightarrow> goerror option e2e" where
  "InstallCertManager env =
     go_bind (e2e_Run env [''kubectl'', ''apply'', ''-f'', certmanagerURL]) (\<lambda>(out, err).
     case err of
       Some e \<Rightarrow> go_return (Some e)
     | None \<Rightarrow>
         go_bind (e2e_Run env [''kubectl'', ''wait'', ''deployment.apps/cert-manager-webhook'', ''--for'',
           ''condition=Available'', ''--namespace'', ''cert-manager'', ''--timeout'', ''5m'']) (\<lambda>(out, err).
         go_return err))"

definition LoadImageToKindClusterWithName :: "e2e_env \<Rightarrow> string \<Rightarrow> goerror option e2e" where
  "LoadImageToKindClusterWithName env name =
     (let cluster = (case ee_KindCluster env of None \<Rightarrow> ''kind'' | Some v \<Rightarrow> v) in
      go_bind (e2e_Run env [''kind'', ''load'', ''docker-image'', name, ''--name'', cluster]) (\<lambda>(out, err).
      go_return err))"

section \<open>Lines\<close>

text \<open>\<^theory_text>\<open>strings.Split\<close> at newlines.\<close>

fun split_lines :: "string \<Rightarrow> string list" where
  "split_lines [] = [[]]"
| "split_lines (c # cs) =
     (if c = newline then [] # split_lines cs
      else (case split_lines cs of [] \<Rightarrow> [[c]] | l # ls \<Rightarrow> (c # l) # ls))"

definition GetNonEmptyLines :: "string \<Rightarrow> string list" where
  "GetNonEmptyLines output = filter (\<lambda>element. element \<noteq> []) (split_lines output)"

text \<open>Both functions that look for CRDs share this loop.\<close>

definition crd_listed :: "string list \<Rightarrow> string list \<Rightarrow> bool" where
  "crd_listed crds lines \<longleftrightarrow> list_ex (\<lambda>crd. list_ex (\<lambda>line. contains line crd) lines) crds"

definition IsPrometheusCRDsInstalled :: "e2e_env \<Rightarrow> bool e2e" where
  "IsPrometheusCRDsInstalled env =
     go_bind (e2e_Run env [''kubectl'', ''get'', ''crds'', ''-o'', ''custom-columns=NAME:.metadata.name'']) (\<lambda>(output, err).
     case err of
       Some e \<Rightarrow> go_return False
     | None \<Rightarrow> go_return (crd_listed [''prometheuses.monitoring.coreos.com'', ''prometheusrules.monitoring.coreos.com'',
         ''prometheusagents.monitoring.coreos.com''] (GetNonEmptyLines output)))"

definition IsCertManagerCRDsInstalled :: "e2e_env \<Rightarrow> bool e2e" where
  "IsCertManagerCRDsInstalled env =
     go_bind (e2e_Run env [''kubectl'', ''get'', ''crds'']) (\<lambda>(output, err).
     case err of
       Some e \<Rightarrow> go_return False
     | None \<Rightarrow> go_return (crd_listed [''certificates.cert-manager.io'', ''issuers.cert-manager.io'',
         ''clusterissuers.cert-manager.io'', ''certificaterequests.cert-manager.io'', ''orders.acme.cert-manager.io'',
         ''challenges.acme.cert-manager.io''] (GetNonEmptyLines output)))"

text \<open>
  \<^theory_text>\<open>bufio.Scanner\<close> over lines: a carriage return before the newline is dropped, a newline at the end
  starts no line, and a line of more than 65535 bytes ends the scan.
\<close>

definition drop_cr :: "string \<Rightarrow> string" where
  "drop_cr line = (if line \<noteq> [] \<and> last line = CHR 0x0D then butlast line else line)"

lemma after_line_shorter:
  assumes "s \<noteq> []"
  shows "length (tl (dropWhile P s)) < length s"
proof (cases "dropWhile P s")
  case Nil
  show ?thesis unfolding Nil using assms by simp
next
  case (Cons c cs)
  then show ?thesis using length_dropWhile_le [of P s] by simp
qed

function scan_lines :: "string \<Rightarrow> string list" where
  "scan_lines s =
     (if s = [] then []
      else
        (let line = takeWhile (\<lambda>c. c \<noteq> newline) s in
         if length line > 65535 then []
         else drop_cr line # scan_lines (tl (dropWhile (\<lambda>c. c \<noteq> newline) s))))"
  by pat_completeness auto

termination
proof (relation "measure length")
  fix s line :: string
  assume "s \<noteq> []"
  then show "(tl (dropWhile (\<lambda>c. c \<noteq> newline) s), s) \<in> measure length"
    using after_line_shorter by (simp del: length_tl)
qed simp

declare scan_lines.simps [simp del]

text \<open>\<^theory_text>\<open>strings.Index\<close>.\<close>

fun string_index :: "string \<Rightarrow> string \<Rightarrow> nat option" where
  "string_index [] sub = (if sub = [] then Some 0 else None)"
| "string_index (c # cs) sub =
     (if has_prefix (c # cs) sub then Some 0 else map_option Suc (string_index cs sub))"

definition UncommentCode :: "e2e_env \<Rightarrow> string \<Rightarrow> string \<Rightarrow> string \<Rightarrow> goerror option e2e" where
  "UncommentCode env filename target prefix =
     go_bind (go_call (E2ReadFile filename) (\<lambda>h. ee_ReadFile env h filename)) (\<lambda>got.
     case got of
       Inl e \<Rightarrow> go_return (Some e)
     | Inr content \<Rightarrow>
         (case string_index content target of
            None \<Rightarrow> go_return (Some (errors_New (''unable to find the code '' @ target @ '' to be uncomment'')))
          | Some idx \<Rightarrow>
              (case scan_lines target of
                 [] \<Rightarrow> go_return None
               | lines \<Rightarrow>
                   (let out = take idx content @ join (map (\<lambda>l. trim_prefix l prefix) lines) [newline]
                      @ drop (idx + length target) content in
                    go_call (E2WriteFile filename out) (\<lambda>h. ee_WriteFile env h filename out)))))"

section \<open>Lemmas\<close>

lemma split_lines_nonempty: "split_lines s \<noteq> []"
  by (induction s) (auto split: list.split)

lemma split_lines_join: "join (split_lines s) [newline] = s"
proof (induction s)
  case (Cons c cs)
  then show ?case
    using split_lines_nonempty [of cs] by (cases "split_lines cs"; cases "tl (split_lines cs)") auto
qed simp

text \<open>The non-empty lines are the pieces between newlines, in their order, none of them with a newline.\<close>

lemma split_lines_no_newline: "l \<in> set (split_lines s) \<Longrightarrow> newline \<notin> set l"
proof (induction s arbitrary: l)
  case (Cons c cs)
  then show ?case using split_lines_nonempty [of cs] by (cases "split_lines cs") (auto split: if_splits)
qed simp

lemma GetNonEmptyLines_lines:
  "l \<in> set (GetNonEmptyLines s) \<Longrightarrow> l \<noteq> [] \<and> newline \<notin> set l"
  "concat (GetNonEmptyLines s) = filter (\<lambda>c. c \<noteq> newline) s"
proof -
  show "l \<in> set (GetNonEmptyLines s) \<Longrightarrow> l \<noteq> [] \<and> newline \<notin> set l"
    by (auto simp: GetNonEmptyLines_def split_lines_no_newline)
  have "concat (filter (\<lambda>l. l \<noteq> []) ls) = concat ls" for ls :: "string list" by (induction ls) auto
  moreover have "concat (split_lines s) = filter (\<lambda>c. c \<noteq> newline) s"
  proof (induction s)
    case (Cons c cs)
    then show ?case using split_lines_nonempty [of cs] by (cases "split_lines cs") auto
  qed simp
  ultimately show "concat (GetNonEmptyLines s) = filter (\<lambda>c. c \<noteq> newline) s" by (simp add: GetNonEmptyLines_def)
qed

text \<open>A text of lines, with or without a newline at its end.\<close>

definition plain_line :: "string \<Rightarrow> bool" where
  "plain_line l \<longleftrightarrow> newline \<notin> set l \<and> length l \<le> 65535 \<and> (l \<noteq> [] \<longrightarrow> last l \<noteq> CHR 0x0D)"

lemma scan_first_line:
  assumes "plain_line l"
  shows "scan_lines (l @ newline # s) = l # scan_lines s" and "l \<noteq> [] \<Longrightarrow> scan_lines l = [l]"
proof -
  have t: "takeWhile (\<lambda>c. c \<noteq> newline) l = l" "dropWhile (\<lambda>c. c \<noteq> newline) l = []"
    using assms by (auto simp: plain_line_def takeWhile_eq_all_conv dropWhile_eq_Nil_conv)
  have nl: "\<And>x. x \<in> set l \<Longrightarrow> x \<noteq> newline" using assms by (auto simp: plain_line_def)
  have "takeWhile (\<lambda>c. c \<noteq> newline) (l @ newline # s) = l"
    by (subst takeWhile_append2) (use nl in auto)
  moreover have "dropWhile (\<lambda>c. c \<noteq> newline) (l @ newline # s) = newline # s"
    by (subst dropWhile_append2) (use nl in auto)
  ultimately show "scan_lines (l @ newline # s) = l # scan_lines s"
    using assms by (subst scan_lines.simps) (auto simp: plain_line_def drop_cr_def)
  show "scan_lines l = [l]" if "l \<noteq> []"
    using assms that by (subst scan_lines.simps) (simp add: t Let_def plain_line_def drop_cr_def scan_lines.simps [of "[]"])
qed

lemma scan_lines_join:
  "list_all plain_line ls \<Longrightarrow> ls \<noteq> [] \<Longrightarrow> last ls \<noteq> [] \<Longrightarrow>
     scan_lines (join ls [newline]) = ls \<and> scan_lines (join ls [newline] @ [newline]) = ls"
proof (induction ls)
  case (Cons l ls)
  show ?case
  proof (cases ls)
    case Nil
    then show ?thesis using Cons.prems scan_first_line(1) [of l "[]"] scan_first_line(2) [of l] by (simp add: scan_lines.simps [of "[]"])
  next
    case (Cons m ms)
    then show ?thesis using Cons.prems Cons.IH scan_first_line(1) [of l] by simp
  qed
qed simp

text \<open>
  What \<^theory_text>\<open>UncommentCode\<close> writes: the file with the first occurrence of the target replaced by its lines
  without the prefix.  A newline at the end of the target is lost, so that what follows is joined to
  its last line.
\<close>

lemma UncommentCode_writes:
  assumes "ee_ReadFile env (hist s) f = Inr content" and "string_index content target = Some i"
    and "target = join ls [newline] \<or> target = join ls [newline] @ [newline]"
    and "list_all plain_line ls" and "ls \<noteq> []" and "last ls \<noteq> []"
  shows "wp (UncommentCode env f target prefix) (\<lambda>err s'. hist s' = hist s @ [E2ReadFile f,
    E2WriteFile f (take i content @ join (map (\<lambda>l. trim_prefix l prefix) ls) [newline] @
      drop (i + length target) content)]) s"
proof -
  have "scan_lines target = ls" using scan_lines_join [OF assms(4-6)] assms(3) by auto
  then show ?thesis using assms(1,2,5) by (auto simp: UncommentCode_def wp_rules Let_def split: list.split)
qed

text \<open>A file that cannot be read, or that does not have the target, is left as it is, with an error.\<close>

lemma UncommentCode_errors:
  assumes "case ee_ReadFile env (hist s) f of Inl e \<Rightarrow> True | Inr content \<Rightarrow> string_index content target = None"
  shows "wp (UncommentCode env f target prefix) (\<lambda>err s'. err \<noteq> None \<and> hist s' = hist s @ [E2ReadFile f]) s"
  using assms by (auto simp: UncommentCode_def wp_rules split: sum.splits)

end
