(* ===== verification/Spec2Isabelle.thy ===== *)
theory Spec2Isabelle
  imports Result_Lifecycle Config_Lifecycle Sink_Delivery Cluster Process Release_Json File_Util Kube_Config
    Test_Doubles E2E_Utils
begin

text \<open>
  The validator: a Kubernetes operator in Go with two controllers and a library for its plugins.

  \<^bold>\<open>The program.\<close>  A ValidatorConfig lists plugins and, optionally, a sink.  The ValidatorConfig
  controller installs the Helm chart of every plugin, with a CLI client of helm, and removes the
  releases when the object goes.  A plugin checks its rules and writes the outcome to a
  ValidationResult with the library \<^theory_text>\<open>pkg/validationresult\<close>.  The ValidationResult controller sends a
  finished result to the sink (Slack or Alertmanager) and records its hash, so that the same content
  is not sent twice.  \<^theory_text>\<open>cmd/main.go\<close> wires the parts.

  \<^bold>\<open>How code becomes definitions.\<close>  A Go function with effects is a function in the monad of
  \<^theory_text>\<open>Prelude\<close>: from a state to a panic or a result, and a new state.  The state holds the history of
  the calls to the outside world (\<open>hist\<close>), the process-wide variables (\<open>glob\<close>) and the object behind
  the pointer a function works on (\<open>obj\<close>), so a panic leaves its half-done work visible.  An outside
  call appends an \<open>event\<close> that carries the arguments; its answer comes from an \<open>env\<close>, whose functions
  take the history before the call and are otherwise arbitrary, so a theorem about every \<open>env\<close> holds
  for every behaviour of the API server, the file system, the clock, helm and the registries.  Go's
  \<^theory_text>\<open>defer\<close>, also for a panic, is \<open>go_defer\<close>; a nil dereference, an index out of range and a write to a nil
  map are panics.  \<open>wp m Q s\<close> says that \<open>m\<close> returns from \<open>s\<close>, without a panic, in a state with \<open>Q\<close>; so
  every theorem of that form is also one of termination.

  \<^bold>\<open>Theories and files.\<close>
  \<^item> \<^theory_text>\<open>Prelude\<close>, \<^theory_text>\<open>GoLib\<close>, \<^theory_text>\<open>Digest\<close>, \<^theory_text>\<open>Keyed_List\<close>, \<^theory_text>\<open>Runtime\<close>: the monad and its calculus (\<open>emits\<close>, \<open>keeps\<close>,
    \<open>maintains\<close>, \<open>wp\<close>, \<open>saw\<close>); strings, UTF-8, numbers and base64 of the Go library; MD5 and SHA-256;
    the locale of slices searched by a key; events and environments.
  \<^item> \<^theory_text>\<open>Util\<close> (\<^theory_text>\<open>pkg/util/strings.go\<close>), \<^theory_text>\<open>Api_Types\<close> (\<^theory_text>\<open>api/v1alpha1\<close> and \<^theory_text>\<open>Hash\<close>), \<^theory_text>\<open>Rule_Result\<close>
    (\<^theory_text>\<open>pkg/types\<close>, \<^theory_text>\<open>pkg/constants\<close>, \<^theory_text>\<open>pkg/validationrule\<close>, \<^theory_text>\<open>pkg/validationruleresult\<close>),
    \<^theory_text>\<open>Validation_Result\<close> (\<^theory_text>\<open>pkg/validationresult\<close>), \<^theory_text>\<open>Plugin_Frequency\<close> (\<^theory_text>\<open>pkg/plugins\<close>).
  \<^item> \<^theory_text>\<open>Helm_Client\<close> (\<^theory_text>\<open>pkg/helm\<close>), \<^theory_text>\<open>Helm_Release\<close> (\<^theory_text>\<open>pkg/helm/release\<close>), \<^theory_text>\<open>Release_Time\<close> and \<^theory_text>\<open>Release_Json\<close>
    (\<^theory_text>\<open>pkg/helm/release/time.go\<close>, over the calendar of Go's package time in \<^theory_text>\<open>Calendar\<close>), \<^theory_text>\<open>Sinks\<close>
    (\<^theory_text>\<open>pkg/sinks\<close>).
  \<^item> \<^theory_text>\<open>VR_Controller\<close> (\<^theory_text>\<open>internal/controller/validationresult_controller.go\<close>); \<^theory_text>\<open>VC_Controller\<close>,
    \<^theory_text>\<open>VC_Redeploy\<close> and \<^theory_text>\<open>VC_Deletion\<close> (\<^theory_text>\<open>internal/controller/validatorconfig_controller.go\<close>: the model with
    what a reconciliation writes, the deployment side, the deletion side).
  \<^item> \<^theory_text>\<open>Go_Store\<close> and \<^theory_text>\<open>Deep_Copy\<close> (\<^theory_text>\<open>api/v1alpha1/zz_generated.deepcopy.go\<close> over an explicit heap, the one
    place where sharing matters), \<^theory_text>\<open>File_Util\<close> (\<^theory_text>\<open>pkg/util/file.go\<close>), \<^theory_text>\<open>Kube_Config\<close> (\<^theory_text>\<open>pkg/kube\<close>),
    \<^theory_text>\<open>Test_Doubles\<close> (\<^theory_text>\<open>pkg/test\<close>), \<^theory_text>\<open>E2E_Utils\<close> (\<^theory_text>\<open>tests/utils\<close>).
  \<^item> \<^theory_text>\<open>Manager\<close> (\<^theory_text>\<open>cmd/main.go\<close> from the flags on), \<^theory_text>\<open>Command_Line\<close> (its flags and Go's flag parser) and
    \<^theory_text>\<open>Process\<close> (the init functions of \<^theory_text>\<open>cmd/main.go\<close>, \<^theory_text>\<open>pkg/helm\<close> and \<^theory_text>\<open>api/v1alpha1\<close>, and the whole process).
  \<^item> \<^theory_text>\<open>Sink_Delivery\<close>: controller and sinks together, when the sink works; the locale \<open>working_sink\<close>
    extends the contract \<open>sink_iface\<close> of \<^theory_text>\<open>Sinks\<close>.
  \<^item> \<^theory_text>\<open>Result_Lifecycle\<close>: plugin and controller together, a step relation on one stored ValidationResult.
    \<^theory_text>\<open>Config_Lifecycle\<close>: users and controller on one stored ValidatorConfig.  \<^theory_text>\<open>Cluster\<close>: both controllers,
    the plugins and the users on one API server, a refinement of the two lives.

  \<^bold>\<open>What the lemmas show.\<close>
  \<^item> \<^theory_text>\<open>Finalize\<close> is a map update by rule followed by a verdict over all conditions; it panics exactly
    on the responses described by \<open>finalizable\<close>; one failed rule makes the result fail.  \<^theory_text>\<open>SafeUpdate\<close>
    has the finalised status stored, in one patch.
  \<^item> The ValidationResult controller always returns, sends only what is due, patches once and last,
    changes nothing but the hash and the sink condition, and stores how the emission ended, with the
    error of the sink; a due result reaches a sink that works.  Over any sequence of steps of plugin
    and controller, what is sent is complete, has one condition per rule, agrees with its state, and
    is not what was recorded last.
  \<^item> A reconciliation of a ValidatorConfig installs every plugin when helm and the registry work,
    reports one condition per plugin with the error met, does nothing when repeated, and writes at most
    once.  A deletion deletes every release before the finalizer goes when Helm owns them all; in any
    case, and for any order in which the goroutines run, it deletes only releases that it saw Helm own,
    and a release that cannot be looked up keeps the finalizer.  Over any history, an object that may
    hold releases holds the finalizer, provided the last write was accepted, and cannot just vanish.
  \<^item> In every interleaving of both controllers, plugins and users the single objects live as above, and a
    result goes only to the service of the sink that the stored ValidatorConfig names.
  \<^item> The helm client runs the command of a table, and its polling ends.  It prints no password when no
    earlier argument has the form of the password flag, and leaves no file when closing and removing
    files succeeds and files are not to be kept.  The release client reads back what Helm stores and
    returns the latest usable release.  Sinks send one message with the layout given and escape it once.
  \<^item> Deep copies read the same and share no cell.  The durations between the times of a release saturate,
    their JSON form is read back, and the calendar of \<open>Calendar\<close> numbers the days without a gap.  The
    command line is read back.  The process runs its steps in order; the first that fails ends it with
    its own message and exit code 1, a bad command line with code 2.
  \<^item> Where the code does not do what it says, a lemma states what it does instead; these are the lemmas
    named after the effect (\<open>vc_Reconcile_orphans\<close>, \<open>failed_plugin_forgotten\<close>, \<open>chart_change_ignored\<close>,
    \<open>hash_misses_split_details\<close>, \<open>frequency_overflow\<close>, \<open>Finalize_nil_result_nil_error\<close>, and others).

  \<^bold>\<open>Hypotheses on the outside.\<close>  \<open>clock_ok\<close>: a sleep advances the clock by what was asked.  \<open>close_ok\<close>:
  closing a temporary file succeeds.  \<open>remove_ok\<close>: so does removing one.  \<open>helm_works\<close>, \<open>registry_works\<close>,
  \<open>services_work\<close>: the calls for the liveness theorems succeed.  \<open>gzip_format\<close>, \<open>json_format\<close>: a gzip stream
  starts with its magic number and is decompressed to what was compressed, and a release is read back
  from its JSON text, which is no gzip stream.  \<open>copiers_ok\<close>: the deep copies of \<^theory_text>\<open>metav1\<close> and \<^theory_text>\<open>cluster-api\<close> types are deep copies.
  \<open>created_as\<close>: a created object keeps its specification and status.  Each has an instance in the witnesses.

  \<^bold>\<open>Bounds and fuel.\<close>  The polling loop of \<^theory_text>\<open>writeKubeConfig\<close> has a fuel of 1201 rounds: it runs for at
  most a minute and sleeps 50 milliseconds per round, so under \<open>clock_ok\<close> the fuel is never used up
  (\<open>writeKubeConfig_returns\<close>).  The other loops are structural, or shrink a string
  (\<open>parse_parts\<close>, \<open>remove_all\<close>, \<open>scan_lines\<close>) or the list of arguments (\<open>parse_flags\<close>).
  Durations are 64-bit words; \<^theory_text>\<open>time.Time\<close> is an integer of nanoseconds.

  \<^bold>\<open>Not modelled.\<close>  \<^theory_text>\<open>SetupWithManager\<close>, which only hands the controllers to controller-runtime; log lines
  other than those of \<^theory_text>\<open>HandleExisting\<close>, and the set-up of the logger; the bodies of gzip, url,
  slack-go, net/http, OCI, helm and JSON other than that of a release time, which are parameters or
  environment calls; the database of time zones (\<open>zone_data\<close>) and the parser of layouts behind
  \<^theory_text>\<open>time.Parse\<close> (\<open>time_parser\<close>), which are parameters; the monotonic clock reading; the value of the
  fraction of a duration, which Go computes in floating point and which is a parameter of
  \<open>parse_duration\<close>; the mocks of \<^theory_text>\<open>pkg/test\<close> that return a constant; the end-to-end tests that call
  \<^theory_text>\<open>tests/utils\<close>.  The patch helper of cluster-api is third-party code: a call of it is one event, and
  \<open>Config_Lifecycle\<close> lets a failed one store any part of its changes, while \<open>Result_Lifecycle\<close> takes a failed
  one to store nothing.  Goroutines appear in one place, \<^theory_text>\<open>deletePlugins\<close>: a \<open>schedule\<close> says, at every
  call of the API server and every return, which of the started deletions run; \<^theory_text>\<open>wg.Wait\<close> runs all that
  are left, and those still pending when \<^theory_text>\<open>Reconcile\<close> returns are left out.  The single calls of two
  deletions do not interleave.
\<close>

end
